(* ===== verification/Prelude.thy ===== *)
theory Prelude
  imports Main "HOL-Library.Word"
begin

text \<open>
  What every component shares: instants and durations, Go's error values, the type of a
  program over a state, the combinators that follow Go's \<open>if err != nil\<close> idioms, and a
  small logic for those programs. Nothing here models a file of the repository by itself;
  every other theory is written with it.
\<close>

section \<open>Instants and durations\<close>

text \<open>
  A Go \<open>time.Time\<close> is the number of nanoseconds since Go's zero time (1 January of year 1,
  midnight UTC), so that \<open>t.IsZero()\<close> is \<open>t = 0\<close>, \<open>Before\<close> is \<open><\<close> and \<open>After\<close> is \<open>>\<close>.
  A \<open>time.Duration\<close> is a number of nanoseconds.
\<close>

type_synonym time = int
type_synonym duration = int

definition Nanosecond :: duration where "Nanosecond = 1"
definition Millisecond :: duration where "Millisecond = 1000000"
definition Second :: duration where "Second = 1000000000"
definition Minute :: duration where "Minute = 60000000000"
definition Hour :: duration where "Hour = 3600000000000"

lemmas duration_defs = Nanosecond_def Millisecond_def Second_def Minute_def Hour_def

section \<open>Machine integers\<close>

text \<open>Go's conversions \<open>int32(n)\<close> and \<open>int64(n)\<close>: two's complement, wrapping.\<close>

definition to_int32 :: "int \<Rightarrow> int" where
  "to_int32 n = sint (word_of_int n :: 32 word)"

definition to_int64 :: "int \<Rightarrow> int" where
  "to_int64 n = sint (word_of_int n :: 64 word)"

definition max_int64 :: int where "max_int64 = 2 ^ 63 - 1"
definition min_int64 :: int where "min_int64 = - (2 ^ 63)"

lemma to_int32_id: "- (2 ^ 31) \<le> n \<Longrightarrow> n < 2 ^ 31 \<Longrightarrow> to_int32 n = n"
  unfolding to_int32_def sint_sbintrunc' by (rule signed_take_bit_int_eq_self) simp_all

lemma to_int64_id: "min_int64 \<le> n \<Longrightarrow> n \<le> max_int64 \<Longrightarrow> to_int64 n = n"
  unfolding to_int64_def sint_sbintrunc' min_int64_def max_int64_def
  by (rule signed_take_bit_int_eq_self) simp_all

lemma to_int32_range: "- (2 ^ 31) \<le> to_int32 n \<and> to_int32 n < 2 ^ 31"
  using sint_ge [of "word_of_int n :: 32 word"] sint_lt [of "word_of_int n :: 32 word"]
  by (simp add: to_int32_def)

lemma to_int64_range: "min_int64 \<le> to_int64 n \<and> to_int64 n \<le> max_int64"
  using sint_ge [of "word_of_int n :: 64 word"] sint_lt [of "word_of_int n :: 64 word"]
  by (simp add: to_int64_def min_int64_def max_int64_def)

section \<open>Errors\<close>

text \<open>
  The package-level error variables the code compares against with \<open>errors.Is\<close>, the
  driver's \<open>PgError\<close> (by its SQLSTATE code), any other error (by its text), and an error
  wrapped by \<open>fmt.Errorf("...: %w", err)\<close> or by \<open>fmt.Errorf("%w: ...", err)\<close>.
\<close>

datatype sentinel =
    ErrNoRows
  | ErrDailyBudgetExhausted
  | ErrInvalidUnsubscribeToken
  | ErrEmptyQuery
  | ErrInvalidCondition | ErrMissingEventID | ErrWatchNotFound
  | ErrInvalidStatus | ErrWatchLimitReached
  | ErrEmailTaken | ErrInvalidCredentials | ErrWeakPassword | ErrInvalidEmail
  | ErrInvalidToken | ErrAlreadyVerified | ErrNoAccount
  | ErrAccountNotFound

datatype gerr =
    Sentinel sentinel
  | PgError string
  | Opaque string
  | Wrap string gerr
  | Annotate gerr string

text \<open>\<open>errors.Is\<close> walks the chain of wrapped errors; \<open>errors.As\<close> to a \<open>PgError\<close> likewise.\<close>

fun errors_Is :: "gerr \<Rightarrow> sentinel \<Rightarrow> bool" where
  "errors_Is (Sentinel s) t = (s = t)"
| "errors_Is (PgError _) t = False"
| "errors_Is (Opaque _) t = False"
| "errors_Is (Wrap _ e) t = errors_Is e t"
| "errors_Is (Annotate e _) t = errors_Is e t"

fun errors_As_PgError :: "gerr \<Rightarrow> string option" where
  "errors_As_PgError (PgError c) = Some c"
| "errors_As_PgError (Wrap _ e) = errors_As_PgError e"
| "errors_As_PgError (Annotate e _) = errors_As_PgError e"
| "errors_As_PgError (Sentinel _) = None"
| "errors_As_PgError (Opaque _) = None"

type_synonym 'a result = "gerr + 'a"

lemma errors_Is_unique: "errors_Is e s \<Longrightarrow> errors_Is e t \<Longrightarrow> s = t"
  by (induction e) auto

section \<open>Programs over a state\<close>

text \<open>
  A method with effects is a function from the state to its result and the state it
  leaves. \<open>orElse\<close> is \<open>x, err := m(); if err != nil { h(err) }; k(x)\<close>; \<open>orRet\<close> returns the
  error as it is and \<open>orWrap\<close> wraps it, the two forms the code uses.
\<close>

type_synonym ('w, 'a) prog = "'w \<Rightarrow> 'a \<times> 'w"

definition ret :: "'a \<Rightarrow> ('w, 'a) prog" where
  "ret x = (\<lambda>w. (x, w))"

definition letM :: "('w, 'a) prog \<Rightarrow> ('a \<Rightarrow> ('w, 'b) prog) \<Rightarrow> ('w, 'b) prog" where
  "letM m k = (\<lambda>w. case m w of (x, w') \<Rightarrow> k x w')"

definition orElse ::
  "('w, 'a result) prog \<Rightarrow> (gerr \<Rightarrow> ('w, 'b) prog) \<Rightarrow> ('a \<Rightarrow> ('w, 'b) prog) \<Rightarrow> ('w, 'b) prog" where
  "orElse m h k = letM m (\<lambda>r. case r of Inl e \<Rightarrow> h e | Inr x \<Rightarrow> k x)"

definition orRet ::
  "('w, 'a result) prog \<Rightarrow> ('a \<Rightarrow> ('w, 'b result) prog) \<Rightarrow> ('w, 'b result) prog" where
  "orRet m k = orElse m (\<lambda>e. ret (Inl e)) k"

definition orWrap ::
  "string \<Rightarrow> ('w, 'a result) prog \<Rightarrow> ('a \<Rightarrow> ('w, 'b result) prog) \<Rightarrow> ('w, 'b result) prog" where
  "orWrap msg m k = orElse m (\<lambda>e. ret (Inl (Wrap msg e))) k"

text \<open>A statement whose result is dropped (\<open>_ = f()\<close>, or a call for its effect).\<close>

definition andThen :: "('w, 'a) prog \<Rightarrow> ('w, 'b) prog \<Rightarrow> ('w, 'b) prog" where
  "andThen m k = letM m (\<lambda>_. k)"

lemmas prog_defs = ret_def letM_def orElse_def orRet_def orWrap_def andThen_def

lemma ret_run [simp]: "ret x w = (x, w)"
  by (simp add: ret_def)

lemma letM_run: "letM m k w = k (fst (m w)) (snd (m w))"
  by (simp add: letM_def split: prod.split)

lemma orElse_run:
  "orElse m h k w = (case m w of (Inl e, w1) \<Rightarrow> h e w1 | (Inr x, w1) \<Rightarrow> k x w1)"
  by (simp add: orElse_def letM_def split: prod.split sum.split)

lemma orRet_Inr:
  "orRet m k w = (Inr x, w') \<longleftrightarrow> (\<exists>y w1. m w = (Inr y, w1) \<and> k y w1 = (Inr x, w'))"
  by (auto simp: orRet_def orElse_run split: prod.splits sum.splits)

lemma andThen_run: "andThen m k w = k (snd (m w))"
  by (simp add: andThen_def letM_run)

section \<open>A logic for programs\<close>

text \<open>
  \<open>steps R m\<close>: every run of \<open>m\<close> goes from a state to one related by \<open>R\<close>. With a reflexive
  and transitive \<open>R\<close> it is compositional; an invariant is the instance
  \<open>\<lambda>w w'. I w \<longrightarrow> I w'\<close>. \<open>valid P m Q\<close> is the usual triple with a postcondition on result
  and state.
\<close>

named_theorems steps_intros

definition steps :: "('w \<Rightarrow> 'w \<Rightarrow> bool) \<Rightarrow> ('w, 'a) prog \<Rightarrow> bool" where
  "steps R m \<longleftrightarrow> (\<forall>w. R w (snd (m w)))"

definition keeping :: "('w \<Rightarrow> bool) \<Rightarrow> 'w \<Rightarrow> 'w \<Rightarrow> bool" where
  "keeping I w w' \<longleftrightarrow> (I w \<longrightarrow> I w')"

definition valid :: "('w \<Rightarrow> bool) \<Rightarrow> ('w, 'a) prog \<Rightarrow> ('a \<Rightarrow> 'w \<Rightarrow> bool) \<Rightarrow> bool" where
  "valid P m Q \<longleftrightarrow> (\<forall>w. P w \<longrightarrow> Q (fst (m w)) (snd (m w)))"

lemma stepsD: "steps R m \<Longrightarrow> R w (snd (m w))"
  by (simp add: steps_def)

lemma stepsI: "(\<And>w. R w (snd (m w))) \<Longrightarrow> steps R m"
  by (simp add: steps_def)

lemma steps_mono: "steps R m \<Longrightarrow> (\<And>w w'. R w w' \<Longrightarrow> S w w') \<Longrightarrow> steps S m"
  by (simp add: steps_def)

lemma keepingD: "steps (keeping I) m \<Longrightarrow> I w \<Longrightarrow> I (snd (m w))"
  by (simp add: steps_def keeping_def)

lemma validD: "valid P m Q \<Longrightarrow> P w \<Longrightarrow> Q (fst (m w)) (snd (m w))"
  by (simp add: valid_def)

lemma valid_ret [steps_intros]: "(\<And>w. P w \<Longrightarrow> Q x w) \<Longrightarrow> valid P (ret x) Q"
  by (simp add: valid_def)

lemma valid_letM: "valid P m R \<Longrightarrow> (\<And>x. valid (R x) (k x) Q) \<Longrightarrow> valid P (letM m k) Q"
  by (simp add: valid_def letM_run)

lemma valid_orElse:
  assumes "valid P m R" and "\<And>e. valid (R (Inl e)) (h e) Q" and "\<And>x. valid (R (Inr x)) (k x) Q"
  shows "valid P (orElse m h k) Q"
  using assms unfolding orElse_def by (intro valid_letM) (auto split: sum.split)

lemma valid_conseq:
  "valid P m Q \<Longrightarrow> (\<And>w. P' w \<Longrightarrow> P w) \<Longrightarrow> (\<And>x w. Q x w \<Longrightarrow> Q' x w) \<Longrightarrow> valid P' m Q'"
  by (simp add: valid_def)

locale step_preorder =
  fixes R :: "'w \<Rightarrow> 'w \<Rightarrow> bool"
  assumes step_refl: "R w w"
    and step_trans: "R w w' \<Longrightarrow> R w' w'' \<Longrightarrow> R w w''"
begin

lemma steps_ret [steps_intros]: "steps R (ret x)"
  by (simp add: steps_def step_refl)

lemma steps_letM [steps_intros]: "steps R m \<Longrightarrow> (\<And>x. steps R (k x)) \<Longrightarrow> steps R (letM m k)"
  by (auto simp: steps_def letM_run intro: step_trans)

lemma steps_orElse [steps_intros]:
  "steps R m \<Longrightarrow> (\<And>e. steps R (h e)) \<Longrightarrow> (\<And>x. steps R (k x)) \<Longrightarrow> steps R (orElse m h k)"
  unfolding orElse_def by (rule steps_letM) (auto split: sum.split)

lemma steps_orRet [steps_intros]:
  "steps R m \<Longrightarrow> (\<And>x. steps R (k x)) \<Longrightarrow> steps R (orRet m k)"
  unfolding orRet_def by (intro steps_orElse steps_ret)

lemma steps_orWrap [steps_intros]:
  "steps R m \<Longrightarrow> (\<And>x. steps R (k x)) \<Longrightarrow> steps R (orWrap msg m k)"
  unfolding orWrap_def by (intro steps_orElse steps_ret)

lemma steps_andThen [steps_intros]: "steps R m \<Longrightarrow> steps R k \<Longrightarrow> steps R (andThen m k)"
  unfolding andThen_def by (rule steps_letM)

lemma steps_if [steps_intros]:
  "(b \<Longrightarrow> steps R m) \<Longrightarrow> (\<not> b \<Longrightarrow> steps R k) \<Longrightarrow> steps R (if b then m else k)"
  by simp

end

interpretation keeping: step_preorder "keeping I"
  by unfold_locales (auto simp: keeping_def)

section \<open>Lists\<close>

lemma distinct_map_filter: "distinct (map f xs) \<Longrightarrow> distinct (map f (filter P xs))"
  by (induction xs) auto

lemma map_cong_update:
  "(\<And>x. x \<in> set xs \<Longrightarrow> f (g x) = f x) \<Longrightarrow> map f (map g xs) = map f xs"
  by (induction xs) auto

lemma image_cong_update: "(\<And>x. f (g x) = f x) \<Longrightarrow> f ` g ` A = f ` A"
  by (auto simp: image_image)

end
