(* ===== verification/Evaluator.thy ===== *)
theory Evaluator
  imports Prelude
begin

text \<open>
  \<open>internal/evaluator/evaluator.go\<close>: the pure decision of which sale milestones a poll reports.
  \<open>Evaluate\<close> is the code; \<open>reports\<close> states, milestone by milestone and without any order of
  evaluation, when one is due; the two are shown to agree, and the precedences and exclusions the
  comments promise are derived.
\<close>

section \<open>The code\<close>

datatype Kind =
    KindCancelled | KindRescheduled | KindOnsaleAnnounced | KindPresaleOpen
  | KindPublicOpen | KindStatusOnsale | KindSaleClosed

text \<open>The string persisted in \<open>watch_alerts.kind\<close>.\<close>

fun kind_string :: "Kind \<Rightarrow> string" where
  "kind_string KindCancelled = ''cancelled''"
| "kind_string KindRescheduled = ''rescheduled''"
| "kind_string KindOnsaleAnnounced = ''onsale_announced''"
| "kind_string KindPresaleOpen = ''presale_open''"
| "kind_string KindPublicOpen = ''public_open''"
| "kind_string KindStatusOnsale = ''status_onsale''"
| "kind_string KindSaleClosed = ''sale_closed''"

record Observation =
  ob_Now :: time
  ob_Availability :: string
  ob_PublicStart :: "time option"
  ob_PublicEnd :: "time option"
  ob_OnsaleTBD :: bool
  ob_EarliestPresale :: "time option"
  ob_EventDate :: "time option"

record Prior =
  pr_KnewPublicStart :: bool
  pr_LastEvaluation :: bool
  pr_WatchCreatedAt :: time

definition alreadyHappenedBeforeWatch :: "Prior \<Rightarrow> time option \<Rightarrow> bool" where
  "alreadyHappenedBeforeWatch p t =
     (case t of
        None \<Rightarrow> False
      | Some t \<Rightarrow> if pr_WatchCreatedAt p = 0 then False else \<not> t > pr_WatchCreatedAt p)"

record evalResult =
  res_Kinds :: "Kind list"
  res_StatusOnsale :: bool
  res_CloseWatch :: bool

definition isBefore :: "time option \<Rightarrow> time \<Rightarrow> bool" where
  "isBefore p now = (case p of None \<Rightarrow> False | Some t \<Rightarrow> t < now)"

definition isAfter :: "time option \<Rightarrow> time \<Rightarrow> bool" where
  "isAfter p now = (case p of None \<Rightarrow> False | Some t \<Rightarrow> t > now)"

definition notAfter :: "time option \<Rightarrow> time \<Rightarrow> bool" where
  "notAfter p now = (case p of None \<Rightarrow> False | Some t \<Rightarrow> \<not> t > now)"

definition Evaluate :: "Observation \<Rightarrow> Prior \<Rightarrow> evalResult" where
  "Evaluate ob p =
     (let now = ob_Now ob;
          onsale = (ob_Availability ob = ''onsale'');
          res = (\<lambda>kinds close.
                  \<lparr>res_Kinds = kinds, res_StatusOnsale = onsale, res_CloseWatch = close\<rparr>)
      in if isBefore (ob_EventDate ob) now then res [] True
         else if ob_Availability ob = ''cancelled'' then res [KindCancelled] True
         else if ob_Availability ob = ''postponed'' \<or> ob_Availability ob = ''rescheduled''
         then res [KindRescheduled] False
         else
           let kinds = (if \<not> pr_KnewPublicStart p \<and> isAfter (ob_PublicStart ob) now
                        then [KindOnsaleAnnounced] else [])
           in if isBefore (ob_PublicEnd ob) now then res (kinds @ [KindSaleClosed]) False
              else
                let kinds = kinds @
                      (if notAfter (ob_EarliestPresale ob) now \<and>
                          \<not> alreadyHappenedBeforeWatch p (ob_EarliestPresale ob)
                       then [KindPresaleOpen] else []);
                    kinds = kinds @
                      (if notAfter (ob_PublicStart ob) now \<and> onsale \<and>
                          \<not> alreadyHappenedBeforeWatch p (ob_PublicStart ob)
                       then [KindPublicOpen] else []);
                    kinds = kinds @
                      (if ob_PublicStart ob = None \<and> onsale \<and> \<not> pr_LastEvaluation p
                       then [KindStatusOnsale] else [])
                in res kinds False)"

lemmas opt_time_defs = isBefore_def isAfter_def notAfter_def

section \<open>The specification\<close>

text \<open>The three vetoes, in no order, and what each milestone needs besides them.\<close>

definition over :: "Observation \<Rightarrow> bool" where
  "over ob \<longleftrightarrow> (\<exists>t. ob_EventDate ob = Some t \<and> t < ob_Now ob)"

definition called_off :: "Observation \<Rightarrow> bool" where
  "called_off ob \<longleftrightarrow> ob_Availability ob \<in> {''cancelled'', ''postponed'', ''rescheduled''}"

definition closed :: "Observation \<Rightarrow> bool" where
  "closed ob \<longleftrightarrow> (\<exists>t. ob_PublicEnd ob = Some t \<and> t < ob_Now ob)"

text \<open>A window that opened by now, and only after the user subscribed.\<close>

definition opened_since :: "Observation \<Rightarrow> Prior \<Rightarrow> time option \<Rightarrow> bool" where
  "opened_since ob p start \<longleftrightarrow>
     (\<exists>t. start = Some t \<and> t \<le> ob_Now ob \<and>
          (pr_WatchCreatedAt p \<noteq> 0 \<longrightarrow> pr_WatchCreatedAt p < t))"

fun reports :: "Observation \<Rightarrow> Prior \<Rightarrow> Kind \<Rightarrow> bool" where
  "reports ob p KindCancelled \<longleftrightarrow> \<not> over ob \<and> ob_Availability ob = ''cancelled''"
| "reports ob p KindRescheduled \<longleftrightarrow>
     \<not> over ob \<and> ob_Availability ob \<in> {''postponed'', ''rescheduled''}"
| "reports ob p KindOnsaleAnnounced \<longleftrightarrow>
     \<not> over ob \<and> \<not> called_off ob \<and> \<not> pr_KnewPublicStart p \<and>
     (\<exists>t. ob_PublicStart ob = Some t \<and> ob_Now ob < t)"
| "reports ob p KindSaleClosed \<longleftrightarrow> \<not> over ob \<and> \<not> called_off ob \<and> closed ob"
| "reports ob p KindPresaleOpen \<longleftrightarrow>
     \<not> over ob \<and> \<not> called_off ob \<and> \<not> closed ob \<and> opened_since ob p (ob_EarliestPresale ob)"
| "reports ob p KindPublicOpen \<longleftrightarrow>
     \<not> over ob \<and> \<not> called_off ob \<and> \<not> closed ob \<and> ob_Availability ob = ''onsale'' \<and>
     opened_since ob p (ob_PublicStart ob)"
| "reports ob p KindStatusOnsale \<longleftrightarrow>
     \<not> over ob \<and> \<not> closed ob \<and> ob_Availability ob = ''onsale'' \<and>
     ob_PublicStart ob = None \<and> \<not> pr_LastEvaluation p"

text \<open>The order in which the code reports milestones.\<close>

definition report_order :: "Kind list" where
  "report_order = [KindCancelled, KindRescheduled, KindOnsaleAnnounced, KindSaleClosed,
     KindPresaleOpen, KindPublicOpen, KindStatusOnsale]"

lemma opened_since_iff:
  "opened_since ob p t \<longleftrightarrow> notAfter t (ob_Now ob) \<and> \<not> alreadyHappenedBeforeWatch p t"
  by (cases t) (auto simp: opened_since_def alreadyHappenedBeforeWatch_def opt_time_defs)

lemma veto_iffs:
  "over ob \<longleftrightarrow> isBefore (ob_EventDate ob) (ob_Now ob)"
  "closed ob \<longleftrightarrow> isBefore (ob_PublicEnd ob) (ob_Now ob)"
  "(\<exists>t. ob_PublicStart ob = Some t \<and> ob_Now ob < t) \<longleftrightarrow> isAfter (ob_PublicStart ob) (ob_Now ob)"
  by (auto simp: over_def closed_def opt_time_defs split: option.splits)

text \<open>
  The code computes the specification: the milestones it returns are exactly those due, each
  once, in the fixed order.
\<close>

lemma Evaluate_spec: "res_Kinds (Evaluate ob p) = filter (reports ob p) report_order"
proof -
  let ?early = "isBefore (ob_EventDate ob) (ob_Now ob)"
  let ?off = "called_off ob"
  let ?closed = "isBefore (ob_PublicEnd ob) (ob_Now ob)"
  consider "?early" | "\<not> ?early" "?off" | "\<not> ?early" "\<not> ?off" "?closed" | "\<not> ?early" "\<not> ?off" "\<not> ?closed"
    by blast
  then show ?thesis
  proof cases
    case 1
    then show ?thesis by (simp add: Evaluate_def report_order_def Let_def veto_iffs)
  next
    case 2
    then have "ob_Availability ob = ''cancelled'' \<or> ob_Availability ob = ''postponed'' \<or>
        ob_Availability ob = ''rescheduled''" by (simp add: called_off_def)
    with 2 show ?thesis
      by (elim disjE; simp add: Evaluate_def report_order_def Let_def veto_iffs)
  next
    case 3
    then show ?thesis by (simp add: Evaluate_def report_order_def Let_def veto_iffs called_off_def)
  next
    case 4
    then have "\<not> over ob" "\<not> closed ob" by (simp_all add: veto_iffs)
    with 4 show ?thesis
      by (simp add: Evaluate_def report_order_def Let_def veto_iffs(3) opened_since_iff called_off_def)
  qed
qed

lemma Evaluate_StatusOnsale [simp]:
  "res_StatusOnsale (Evaluate ob p) \<longleftrightarrow> ob_Availability ob = ''onsale''"
  by (simp add: Evaluate_def Let_def)

lemma Evaluate_CloseWatch:
  "res_CloseWatch (Evaluate ob p) \<longleftrightarrow> over ob \<or> ob_Availability ob = ''cancelled''"
  by (simp add: Evaluate_def Let_def veto_iffs)

lemma Evaluate_set: "k \<in> set (res_Kinds (Evaluate ob p)) \<longleftrightarrow> reports ob p k"
proof -
  have "k \<in> set report_order" by (cases k) (simp_all add: report_order_def)
  then show ?thesis by (simp add: Evaluate_spec)
qed

lemma Evaluate_distinct: "distinct (res_Kinds (Evaluate ob p))"
  by (simp add: Evaluate_spec report_order_def)

lemma kind_string_inject [simp]: "kind_string k = kind_string k' \<longleftrightarrow> k = k'"
  by (cases k; cases k') simp_all

section \<open>Properties\<close>

text \<open>(C10) The milestones \<open>Evaluate\<close> returns are exactly those the specification says are due, each
  once, in the fixed order: cancelled, rescheduled, onsale announced, sale closed, presale open,
  public open, on sale by status.\<close>
theorem Evaluate_reports_due: "res_Kinds (Evaluate ob p) = filter (reports ob p) report_order"
  by (rule Evaluate_spec)

text \<open>A watch is closed exactly when its event is over or cancelled; an event that is over
  reports nothing, and one that is not on sale by status never sets \<open>last_evaluation\<close>.\<close>
lemma Evaluate_closes:
  "(res_CloseWatch (Evaluate ob p) \<longleftrightarrow> over ob \<or> ob_Availability ob = ''cancelled'') \<and>
   (res_StatusOnsale (Evaluate ob p) \<longleftrightarrow> ob_Availability ob = ''onsale'') \<and>
   res_Kinds (Evaluate (ob\<lparr>ob_EventDate := Some (ob_Now ob - 1)\<rparr>) p) = []"
proof -
  have "over (ob\<lparr>ob_EventDate := Some (ob_Now ob - 1)\<rparr>)" by (simp add: over_def)
  then have "\<not> reports (ob\<lparr>ob_EventDate := Some (ob_Now ob - 1)\<rparr>) p k" for k by (cases k) simp_all
  then show ?thesis
    by (simp add: Evaluate_CloseWatch Evaluate_spec filter_empty_conv)
qed

text \<open>(C26) A milestone that invites the user to buy is never reported for an event that is over,
  called off or closed, never together with the closing or the cancellation, and, where it comes
  from a window, only for a window that opened after the user subscribed.\<close>
theorem open_milestones_are_current:
  assumes "k \<in> set (res_Kinds (Evaluate ob p))"
    and "k \<in> {KindPresaleOpen, KindPublicOpen, KindStatusOnsale}"
  shows "\<not> over ob \<and> \<not> called_off ob \<and> \<not> closed ob \<and>
    KindSaleClosed \<notin> set (res_Kinds (Evaluate ob p)) \<and>
    KindCancelled \<notin> set (res_Kinds (Evaluate ob p)) \<and>
    (k = KindPresaleOpen \<longrightarrow> opened_since ob p (ob_EarliestPresale ob)) \<and>
    (k = KindPublicOpen \<longrightarrow> opened_since ob p (ob_PublicStart ob))"
  using assms unfolding Evaluate_set by (auto simp: called_off_def)

definition ex_open :: Observation where
  "ex_open = \<lparr>ob_Now = 100, ob_Availability = ''onsale'', ob_PublicStart = Some 90, ob_PublicEnd = None,
     ob_OnsaleTBD = False, ob_EarliestPresale = Some 50, ob_EventDate = Some 500\<rparr>"

definition ex_prior :: Prior where
  "ex_prior = \<lparr>pr_KnewPublicStart = True, pr_LastEvaluation = False, pr_WatchCreatedAt = 60\<rparr>"

theorem open_milestones_are_current_witness:
  "res_Kinds (Evaluate ex_open ex_prior) = [KindPublicOpen] \<and>
   opened_since ex_open ex_prior (ob_PublicStart ex_open)"
proof -
  have k: "res_Kinds (Evaluate ex_open ex_prior) = [KindPublicOpen]" by code_simp
  then show ?thesis using open_milestones_are_current [of KindPublicOpen ex_open ex_prior] by simp
qed

end
