(* ===== verification/Unicode.thy ===== *)
theory Unicode
  imports Prelude
begin

text \<open>
  Runes: the decoding and encoding of UTF-8 as \<open>unicode/utf8\<close> does them, the simple lower-case
  mapping of \<open>unicode.ToLower\<close>, and the white space of \<open>unicode.IsSpace\<close>. A Go string is a list of
  bytes, that is a \<open>string\<close> whose characters are its bytes.
\<close>

section \<open>UTF-8\<close>

definition RuneError :: nat where "RuneError = 0xFFFD"

text \<open>The range of the second byte depends on the first; overlong forms, surrogates and runes beyond
  the last are not decoded. What is not decoded is one byte wide and gives \<open>RuneError\<close>.\<close>

definition cont :: "nat \<Rightarrow> bool" where
  "cont b \<longleftrightarrow> 0x80 \<le> b \<and> b \<le> 0xBF"

definition second_ok :: "nat \<Rightarrow> nat \<Rightarrow> bool" where
  "second_ok a b \<longleftrightarrow> (if a = 0xE0 then 0xA0 else if a = 0xF0 then 0x90 else 0x80) \<le> b \<and>
     b \<le> (if a = 0xED then 0x9F else if a = 0xF4 then 0x8F else 0xBF)"

fun DecodeRune :: "nat list \<Rightarrow> nat \<times> nat" where
  "DecodeRune [] = (RuneError, 0)"
| "DecodeRune (a # s) =
     (if a < 0x80 then (a, 1)
      else if 0xC2 \<le> a \<and> a \<le> 0xDF \<and> 1 \<le> length s \<and> cont (s ! 0)
      then ((a - 0xC0) * 64 + (s ! 0 - 0x80), 2)
      else if 0xE0 \<le> a \<and> a \<le> 0xEF \<and> 2 \<le> length s \<and> second_ok a (s ! 0) \<and> cont (s ! 1)
      then ((a - 0xE0) * 4096 + (s ! 0 - 0x80) * 64 + (s ! 1 - 0x80), 3)
      else if 0xF0 \<le> a \<and> a \<le> 0xF4 \<and> 3 \<le> length s \<and> second_ok a (s ! 0) \<and> cont (s ! 1) \<and> cont (s ! 2)
      then ((a - 0xF0) * 262144 + (s ! 0 - 0x80) * 4096 + (s ! 1 - 0x80) * 64 + (s ! 2 - 0x80), 4)
      else (RuneError, 1))"

lemma DecodeRune_width: "s \<noteq> [] \<Longrightarrow> 0 < snd (DecodeRune s)"
  by (cases s) auto

function runes :: "nat list \<Rightarrow> nat list" where
  "runes s = (if s = [] then [] else fst (DecodeRune s) # runes (drop (snd (DecodeRune s)) s))"
  by pat_completeness auto
termination
  by (relation "measure length") (auto simp: DecodeRune_width)

declare runes.simps [simp del]

definition EncodeRune :: "nat \<Rightarrow> nat list" where
  "EncodeRune r =
     (let r = (if r > 0x10FFFF \<or> 0xD800 \<le> r \<and> r \<le> 0xDFFF then RuneError else r)
      in if r < 0x80 then [r]
         else if r < 0x800 then [0xC0 + r div 64, 0x80 + r mod 64]
         else if r < 0x10000 then [0xE0 + r div 4096, 0x80 + r div 64 mod 64, 0x80 + r mod 64]
         else [0xF0 + r div 262144, 0x80 + r div 4096 mod 64, 0x80 + r div 64 mod 64, 0x80 + r mod 64])"

lemma runes_ascii: "list_all (\<lambda>b. b < 0x80) s \<Longrightarrow> runes s = s"
  by (induction s) (subst runes.simps, simp)+

section \<open>Lower case\<close>

text \<open>
  The case ranges of Unicode 15 beyond ASCII: first and last rune, stride, and what is added. A
  range stands for the runes from the first to the last in strides.
\<close>

definition lower_ranges :: "(nat \<times> nat \<times> nat \<times> int) list" where
  "lower_ranges = [
    (192, 214, 1, 32), (216, 222, 1, 32), (256, 302, 2, 1), (304, 304, 1, -199), (306, 310, 2, 1),
    (313, 327, 2, 1), (330, 374, 2, 1), (376, 376, 1, -121), (377, 381, 2, 1), (385, 385, 1, 210),
    (386, 388, 2, 1), (390, 390, 1, 206), (391, 391, 1, 1), (393, 394, 1, 205), (395, 395, 1, 1),
    (398, 398, 1, 79), (399, 399, 1, 202), (400, 400, 1, 203), (401, 401, 1, 1), (403, 403, 1, 205),
    (404, 404, 1, 207), (406, 406, 1, 211), (407, 407, 1, 209), (408, 408, 1, 1), (412, 412, 1, 211),
    (413, 413, 1, 213), (415, 415, 1, 214), (416, 420, 2, 1), (422, 422, 1, 218), (423, 423, 1, 1),
    (425, 425, 1, 218), (428, 428, 1, 1), (430, 430, 1, 218), (431, 431, 1, 1), (433, 434, 1, 217),
    (435, 437, 2, 1), (439, 439, 1, 219), (440, 440, 1, 1), (444, 444, 1, 1), (452, 452, 1, 2),
    (453, 453, 1, 1), (455, 455, 1, 2), (456, 456, 1, 1), (458, 458, 1, 2), (459, 475, 2, 1),
    (478, 494, 2, 1), (497, 497, 1, 2), (498, 500, 2, 1), (502, 502, 1, -97), (503, 503, 1, -56),
    (504, 542, 2, 1), (544, 544, 1, -130), (546, 562, 2, 1), (570, 570, 1, 10795), (571, 571, 1, 1),
    (573, 573, 1, -163), (574, 574, 1, 10792), (577, 577, 1, 1), (579, 579, 1, -195), (580, 580, 1, 69),
    (581, 581, 1, 71), (582, 590, 2, 1), (880, 882, 2, 1), (886, 886, 1, 1), (895, 895, 1, 116),
    (902, 902, 1, 38), (904, 906, 1, 37), (908, 908, 1, 64), (910, 911, 1, 63), (913, 929, 1, 32),
    (931, 939, 1, 32), (975, 975, 1, 8), (984, 1006, 2, 1), (1012, 1012, 1, -60), (1015, 1015, 1, 1),
    (1017, 1017, 1, -7), (1018, 1018, 1, 1), (1021, 1023, 1, -130), (1024, 1039, 1, 80),
    (1040, 1071, 1, 32), (1120, 1152, 2, 1), (1162, 1214, 2, 1), (1216, 1216, 1, 15),
    (1217, 1229, 2, 1), (1232, 1326, 2, 1), (1329, 1366, 1, 48), (4256, 4293, 1, 7264),
    (4295, 4295, 1, 7264), (4301, 4301, 1, 7264), (5024, 5103, 1, 38864), (5104, 5109, 1, 8),
    (7312, 7354, 1, -3008), (7357, 7359, 1, -3008), (7680, 7828, 2, 1), (7838, 7838, 1, -7615),
    (7840, 7934, 2, 1), (7944, 7951, 1, -8), (7960, 7965, 1, -8), (7976, 7983, 1, -8),
    (7992, 7999, 1, -8), (8008, 8013, 1, -8), (8025, 8031, 2, -8), (8040, 8047, 1, -8),
    (8072, 8079, 1, -8), (8088, 8095, 1, -8), (8104, 8111, 1, -8), (8120, 8121, 1, -8),
    (8122, 8123, 1, -74), (8124, 8124, 1, -9), (8136, 8139, 1, -86), (8140, 8140, 1, -9),
    (8152, 8153, 1, -8), (8154, 8155, 1, -100), (8168, 8169, 1, -8), (8170, 8171, 1, -112),
    (8172, 8172, 1, -7), (8184, 8185, 1, -128), (8186, 8187, 1, -126), (8188, 8188, 1, -9),
    (8486, 8486, 1, -7517), (8490, 8490, 1, -8383), (8491, 8491, 1, -8262), (8498, 8498, 1, 28),
    (8544, 8559, 1, 16), (8579, 8579, 1, 1), (9398, 9423, 1, 26), (11264, 11311, 1, 48),
    (11360, 11360, 1, 1), (11362, 11362, 1, -10743), (11363, 11363, 1, -3814),
    (11364, 11364, 1, -10727), (11367, 11371, 2, 1), (11373, 11373, 1, -10780),
    (11374, 11374, 1, -10749), (11375, 11375, 1, -10783), (11376, 11376, 1, -10782),
    (11378, 11378, 1, 1), (11381, 11381, 1, 1), (11390, 11391, 1, -10815), (11392, 11490, 2, 1),
    (11499, 11501, 2, 1), (11506, 11506, 1, 1), (42560, 42604, 2, 1), (42624, 42650, 2, 1),
    (42786, 42798, 2, 1), (42802, 42862, 2, 1), (42873, 42875, 2, 1), (42877, 42877, 1, -35332),
    (42878, 42886, 2, 1), (42891, 42891, 1, 1), (42893, 42893, 1, -42280), (42896, 42898, 2, 1),
    (42902, 42920, 2, 1), (42922, 42922, 1, -42308), (42923, 42923, 1, -42319),
    (42924, 42924, 1, -42315), (42925, 42925, 1, -42305), (42926, 42926, 1, -42308),
    (42928, 42928, 1, -42258), (42929, 42929, 1, -42282), (42930, 42930, 1, -42261),
    (42931, 42931, 1, 928), (42932, 42946, 2, 1), (42948, 42948, 1, -48), (42949, 42949, 1, -42307),
    (42950, 42950, 1, -35384), (42951, 42953, 2, 1), (42960, 42960, 1, 1), (42966, 42968, 2, 1),
    (42997, 42997, 1, 1), (65313, 65338, 1, 32), (66560, 66599, 1, 40), (66736, 66771, 1, 40),
    (66928, 66938, 1, 39), (66940, 66954, 1, 39), (66956, 66962, 1, 39), (66964, 66965, 1, 39),
    (68736, 68786, 1, 64), (71840, 71871, 1, 32), (93760, 93791, 1, 32), (125184, 125217, 1, 34)]"

definition rune_ToLower :: "nat \<Rightarrow> nat" where
  "rune_ToLower r =
     (if r < 0x80 then if 65 \<le> r \<and> r \<le> 90 then r + 32 else r
      else case find (\<lambda>(lo, hi, stride, _). lo \<le> r \<and> r \<le> hi \<and> (r - lo) mod stride = 0) lower_ranges of
             None \<Rightarrow> r
           | Some (_, _, _, d) \<Rightarrow> nat (int r + d))"

text \<open>\<open>strings.ToLower\<close>: byte by byte where the string is ASCII, rune by rune otherwise.\<close>

definition to_lower :: "char \<Rightarrow> char" where
  "to_lower c =
     (let n = (of_char c :: nat) in if 65 \<le> n \<and> n \<le> 90 then char_of (n + 32) else c)"

definition ToLower :: "string \<Rightarrow> string" where
  "ToLower s =
     (if list_all (\<lambda>c. of_char c < (0x80 :: nat)) s then map to_lower s
      else map char_of (concat (map (\<lambda>r. EncodeRune (rune_ToLower r)) (runes (map of_char s)))))"

text \<open>The two ways agree where both apply.\<close>

lemma ToLower_runes:
  "ToLower s = map char_of (concat (map (\<lambda>r. EncodeRune (rune_ToLower r)) (runes (map of_char s))))"
proof (cases "list_all (\<lambda>c. of_char c < (0x80 :: nat)) s")
  case True
  then have "runes (map of_char s) = map of_char s" by (intro runes_ascii) (simp add: list_all_iff)
  moreover have "EncodeRune (rune_ToLower (of_char c)) = [of_char (to_lower c)]" if "c \<in> set s" for c
  proof -
    have c: "of_char c < (0x80 :: nat)" using True that by (simp add: list_all_iff)
    then show ?thesis by (simp add: EncodeRune_def rune_ToLower_def to_lower_def Let_def)
  qed
  ultimately show ?thesis using True by (simp add: ToLower_def concat_map_singleton cong: map_cong)
qed (simp add: ToLower_def)

section \<open>White space\<close>

text \<open>The white space of Unicode, as the bytes of its runes.\<close>

definition white_runes :: "nat list" where
  "white_runes = [9, 10, 11, 12, 13, 32, 0x85, 0xA0, 0x1680, 0x2000, 0x2001, 0x2002, 0x2003, 0x2004, 0x2005,
     0x2006, 0x2007, 0x2008, 0x2009, 0x200A, 0x2028, 0x2029, 0x202F, 0x205F, 0x3000]"

definition whites :: "string list" where
  "whites = map (\<lambda>r. map char_of (EncodeRune r)) white_runes"

lemma whites_bytes [code]:
  "whites = [
    [CHR 0x09], [CHR 0x0A], [CHR 0x0B], [CHR 0x0C], [CHR 0x0D], [CHR 0x20], [CHR 0xC2, CHR 0x85],
    [CHR 0xC2, CHR 0xA0], [CHR 0xE1, CHR 0x9A, CHR 0x80], [CHR 0xE2, CHR 0x80, CHR 0x80],
    [CHR 0xE2, CHR 0x80, CHR 0x81], [CHR 0xE2, CHR 0x80, CHR 0x82], [CHR 0xE2, CHR 0x80, CHR 0x83],
    [CHR 0xE2, CHR 0x80, CHR 0x84], [CHR 0xE2, CHR 0x80, CHR 0x85], [CHR 0xE2, CHR 0x80, CHR 0x86],
    [CHR 0xE2, CHR 0x80, CHR 0x87], [CHR 0xE2, CHR 0x80, CHR 0x88], [CHR 0xE2, CHR 0x80, CHR 0x89],
    [CHR 0xE2, CHR 0x80, CHR 0x8A], [CHR 0xE2, CHR 0x80, CHR 0xA8], [CHR 0xE2, CHR 0x80, CHR 0xA9],
    [CHR 0xE2, CHR 0x80, CHR 0xAF], [CHR 0xE2, CHR 0x81, CHR 0x9F], [CHR 0xE3, CHR 0x80, CHR 0x80]]"
  by (simp add: whites_def white_runes_def EncodeRune_def char_of_def bit_Suc_0_iff)

text \<open>Taking words of a list off the front, as long as one of them is there.\<close>

fun HasPrefix :: "string \<Rightarrow> string \<Rightarrow> bool" where
  "HasPrefix s [] = True"
| "HasPrefix [] (p # ps) = False"
| "HasPrefix (c # cs) (p # ps) = (c = p \<and> HasPrefix cs ps)"

function trim_words :: "string list \<Rightarrow> string \<Rightarrow> string" where
  "trim_words ws s =
     (case find (\<lambda>p. p \<noteq> [] \<and> HasPrefix s p) ws of
        None \<Rightarrow> s
      | Some p \<Rightarrow> trim_words ws (drop (length p) s))"
  by pat_completeness auto
termination
proof (relation "measure (\<lambda>(ws, s). length s)")
  fix ws :: "string list" and s p :: string
  assume "find (\<lambda>p. p \<noteq> [] \<and> HasPrefix s p) ws = Some p"
  then have "p \<noteq> []" "HasPrefix s p" by (auto simp: find_Some_iff)
  then show "((ws, drop (length p) s), (ws, s)) \<in> measure (\<lambda>(ws, s). length s)"
    by (cases s; cases p) auto
qed simp

declare trim_words.simps [simp del]

text \<open>\<open>strings.TrimSpace\<close>: white space off the front, then off the back.\<close>

definition TrimSpace :: "string \<Rightarrow> string" where
  "TrimSpace s = rev (trim_words (map rev whites) (rev (trim_words whites s)))"

text \<open>What is left begins and ends with no white space.\<close>

lemma trim_words_done: "p \<in> set ws \<Longrightarrow> p \<noteq> [] \<Longrightarrow> \<not> HasPrefix (trim_words ws s) p"
  by (induction ws s rule: trim_words.induct)
    (subst trim_words.simps, auto simp: find_None_iff split: option.split)

end
