(* ===== verification/GoStd.thy ===== *)
theory GoStd
  imports Unicode
begin

text \<open>
  The functions of Go's standard library on strings and numbers that the program calls:
  \<open>strings\<close> (Cut, TrimPrefix, TrimRight, Contains; HasPrefix, TrimSpace and ToLower are in theory Unicode), \<open>strconv\<close>
  (FormatInt, ParseInt, Atoi), \<open>html.EscapeString\<close>, \<open>net/url\<close> escaping and
  \<open>base64.RawURLEncoding\<close> and \<open>hex\<close>. A Go string or byte slice is a list of bytes, that is a
  \<open>string\<close> whose characters are its UTF-8 bytes.
\<close>

section \<open>strings\<close>

definition TrimPrefix :: "string \<Rightarrow> string \<Rightarrow> string" where
  "TrimPrefix s p = (if HasPrefix s p then drop (length p) s else s)"

fun Contains :: "string \<Rightarrow> string \<Rightarrow> bool" where
  "Contains [] p = (p = [])"
| "Contains (c # cs) p = (HasPrefix (c # cs) p \<or> Contains cs p)"

text \<open>\<open>strings.Cut(s, sep)\<close> for a separator of one byte.\<close>

definition Cut :: "string \<Rightarrow> char \<Rightarrow> string \<times> string \<times> bool" where
  "Cut s c =
     (case dropWhile (\<lambda>x. x \<noteq> c) s of
        [] \<Rightarrow> (s, [], False)
      | _ # after \<Rightarrow> (takeWhile (\<lambda>x. x \<noteq> c) s, after, True))"

text \<open>\<open>strings.TrimRight(s, cutset)\<close> for a cutset of one byte.\<close>

definition TrimRight :: "string \<Rightarrow> char \<Rightarrow> string" where
  "TrimRight s c = rev (dropWhile (\<lambda>x. x = c) (rev s))"

lemma HasPrefix_iff: "HasPrefix s p \<longleftrightarrow> (\<exists>t. s = p @ t)"
  by (induction s p rule: HasPrefix.induct) auto

lemma HasPrefix_append [simp]: "HasPrefix (p @ t) p"
  by (auto simp: HasPrefix_iff)

lemma TrimPrefix_append [simp]: "TrimPrefix (p @ t) p = t"
  by (simp add: TrimPrefix_def)

lemma while_split:
  "c \<notin> set a \<Longrightarrow> takeWhile (\<lambda>x. x \<noteq> c) (a @ c # b) = a"
  "c \<notin> set a \<Longrightarrow> dropWhile (\<lambda>x. x \<noteq> c) (a @ c # b) = c # b"
  by (induction a) auto

lemma Cut_append: "c \<notin> set a \<Longrightarrow> Cut (a @ c # b) c = (a, b, True)"
  by (simp add: Cut_def while_split)

lemma Cut_found:
  assumes "Cut s c = (a, b, True)"
  shows "s = a @ c # b \<and> c \<notin> set a"
proof -
  obtain x where d: "dropWhile (\<lambda>x. x \<noteq> c) s = x # b" and t: "takeWhile (\<lambda>x. x \<noteq> c) s = a"
    using assms by (auto simp: Cut_def split: list.splits)
  have "x = c" using hd_dropWhile [of "\<lambda>x. x \<noteq> c" s] d by simp
  moreover have "s = takeWhile (\<lambda>x. x \<noteq> c) s @ dropWhile (\<lambda>x. x \<noteq> c) s" by simp
  moreover have "c \<notin> set (takeWhile (\<lambda>x. x \<noteq> c) s)" by (auto dest: set_takeWhileD)
  ultimately show ?thesis using d t by simp
qed

section \<open>strconv\<close>

definition digit_char :: "nat \<Rightarrow> char" where
  "digit_char d = char_of (48 + d)"

definition is_digit :: "char \<Rightarrow> bool" where
  "is_digit c \<longleftrightarrow> 48 \<le> (of_char c :: nat) \<and> (of_char c :: nat) \<le> 57"

definition digit_val :: "char \<Rightarrow> nat" where
  "digit_val c = of_char c - 48"

fun show_nat :: "nat \<Rightarrow> string" where
  "show_nat n = (if n < 10 then [digit_char n] else show_nat (n div 10) @ [digit_char (n mod 10)])"

declare show_nat.simps [simp del]

definition FormatInt :: "int \<Rightarrow> string" where
  "FormatInt n = (if n < 0 then CHR ''-'' # show_nat (nat (- n)) else show_nat (nat n))"

fun digits_val :: "nat \<Rightarrow> string \<Rightarrow> nat option" where
  "digits_val a [] = Some a"
| "digits_val a (c # cs) = (if is_digit c then digits_val (10 * a + digit_val c) cs else None)"

text \<open>\<open>strconv.ParseInt(s, 10, 64)\<close>, which \<open>strconv.Atoi\<close> equals on a 64-bit machine:
  \<open>None\<close> for a syntax error and for a value out of range.\<close>

definition ParseInt :: "string \<Rightarrow> int option" where
  "ParseInt s =
     (let neg = (case s of c # _ \<Rightarrow> c = CHR ''-'' | [] \<Rightarrow> False);
          body = (case s of c # cs \<Rightarrow> if c = CHR ''+'' \<or> c = CHR ''-'' then cs else s | [] \<Rightarrow> [])
      in if body = [] then None
         else case digits_val 0 body of
           None \<Rightarrow> None
         | Some v \<Rightarrow>
             let n = (if neg then - int v else int v)
             in if min_int64 \<le> n \<and> n \<le> max_int64 then Some n else None)"

definition Atoi :: "string \<Rightarrow> int option" where
  "Atoi s = ParseInt s"

lemma is_digit_digit_char [simp]: "d < 10 \<Longrightarrow> is_digit (digit_char d)"
  by (simp add: is_digit_def digit_char_def)

lemma digit_val_digit_char [simp]: "d < 10 \<Longrightarrow> digit_val (digit_char d) = d"
  by (simp add: digit_val_def digit_char_def)

lemma digits_val_snoc:
  "digits_val a (cs @ [c]) =
     (case digits_val a cs of
        None \<Rightarrow> None
      | Some v \<Rightarrow> if is_digit c then Some (10 * v + digit_val c) else None)"
  by (induction cs arbitrary: a) auto

lemma digits_val_show_nat: "digits_val 0 (show_nat n) = Some n"
proof (induction n rule: show_nat.induct)
  case (1 n)
  show ?case
  proof (cases "n < 10")
    case True
    then show ?thesis by (simp add: show_nat.simps [of n])
  next
    case False
    then show ?thesis using 1 by (simp add: show_nat.simps [of n] digits_val_snoc)
  qed
qed

lemma show_nat_digits: "c \<in> set (show_nat n) \<Longrightarrow> is_digit c"
proof (induction n rule: show_nat.induct)
  case (1 n)
  then show ?case by (cases "n < 10") (auto simp: show_nat.simps [of n])
qed

lemma show_nat_not_Nil [simp]: "show_nat n \<noteq> []"
  by (simp add: show_nat.simps [of n])

lemma not_digit_sign [simp]: "\<not> is_digit CHR ''-''" "\<not> is_digit CHR ''+''" "\<not> is_digit CHR ''.''"
  by (simp_all add: is_digit_def)

lemma show_nat_head:
  obtains c cs where "show_nat n = c # cs" and "c \<noteq> CHR ''-''" and "c \<noteq> CHR ''+''"
proof (cases "show_nat n")
  case Nil
  then show ?thesis by simp
next
  case (Cons c cs)
  then have "is_digit c" using show_nat_digits [of c n] by simp
  with Cons that show ?thesis by (metis not_digit_sign(1,2))
qed

lemma ParseInt_FormatInt:
  assumes "min_int64 \<le> n" and "n \<le> max_int64"
  shows "ParseInt (FormatInt n) = Some n"
proof (cases "n < 0")
  case True
  then show ?thesis
    using assms by (simp add: ParseInt_def FormatInt_def Let_def digits_val_show_nat)
next
  case False
  obtain c cs where s: "show_nat (nat n) = c # cs" "c \<noteq> CHR ''-''" "c \<noteq> CHR ''+''"
    by (rule show_nat_head)
  have "digits_val 0 (c # cs) = Some (nat n)"
    using digits_val_show_nat [of "nat n"] s(1) by simp
  then show ?thesis
    using assms False s by (simp add: ParseInt_def FormatInt_def Let_def del: digits_val.simps)
qed

lemma ParseInt_range: "ParseInt s = Some n \<Longrightarrow> min_int64 \<le> n \<and> n \<le> max_int64"
  by (auto simp: ParseInt_def Let_def split: option.splits if_splits)

lemma FormatInt_no_dot: "CHR ''.'' \<notin> set (FormatInt n)"
  using show_nat_digits [of "CHR ''.''"] by (auto simp: FormatInt_def)

section \<open>html.EscapeString\<close>

fun escape_char :: "char \<Rightarrow> string" where
  "escape_char c =
     (if c = CHR ''&'' then ''&amp;''
      else if c = CHR 0x27 then ''&#39;''
      else if c = CHR ''<'' then ''&lt;''
      else if c = CHR ''>'' then ''&gt;''
      else if c = CHR 0x22 then ''&#34;''
      else [c])"

definition EscapeString :: "string \<Rightarrow> string" where
  "EscapeString s = concat (map escape_char s)"

lemma EscapeString_safe:
  "CHR ''<'' \<notin> set (EscapeString s)" "CHR ''>'' \<notin> set (EscapeString s)"
  "CHR 0x22 \<notin> set (EscapeString s)" "CHR 0x27 \<notin> set (EscapeString s)"
  by (auto simp: EscapeString_def split: if_splits)

section \<open>encoding/hex, encoding/base64 (RawURLEncoding)\<close>

definition hex_digit :: "nat \<Rightarrow> char" where
  "hex_digit d = (if d < 10 then char_of (48 + d) else char_of (87 + d))"

definition hex_EncodeToString :: "string \<Rightarrow> string" where
  "hex_EncodeToString bs =
     concat (map (\<lambda>b. [hex_digit (of_char b div 16), hex_digit (of_char b mod 16)]) bs)"

definition b64_char :: "nat \<Rightarrow> char" where
  "b64_char d =
     (if d < 26 then char_of (65 + d) else if d < 52 then char_of (71 + d)
      else if d < 62 then char_of (d - 4) else if d = 62 then CHR ''-'' else CHR ''_'')"

fun RawURL_EncodeToString :: "string \<Rightarrow> string" where
  "RawURL_EncodeToString [] = []"
| "RawURL_EncodeToString [a] =
     (let n = of_char a * 16 in [b64_char (n div 64), b64_char (n mod 64)])"
| "RawURL_EncodeToString [a, b] =
     (let n = (of_char a * 256 + of_char b) * 4
      in [b64_char (n div 4096), b64_char (n div 64 mod 64), b64_char (n mod 64)])"
| "RawURL_EncodeToString (a # b # c # cs) =
     (let n = (of_char a * 256 + of_char b) * 256 + of_char c
      in b64_char (n div 262144) # b64_char (n div 4096 mod 64) # b64_char (n div 64 mod 64)
         # b64_char (n mod 64) # RawURL_EncodeToString cs)"

definition b64_alphabet :: string where
  "b64_alphabet = map b64_char [0..<64]"

lemma b64_alphabet_eq:
  "b64_alphabet = ''ABCDEFGHIJKLMNOPQRSTUVWXYZabcdefghijklmnopqrstuvwxyz0123456789-_''"
  by code_simp

section \<open>net/url\<close>

text \<open>Unreserved characters are kept; everything else becomes \<open>%XX\<close>. \<open>QueryEscape\<close> writes a
  space as a plus sign; \<open>PathEscape\<close> also keeps the characters a path segment may hold.\<close>

definition unreserved :: "char \<Rightarrow> bool" where
  "unreserved c \<longleftrightarrow>
     (let n = (of_char c :: nat)
      in (48 \<le> n \<and> n \<le> 57) \<or> (65 \<le> n \<and> n \<le> 90) \<or> (97 \<le> n \<and> n \<le> 122)
         \<or> c \<in> set ''-_.~'')"

definition upper_hex :: "nat \<Rightarrow> char" where
  "upper_hex d = (if d < 10 then char_of (48 + d) else char_of (55 + d))"

definition percent :: "char \<Rightarrow> string" where
  "percent c = [CHR ''%'', upper_hex (of_char c div 16), upper_hex (of_char c mod 16)]"

definition QueryEscape :: "string \<Rightarrow> string" where
  "QueryEscape s =
     concat (map (\<lambda>c. if unreserved c then [c] else if c = CHR '' '' then ''+'' else percent c) s)"

definition PathEscape :: "string \<Rightarrow> string" where
  "PathEscape s =
     concat (map (\<lambda>c. if unreserved c \<or> c \<in> set ''$&+:=@'' then [c] else percent c) s)"

lemma QueryEscape_unreserved: "(\<forall>c\<in>set s. unreserved c) \<Longrightarrow> QueryEscape s = s"
  by (induction s) (simp_all add: QueryEscape_def)

end
