(* ===== verification/GoTime.thy ===== *)
theory GoTime
  imports GoStd "HOL-Library.Monad_Syntax"
begin

text \<open>
  The part of Go's \<open>time\<close> package the program computes with: the proleptic Gregorian calendar
  behind \<open>Time.Date\<close> and \<open>time.Date\<close>, \<open>time.Parse(time.RFC3339, v)\<close>, the one \<open>Format\<close> layout
  the mails use, and \<open>Time.Sub\<close>. A location is its offset from UTC in nanoseconds (\<open>off\<close>),
  the same all year round; the server runs in UTC.
\<close>

section \<open>The calendar\<close>

text \<open>
  Day 0 is 1 January of year 1. \<open>days_of_civil\<close> numbers the days, \<open>civil_of_days\<close> is its
  inverse; both are total and agree on every valid date.
\<close>

definition Day :: duration where "Day = 24 * Hour"

definition is_leap :: "int \<Rightarrow> bool" where
  "is_leap y \<longleftrightarrow> y mod 4 = 0 \<and> (y mod 100 \<noteq> 0 \<or> y mod 400 = 0)"

definition days_in :: "int \<Rightarrow> int \<Rightarrow> int" where
  "days_in m y =
     (if m = 2 then (if is_leap y then 29 else 28)
      else if m = 4 \<or> m = 6 \<or> m = 9 \<or> m = 11 then 30 else 31)"

definition days_before_year :: "int \<Rightarrow> int" where
  "days_before_year y = 365 * (y - 1) + (y - 1) div 4 - (y - 1) div 100 + (y - 1) div 400"

definition days_before_month :: "int \<Rightarrow> int \<Rightarrow> int" where
  "days_before_month y m =
     (if m = 1 then 0 else if m = 2 then 31
      else (if is_leap y then 1 else 0) +
        (if m = 3 then 59 else if m = 4 then 90 else if m = 5 then 120 else if m = 6 then 151
         else if m = 7 then 181 else if m = 8 then 212 else if m = 9 then 243
         else if m = 10 then 273 else if m = 11 then 304 else 334))"

definition days_of_civil :: "int \<Rightarrow> int \<Rightarrow> int \<Rightarrow> int" where
  "days_of_civil y m d = days_before_year y + days_before_month y m + d - 1"

definition year_of_days :: "int \<Rightarrow> int" where
  "year_of_days n =
     (let y = (400 * n) div 146097 + 1
      in if n < days_before_year y then y - 1
         else if days_before_year (y + 1) \<le> n then y + 1 else y)"

definition month_of_yday :: "int \<Rightarrow> int \<Rightarrow> int" where
  "month_of_yday y k =
     (let f = (if is_leap y then 1 else 0)
      in if k < 31 then 1 else if k < 59 + f then 2 else if k < 90 + f then 3
         else if k < 120 + f then 4 else if k < 151 + f then 5 else if k < 181 + f then 6
         else if k < 212 + f then 7 else if k < 243 + f then 8 else if k < 273 + f then 9
         else if k < 304 + f then 10 else if k < 334 + f then 11 else 12)"

definition civil_of_days :: "int \<Rightarrow> int \<times> int \<times> int" where
  "civil_of_days n =
     (let y = year_of_days n; k = n - days_before_year y; m = month_of_yday y k
      in (y, m, k - days_before_month y m + 1))"

lemma days_before_year_scaled:
  "400 * days_before_year y =
     146097 * (y - 1) - 100 * ((y - 1) mod 4) + 4 * ((y - 1) mod 100) - (y - 1) mod 400"
proof -
  define a q4 q100 q400 r4 r100 r400
    where "a = y - 1" and "q4 = a div 4" and "q100 = a div 100" and "q400 = a div 400"
      and "r4 = a mod 4" and "r100 = a mod 100" and "r400 = a mod 400"
  then have "a = q4 * 4 + r4" "a = q100 * 100 + r100" "a = q400 * 400 + r400"
    by (simp_all only: div_mult_mod_eq)
  then have "400 * (365 * a + q4 - q100 + q400) = 146097 * a - 100 * r4 + 4 * r100 - r400"
    by (simp add: algebra_simps)
  then show ?thesis
    by (simp only: days_before_year_def a_def q4_def q100_def q400_def r4_def r100_def r400_def)
qed

lemma days_before_year_bounds:
  "146097 * (y - 1) - 699 \<le> 400 * days_before_year y"
  "400 * days_before_year y \<le> 146097 * (y - 1) + 396"
proof -
  have "0 \<le> (y - 1) mod 4" "(y - 1) mod 4 < 4" "0 \<le> (y - 1) mod 100" "(y - 1) mod 100 < 100"
    "0 \<le> (y - 1) mod 400" "(y - 1) mod 400 < 400" by simp_all
  with days_before_year_scaled [of y]
  show "146097 * (y - 1) - 699 \<le> 400 * days_before_year y"
    and "400 * days_before_year y \<le> 146097 * (y - 1) + 396" by linarith+
qed

lemma div_prev: 
  fixes k y :: int
  assumes "0 < k" shows "y div k = (y - 1) div k + (if y mod k = 0 then 1 else 0)"
proof -
  define q r where "q = y div k" and "r = y mod k"
  then have y: "y = k * q + r" and r: "0 \<le> r" "r < k"
    using assms by simp_all
  show ?thesis
  proof (cases "r = 0")
    case True
    have "(y - 1) div k = q - 1"
      by (rule int_div_pos_eq [of _ _ _ "k - 1"]) (use y True assms in \<open>simp_all add: algebra_simps\<close>)
    then show ?thesis using True by (simp add: q_def [symmetric] r_def [symmetric])
  next
    case False
    have "(y - 1) div k = q"
      by (rule int_div_pos_eq [of _ _ _ "r - 1"]) (use y r False in simp_all)
    then show ?thesis using False by (simp add: q_def [symmetric] r_def [symmetric])
  qed
qed

lemma days_before_year_Suc:
  "days_before_year (y + 1) = days_before_year y + (if is_leap y then 366 else 365)"
proof -
  have "days_before_year (y + 1) = days_before_year y + 365 + (if y mod 4 = 0 then 1 else 0)
      - (if y mod 100 = 0 then 1 else 0) + (if y mod 400 = 0 then 1 else 0)"
  proof -
    define p4 p100 p400 q4 q100 q400 :: int
      where "p4 = y div 4" and "p100 = y div 100" and "p400 = y div 400"
        and "q4 = (y - 1) div 4" and "q100 = (y - 1) div 100" and "q400 = (y - 1) div 400"
    have "p4 = q4 + (if y mod 4 = 0 then 1 else 0)" "p100 = q100 + (if y mod 100 = 0 then 1 else 0)"
      "p400 = q400 + (if y mod 400 = 0 then 1 else 0)"
      unfolding p4_def p100_def p400_def q4_def q100_def q400_def by (rule div_prev, simp)+
    then have "365 * y + p4 - p100 + p400 = 365 * (y - 1) + q4 - q100 + q400 + 365
        + (if y mod 4 = 0 then 1 else 0) - (if y mod 100 = 0 then 1 else 0)
        + (if y mod 400 = 0 then 1 else 0)" by (simp only: algebra_simps) 
    then show ?thesis
      by (simp only: days_before_year_def add_diff_cancel_right' p4_def p100_def p400_def q4_def q100_def q400_def)
  qed
  moreover have "y mod 100 = 0" if "y mod 400 = 0"
  proof -
    have "y mod 400 mod 100 = y mod 100" by (rule mod_mod_cancel) simp
    with that show ?thesis by (simp only: mod_0)
  qed
  moreover have "y mod 4 = 0" if "y mod 100 = 0"
  proof -
    have "y mod 100 mod 4 = y mod 4" by (rule mod_mod_cancel) simp
    with that show ?thesis by (simp only: mod_0)
  qed
  ultimately show ?thesis
    unfolding is_leap_def
    by (cases "y mod 4 = 0"; cases "y mod 100 = 0"; cases "y mod 400 = 0"; simp only: if_True if_False simp_thms; simp)
qed

lemma days_before_year_mono: "y \<le> z \<Longrightarrow> days_before_year y \<le> days_before_year z"
proof (induction z rule: int_ge_induct)
  case base
  show ?case by simp
next
  case (step i)
  then show ?case using days_before_year_Suc [of i] by (simp split: if_splits)
qed

lemma div_bounds:
  fixes a k :: int
  assumes "0 < k"
  shows "k * (a div k) \<le> a" and "a < k * (a div k) + k"
proof -
  have "a = k * (a div k) + a mod k" by simp
  then show "k * (a div k) \<le> a" and "a < k * (a div k) + k"
    using pos_mod_bound [OF assms, of a] pos_mod_sign [OF assms, of a] by linarith+
qed

lemma year_of_days_eqI:
  assumes "days_before_year y \<le> n" and "n < days_before_year (y + 1)"
  shows "year_of_days n = y"
proof -
  define q where "q = 400 * n div 146097"
  then have q: "146097 * q \<le> 400 * n" "400 * n < 146097 * q + 146097"
    using div_bounds [of 146097 "400 * n"] by simp_all
  have "146097 * (y - 1) - 699 \<le> 400 * n"
    using days_before_year_bounds(1) [of y] assms(1) by simp
  with q have lo: "y - 2 \<le> q" by (simp add: algebra_simps)
  have "400 * n \<le> 146097 * y + 396"
    using days_before_year_bounds(2) [of "y + 1"] assms(2) by simp
  with q have hi: "q \<le> y" by (simp add: algebra_simps)
  from lo hi have "q = y - 2 \<or> q = y - 1 \<or> q = y" by linarith
  moreover have "days_before_year (y - 1) \<le> n"
    using days_before_year_mono [of "y - 1" y] assms(1) by linarith
  ultimately show ?thesis
    using assms by (auto simp: year_of_days_def Let_def q_def [symmetric] add.commute [of 1 y])
qed

lemma month_cases:
  assumes "1 \<le> m" "m \<le> (12::int)"
  shows "m = 1 \<or> m = 2 \<or> m = 3 \<or> m = 4 \<or> m = 5 \<or> m = 6 \<or> m = 7 \<or> m = 8 \<or> m = 9 \<or>
    m = 10 \<or> m = 11 \<or> m = 12"
  using assms by presburger

lemma yday_bounds:
  assumes "1 \<le> m" "m \<le> 12" "1 \<le> d" "d \<le> days_in m y"
  shows "0 \<le> days_before_month y m + d - 1 \<and>
    days_before_month y m + d - 1 < (if is_leap y then 366 else 365)"
  using month_cases [OF assms(1,2)] assms(3,4)
  by (elim disjE; cases "is_leap y"; simp add: days_before_month_def days_in_def)

lemma month_of_yday_eq:
  assumes "1 \<le> m" "m \<le> 12" "1 \<le> d" "d \<le> days_in m y"
  shows "month_of_yday y (days_before_month y m + d - 1) = m"
  using month_cases [OF assms(1,2)] assms(3,4)
  by (elim disjE; cases "is_leap y"; simp add: month_of_yday_def days_before_month_def days_in_def)

lemma civil_of_days_of_civil:
  assumes "1 \<le> m" "m \<le> 12" "1 \<le> d" "d \<le> days_in m y"
  shows "civil_of_days (days_of_civil y m d) = (y, m, d)"
proof -
  let ?k = "days_before_month y m + d - 1"
  have n: "days_of_civil y m d = days_before_year y + ?k" by (simp add: days_of_civil_def)
  have "year_of_days (days_of_civil y m d) = y"
    using yday_bounds [OF assms] days_before_year_Suc [of y]
    by (intro year_of_days_eqI) (simp_all add: n)
  then show ?thesis
    using month_of_yday_eq [OF assms] by (simp add: civil_of_days_def n Let_def)
qed

lemma days_before_year_year_of_days:
  "days_before_year (year_of_days n) \<le> n \<and> n < days_before_year (year_of_days n + 1)"
proof -
  define q where "q = 400 * n div 146097"
  then have q: "146097 * q \<le> 400 * n" "400 * n < 146097 * q + 146097"
    using div_bounds [of 146097 "400 * n"] by simp_all
  have lo: "days_before_year q \<le> n"
    using days_before_year_bounds(2) [of q] q by (simp add: algebra_simps)
  have hi: "n < days_before_year (q + 3)"
    using days_before_year_bounds(1) [of "q + 3"] q by (simp add: algebra_simps)
  show ?thesis
    using lo hi by (auto simp: year_of_days_def Let_def q_def [symmetric] add.assoc)
qed

lemma month_of_yday_range: "1 \<le> month_of_yday y k" "month_of_yday y k \<le> 12"
  by (simp_all add: month_of_yday_def Let_def)

lemma days_of_civil_of_days:
  "civil_of_days n = (y, m, d) \<Longrightarrow> days_of_civil y m d = n"
  by (auto simp: civil_of_days_def days_of_civil_def Let_def)

lemma civil_of_days_valid:
  assumes "civil_of_days n = (y, m, d)"
  shows "1 \<le> m \<and> m \<le> 12 \<and> 1 \<le> d \<and> d \<le> days_in m y"
proof -
  define k where "k = n - days_before_year y"
  have y: "y = year_of_days n" and m: "m = month_of_yday y k"
    and d: "d = k - days_before_month y m + 1"
    using assms by (auto simp: civil_of_days_def Let_def k_def)
  have "0 \<le> k" "k < (if is_leap y then 366 else 365)"
    using days_before_year_year_of_days [of n] days_before_year_Suc [of y] by (auto simp: k_def y)
  then show ?thesis
    unfolding d m
    by (cases "is_leap y"; simp add: month_of_yday_def days_before_month_def days_in_def)
qed

section \<open>Instants and civil time\<close>

text \<open>\<open>time.Date(y, m, d, ..., loc)\<close> at midnight: days beyond the end of the month roll over,
  since days are counted from the first of the month.\<close>

definition Date_midnight :: "duration \<Rightarrow> int \<Rightarrow> int \<Rightarrow> int \<Rightarrow> time" where
  "Date_midnight off y m d = days_of_civil y m d * Day - off"

text \<open>\<open>t.Date()\<close> in a location.\<close>

definition Time_Date :: "duration \<Rightarrow> time \<Rightarrow> int \<times> int \<times> int" where
  "Time_Date off t = civil_of_days ((t + off) div Day)"

text \<open>\<open>t.Sub(u)\<close> saturates at the ends of the 64-bit duration.\<close>

definition Time_Sub :: "time \<Rightarrow> time \<Rightarrow> duration" where
  "Time_Sub t u = max min_int64 (min max_int64 (t - u))"

section \<open>time.Parse(time.RFC3339, v)\<close>

text \<open>
  The generic parser on the layout \<open>2006-01-02T15:04:05Z07:00\<close>: fixed two-digit fields except
  the hour, which may have one digit; an optional fraction of a second after a period or a
  comma, of which the first nine digits count; \<open>Z\<close> or an offset of at most 24 hours and 60
  minutes; and the day checked against its month at the end. The result is the year in the
  parsed location (what \<open>Year()\<close> returns) and the instant.
\<close>

definition literal :: "char \<Rightarrow> string \<Rightarrow> string option" where
  "literal c v = (case v of x # xs \<Rightarrow> if x = c then Some xs else None | [] \<Rightarrow> None)"

definition getnum :: "bool \<Rightarrow> string \<Rightarrow> (int \<times> string) option" where
  "getnum fixed v =
     (case v of
        [] \<Rightarrow> None
      | a # v1 \<Rightarrow>
          if \<not> is_digit a then None
          else case v1 of
            b # v2 \<Rightarrow>
              if is_digit b then Some (int (digit_val a) * 10 + int (digit_val b), v2)
              else if fixed then None else Some (int (digit_val a), v1)
          | [] \<Rightarrow> if fixed then None else Some (int (digit_val a), v1))"

definition get_year :: "string \<Rightarrow> (int \<times> string) option" where
  "get_year v =
     (if length v < 4 then None
      else do { n \<leftarrow> digits_val 0 (take 4 v); Some (int n, drop 4 v) })"

definition in_range :: "int \<Rightarrow> int \<Rightarrow> int \<times> string \<Rightarrow> (int \<times> string) option" where
  "in_range lo hi r = (if lo \<le> fst r \<and> fst r \<le> hi then Some r else None)"

definition get_fraction :: "string \<Rightarrow> int \<times> string" where
  "get_fraction v =
     (case v of
        p # d # _ \<Rightarrow>
          if (p = CHR ''.'' \<or> p = CHR '','') \<and> is_digit d
          then (let ds = takeWhile is_digit (tl v); ks = take 9 ds
                in (case digits_val 0 ks of
                      Some n \<Rightarrow> int n * 10 ^ (9 - length ks) | None \<Rightarrow> 0,
                    drop (length ds) (tl v)))
          else (0, v)
      | _ \<Rightarrow> (0, v))"

definition get_zone :: "string \<Rightarrow> (int \<times> string) option" where
  "get_zone v =
     (case v of
        [] \<Rightarrow> None
      | c # v1 \<Rightarrow>
          if c = CHR ''Z'' then Some (0, v1)
          else if length v < 6 \<or> v ! 3 \<noteq> CHR '':'' then None
          else do {
            (hr, _) \<leftarrow> getnum True (take 2 v1);
            (mm, _) \<leftarrow> getnum True (take 2 (drop 4 v));
            if hr > 24 \<or> mm > 60 then None
            else if c = CHR ''+'' then Some ((hr * 60 + mm) * 60, drop 6 v)
            else if c = CHR ''-'' then Some (- ((hr * 60 + mm) * 60), drop 6 v)
            else None
          })"

definition Parse_RFC3339 :: "string \<Rightarrow> (int \<times> time) option" where
  "Parse_RFC3339 v = do {
     (y, v) \<leftarrow> get_year v;
     v \<leftarrow> literal CHR ''-'' v;
     (m, v) \<leftarrow> Option.bind (getnum True v) (in_range 1 12);
     v \<leftarrow> literal CHR ''-'' v;
     (d, v) \<leftarrow> getnum True v;
     v \<leftarrow> literal CHR ''T'' v;
     (h, v) \<leftarrow> Option.bind (getnum False v) (in_range 0 23);
     v \<leftarrow> literal CHR '':'' v;
     (mi, v) \<leftarrow> Option.bind (getnum True v) (in_range 0 59);
     v \<leftarrow> literal CHR '':'' v;
     (s, v) \<leftarrow> Option.bind (getnum True v) (in_range 0 59);
     let (ns, v) = get_fraction v in do {
       (z, v) \<leftarrow> get_zone v;
       if v \<noteq> [] \<or> d < 1 \<or> days_in m y < d then None
       else Some (y, days_of_civil y m d * Day + (h * 3600 + mi * 60 + s - z) * Second + ns)
     }
   }"

section \<open>Format\<close>

definition two_digits :: "int \<Rightarrow> string" where
  "two_digits n = (if n < 10 then ''0'' @ FormatInt n else FormatInt n)"

definition four_digits :: "int \<Rightarrow> string" where
  "four_digits n = (let s = FormatInt n in replicate (4 - length s) CHR ''0'' @ s)"

definition weekday_name :: "int \<Rightarrow> string" where
  "weekday_name n =
     [''Mon'', ''Tue'', ''Wed'', ''Thu'', ''Fri'', ''Sat'', ''Sun''] ! nat (n mod 7)"

definition month_name :: "int \<Rightarrow> string" where
  "month_name m =
     [''Jan'', ''Feb'', ''Mar'', ''Apr'', ''May'', ''Jun'', ''Jul'', ''Aug'', ''Sep'', ''Oct'',
      ''Nov'', ''Dec''] ! nat (m - 1)"

text \<open>\<open>t.UTC().Format("Mon 2 Jan 2006 at 15:04 UTC")\<close>.\<close>

definition Format_sale :: "time \<Rightarrow> string" where
  "Format_sale t =
     (let n = t div Day; (y, m, d) = civil_of_days n; r = t mod Day
      in weekday_name n @ '' '' @ FormatInt d @ '' '' @ month_name m @ '' '' @ four_digits y
         @ '' at '' @ two_digits (r div Hour) @ '':'' @ two_digits (r mod Hour div Minute) @ '' UTC'')"

lemma RFC3339_example:
  "Parse_RFC3339 ''2026-09-17T15:00:00Z'' =
     Some (2026, days_of_civil 2026 9 17 * Day + 15 * Hour)"
  by code_simp

lemma Format_sale_example:
  "Format_sale (days_of_civil 2026 9 17 * Day + 15 * Hour) = ''Thu 17 Sep 2026 at 15:00 UTC''"
  by code_simp

lemma Parse_RFC3339_year_bound:
  assumes "Parse_RFC3339 v = Some (y, t)"
  shows "0 \<le> y \<and> y \<le> 9999"
proof -
  have *: "digits_val a ds = Some n \<Longrightarrow> n < (a + 1) * 10 ^ length ds" for a ds n
  proof (induction ds arbitrary: a)
    case (Cons c ds)
    then have "n < (10 * a + digit_val c + 1) * 10 ^ length ds" "digit_val c \<le> 9"
      by (auto simp: is_digit_def digit_val_def split: if_splits)
    then have "10 * a + digit_val c + 1 \<le> (a + 1) * 10" by simp
    then have "(10 * a + digit_val c + 1) * 10 ^ length ds \<le> (a + 1) * 10 * 10 ^ length ds"
      by (rule mult_right_mono) simp
    with \<open>n < _\<close> have "n < (a + 1) * 10 * 10 ^ length ds" by (rule less_le_trans)
    then show ?case by (simp only: mult.assoc list.size power_Suc add.commute [of _ "Suc 0"] plus_1_eq_Suc) simp
  qed simp
  obtain u where "get_year v = Some (y, u)"
    using assms by (auto simp: Parse_RFC3339_def split: bind_splits prod.splits if_splits)
  then obtain n where "digits_val 0 (take 4 v) = Some n" "y = int n" "length (take 4 v) = 4"
    by (auto simp: get_year_def split: if_splits bind_splits)
  with * [of 0 "take 4 v" n] show ?thesis by simp
qed


text \<open>
  Reading back what a UTC timestamp looks like: for every valid civil date and time of the years
  0 to 9999 the parser returns that year and that instant.
\<close>

definition render_utc :: "int \<Rightarrow> int \<Rightarrow> int \<Rightarrow> int \<Rightarrow> int \<Rightarrow> int \<Rightarrow> string" where
  "render_utc y m d h mi s =
     four_digits y @ ''-'' @ two_digits m @ ''-'' @ two_digits d @ ''T'' @ two_digits h @ '':''
     @ two_digits mi @ '':'' @ two_digits s @ ''Z''"

lemma digit_char_zero: "digit_char 0 = CHR ''0''"
  by code_simp

lemma two_digits_shape:
  assumes "0 \<le> n" and "n < 100"
  shows "two_digits n = [digit_char (nat n div 10), digit_char (nat n mod 10)]"
proof (cases "n < 10")
  case True
  then have "nat n < 10" using assms by simp
  then show ?thesis
    using True assms
    by (simp add: two_digits_def FormatInt_def show_nat.simps [of "nat n"] digit_char_zero)
next
  case False
  then have "\<not> nat n < 10" "nat n div 10 < 10" using assms by linarith+
  then show ?thesis
    using False assms
    by (simp add: two_digits_def FormatInt_def show_nat.simps [of "nat n"]
        show_nat.simps [of "nat n div 10"])
qed

lemma getnum_two_digits:
  assumes "0 \<le> n" and "n < 100"
  shows "getnum fixed (two_digits n @ r) = Some (n, r)"
proof -
  have d: "nat n div 10 < 10" "nat n mod 10 < 10" using assms by linarith+
  have "int (nat n div 10) * 10 + int (nat n mod 10) = int (nat n div 10 * 10 + nat n mod 10)"
    by (simp only: of_nat_add of_nat_mult of_nat_numeral)
  also have "\<dots> = n" using assms by (simp only: div_mult_mod_eq int_nat_eq if_True)
  finally have "int (nat n div 10) * 10 + int (nat n mod 10) = n" .
  with d show ?thesis by (simp add: two_digits_shape [OF assms] getnum_def)
qed

lemma digits_val_zeros: "digits_val 0 (replicate k CHR ''0'' @ s) = digits_val 0 s"
  by (induction k) (simp_all add: is_digit_def digit_val_def)

lemma show_nat_bound: "n < 10 ^ k \<Longrightarrow> 0 < k \<Longrightarrow> length (show_nat n) \<le> k"
proof (induction n arbitrary: k rule: show_nat.induct)
  case (1 n)
  show ?case
  proof (cases "n < 10")
    case True
    then show ?thesis using 1 by (simp add: show_nat.simps [of n])
  next
    case False
    then obtain j where k: "k = Suc j" "0 < j"
      using 1(2,3) by (cases k; cases "k - 1") auto
    then have "n div 10 < 10 ^ j" using 1(2) by (simp add: div_less_iff_less_mult mult.commute)
    with 1(1) [OF False] k False show ?thesis by (simp add: show_nat.simps [of n])
  qed
qed

lemma get_year_four_digits:
  assumes "0 \<le> y" and "y \<le> 9999"
  shows "get_year (four_digits y @ r) = Some (y, r)"
proof -
  let ?s = "four_digits y"
  have "length (show_nat (nat y)) \<le> 4" using assms by (intro show_nat_bound) simp_all
  then have "length ?s = 4" using assms by (simp add: four_digits_def Let_def FormatInt_def)
  moreover have "digits_val 0 ?s = Some (nat y)"
    using assms
    by (simp add: four_digits_def Let_def FormatInt_def digits_val_zeros digits_val_show_nat)
  ultimately show ?thesis using assms by (simp add: get_year_def)
qed

lemma Parse_render_utc:
  assumes "0 \<le> y" "y \<le> 9999" "1 \<le> m" "m \<le> 12" "1 \<le> d" "d \<le> days_in m y"
    and "0 \<le> h" "h \<le> 23" "0 \<le> mi" "mi \<le> 59" "0 \<le> s" "s \<le> 59"
  shows "Parse_RFC3339 (render_utc y m d h mi s) =
    Some (y, days_of_civil y m d * Day + (h * 3600 + mi * 60 + s) * Second)"
proof -
  have "d \<le> 31" using assms(6) by (simp add: days_in_def split: if_splits)
  then show ?thesis
    using assms
    by (simp add: Parse_RFC3339_def render_utc_def get_year_four_digits getnum_two_digits
        literal_def in_range_def get_fraction_def get_zone_def)
qed

end
