(* ===== verification/RateLimit.thy ===== *)
theory RateLimit
  imports GoTime Complex_Main
begin

text \<open>
  \<open>internal/ratelimit\<close>: the per-class daily quota (\<open>quota.go\<close>), the outbound limiter that joins
  it to a token bucket (\<open>limiter.go\<close>) and the inbound per-key limiter (\<open>ip.go\<close>). The token bucket
  is \<open>golang.org/x/time/rate\<close>, which is not in the repository: it is a parameter. A mutex makes
  each operation of the quota and of the IP limiter atomic, so concurrent use is a sequence of
  operations; the clock is read once per operation.
\<close>

section \<open>Daily quota (quota.go)\<close>

datatype Class = ClassPoll | ClassSearch

text \<open>\<open>Class\<close> is an integer with two constants; \<open>String\<close> is defined on all of them.\<close>

fun class_code :: "Class \<Rightarrow> int" where
  "class_code ClassPoll = 0"
| "class_code ClassSearch = 1"

definition class_String :: "int \<Rightarrow> string" where
  "class_String c = (if c = class_code ClassPoll then ''poll''
     else if c = class_code ClassSearch then ''search'' else ''unknown'')"

record dailyQuota =
  dq_loc :: duration \<comment> \<open>the offset of the clock's location\<close>
  dq_resetAt :: time
  dq_used :: "Class \<Rightarrow> int"
  dq_budget :: "Class \<Rightarrow> int"

definition nextMidnight :: "duration \<Rightarrow> time \<Rightarrow> time" where
  "nextMidnight loc t = (case Time_Date loc t of (y, m, d) \<Rightarrow> Date_midnight loc y m (d + 1))"

definition NewDailyQuota :: "duration \<Rightarrow> int \<Rightarrow> int \<Rightarrow> time \<Rightarrow> dailyQuota" where
  "NewDailyQuota loc pollBudget searchBudget now =
     \<lparr>dq_loc = loc, dq_resetAt = nextMidnight loc now, dq_used = (\<lambda>_. 0),
      dq_budget = (\<lambda>c. case c of ClassPoll \<Rightarrow> pollBudget | ClassSearch \<Rightarrow> searchBudget)\<rparr>"

definition maybeReset :: "time \<Rightarrow> dailyQuota \<Rightarrow> dailyQuota" where
  "maybeReset now q =
     (if \<not> now < dq_resetAt q
      then q\<lparr>dq_used := (\<lambda>_. 0), dq_resetAt := nextMidnight (dq_loc q) now\<rparr> else q)"

definition Reserve :: "Class \<Rightarrow> time \<Rightarrow> dailyQuota \<Rightarrow> unit result \<times> dailyQuota" where
  "Reserve c now q =
     (let q = maybeReset now q
      in if dq_used q c \<ge> dq_budget q c then (Inl (Sentinel ErrDailyBudgetExhausted), q)
         else (Inr (), q\<lparr>dq_used := (dq_used q)(c := dq_used q c + 1)\<rparr>))"

definition Release :: "Class \<Rightarrow> dailyQuota \<Rightarrow> dailyQuota" where
  "Release c q =
     (if dq_used q c > 0 then q\<lparr>dq_used := (dq_used q)(c := dq_used q c - 1)\<rparr> else q)"

definition Remaining :: "Class \<Rightarrow> time \<Rightarrow> dailyQuota \<Rightarrow> int \<times> dailyQuota" where
  "Remaining c now q =
     (let q = maybeReset now q; r = dq_budget q c - dq_used q c in (if r > 0 then r else 0, q))"

definition Snapshot ::
  "time \<Rightarrow> dailyQuota \<Rightarrow> ((Class \<Rightarrow> int) \<times> (Class \<Rightarrow> int) \<times> time) \<times> dailyQuota" where
  "Snapshot now q =
     (let q = maybeReset now q in ((dq_used q, dq_budget q, dq_resetAt q), q))"

subsection \<open>Midnight\<close>

lemma nextMidnight_eq: "nextMidnight loc t = ((t + loc) div Day + 1) * Day - loc"
proof -
  obtain y m d where ymd: "civil_of_days ((t + loc) div Day) = (y, m, d)"
    by (cases "civil_of_days ((t + loc) div Day)")
  then have "days_of_civil y m d = (t + loc) div Day" by (rule days_of_civil_of_days)
  then have "days_of_civil y m (d + 1) = (t + loc) div Day + 1" by (simp add: days_of_civil_def)
  with ymd show ?thesis by (simp add: nextMidnight_def Time_Date_def Date_midnight_def)
qed

lemma Day_pos: "0 < Day"
  by (simp add: Day_def Hour_def)

lemma nextMidnight_bounds: "t < nextMidnight loc t \<and> nextMidnight loc t \<le> t + Day"
  using div_bounds [OF Day_pos, of "t + loc"] by (simp add: nextMidnight_eq algebra_simps)

lemma nextMidnight_same_day:
  assumes "t \<le> u" and "u < nextMidnight loc t"
  shows "nextMidnight loc u = nextMidnight loc t"
proof -
  let ?k = "(t + loc) div Day"
  have "?k * Day \<le> u + loc" "u + loc < (?k + 1) * Day"
    using div_bounds [OF Day_pos, of "t + loc"] assms by (simp_all add: nextMidnight_eq algebra_simps)
  then have "(u + loc) div Day = ?k"
    using int_div_pos_eq [of "u + loc" Day ?k "u + loc - ?k * Day"] by (simp add: algebra_simps)
  then show ?thesis by (simp add: nextMidnight_eq)
qed

subsection \<open>The quota as a state machine\<close>

text \<open>Any sequence of operations, each at the time it takes the lock.\<close>

datatype quota_op = OpReserve Class | OpRelease Class | OpRemaining Class | OpSnapshot

fun quota_step :: "time \<Rightarrow> quota_op \<Rightarrow> dailyQuota \<Rightarrow> dailyQuota" where
  "quota_step now (OpReserve c) q = snd (Reserve c now q)"
| "quota_step now (OpRelease c) q = Release c q"
| "quota_step now (OpRemaining c) q = snd (Remaining c now q)"
| "quota_step now OpSnapshot q = snd (Snapshot now q)"

fun quota_run :: "(time \<times> quota_op) list \<Rightarrow> dailyQuota \<Rightarrow> dailyQuota" where
  "quota_run [] q = q"
| "quota_run ((now, x) # es) q = quota_run es (quota_step now x q)"

text \<open>The number of reservations of a class a sequence is granted.\<close>

definition grants :: "Class \<Rightarrow> time \<Rightarrow> quota_op \<Rightarrow> dailyQuota \<Rightarrow> int" where
  "grants c now x q = (if x = OpReserve c \<and> fst (Reserve c now q) = Inr () then 1 else 0)"

fun granted :: "Class \<Rightarrow> (time \<times> quota_op) list \<Rightarrow> dailyQuota \<Rightarrow> int" where
  "granted c [] q = 0"
| "granted c ((now, x) # es) q = grants c now x q + granted c es (quota_step now x q)"

definition quota_ok :: "dailyQuota \<Rightarrow> bool" where
  "quota_ok q \<longleftrightarrow> (\<forall>c. 0 \<le> dq_used q c \<and> (0 \<le> dq_budget q c \<longrightarrow> dq_used q c \<le> dq_budget q c)
                      \<and> (dq_budget q c < 0 \<longrightarrow> dq_used q c = 0))"

lemmas quota_defs = Reserve_def Release_def Remaining_def Snapshot_def maybeReset_def Let_def

lemma quota_ok_new: "quota_ok (NewDailyQuota loc p s now)"
  by (simp add: quota_ok_def NewDailyQuota_def)

lemma quota_step_ok: "quota_ok q \<Longrightarrow> quota_ok (quota_step now x q)"
  by (cases x; force simp: quota_defs quota_ok_def)

lemma quota_run_ok: "quota_ok q \<Longrightarrow> quota_ok (quota_run es q)"
  by (induction es q rule: quota_run.induct) (simp_all add: quota_step_ok)

lemma quota_step_budget [simp]: "dq_budget (quota_step now x q) = dq_budget q"
  by (cases x) (simp_all add: quota_defs)

lemma quota_run_budget [simp]: "dq_budget (quota_run es q) = dq_budget q"
  by (induction es q rule: quota_run.induct) simp_all

lemma maybeReset_before [simp]: "now < dq_resetAt q \<Longrightarrow> maybeReset now q = q"
  by (simp add: maybeReset_def)

lemma quota_step_resetAt: "now < dq_resetAt q \<Longrightarrow> dq_resetAt (quota_step now x q) = dq_resetAt q"
  by (cases x) (simp_all add: quota_defs)

definition released :: "Class \<Rightarrow> (time \<times> quota_op) list \<Rightarrow> int" where
  "released c es = int (length (filter (\<lambda>e. snd e = OpRelease c) es))"

text \<open>Within a day the counter is exact: it never lags behind what was granted and not
  given back.\<close>

lemma quota_step_exact:
  "now < dq_resetAt q \<Longrightarrow>
    dq_used q c + grants c now x q \<le> dq_used (quota_step now x q) c + (if x = OpRelease c then 1 else 0)"
  by (cases x) (auto simp: quota_defs grants_def)

lemma granted_within_day:
  assumes "\<forall>e\<in>set es. fst e < dq_resetAt q"
  shows "dq_used q c + granted c es q \<le> dq_used (quota_run es q) c + released c es"
  using assms
proof (induction es q rule: quota_run.induct)
  case (1 q)
  show ?case by (simp add: released_def)
next
  case (2 now x es q)
  have now: "now < dq_resetAt q" using "2.prems" by simp
  have "dq_used (quota_step now x q) c + granted c es (quota_step now x q)
      \<le> dq_used (quota_run es (quota_step now x q)) c + released c es"
    using "2.prems" by (intro "2.IH") (simp add: quota_step_resetAt now)
  with quota_step_exact [OF now, of c x] show ?case
    by (cases "x = OpRelease c") (simp_all add: released_def)
qed

section \<open>Outbound limiter (limiter.go)\<close>

text \<open>
  The operations of the quota and the bucket's \<open>Wait\<close> are on a shared state; \<open>Wait\<close> succeeds or
  fails because the context was cancelled, and other callers may use the quota meanwhile.
\<close>

record 'w Limiter =
  li_Reserve :: "Class \<Rightarrow> ('w, unit result) prog"
  li_Release :: "Class \<Rightarrow> ('w, unit) prog"
  li_Wait :: "('w, unit result) prog"

definition Acquire :: "'w Limiter \<Rightarrow> Class \<Rightarrow> ('w, unit result) prog" where
  "Acquire l c =
     orRet (li_Reserve l c) (\<lambda>_.
     orElse (li_Wait l)
       (\<lambda>err. andThen (li_Release l c) (ret (Inl err)))
       (\<lambda>_. ret (Inr ())))"

section \<open>Inbound limiter per key (ip.go)\<close>

text \<open>The operations of \<open>rate.Limiter\<close> and \<open>rate.Reservation\<close> the code calls.\<close>

record ('l, 'r) rate_lib =
  rl_NewLimiter :: "real \<Rightarrow> int \<Rightarrow> 'l"
  rl_ReserveN :: "'l \<Rightarrow> time \<Rightarrow> 'r \<times> 'l" \<comment> \<open>of one token\<close>
  rl_OK :: "'r \<Rightarrow> bool"
  rl_DelayFrom :: "'r \<Rightarrow> time \<Rightarrow> duration"
  rl_CancelAt :: "'r \<Rightarrow> time \<Rightarrow> 'l \<Rightarrow> 'l"

record 'l ipBucket =
  b_lim :: 'l
  b_lastSeen :: time

record 'l ipLimiter =
  ip_buckets :: "(string \<times> 'l ipBucket) list"
  ip_limit :: real
  ip_burst :: int
  ip_ttl :: duration
  ip_lastSweep :: time

definition NewIPLimiter :: "real \<Rightarrow> int \<Rightarrow> 'l ipLimiter" where
  "NewIPLimiter perMinute burst =
     \<lparr>ip_buckets = [], ip_limit = perMinute / 60, ip_burst = (if burst < 1 then 1 else burst),
      ip_ttl = 10 * Minute, ip_lastSweep = 0\<rparr>"

definition sweepLocked :: "time \<Rightarrow> 'l ipLimiter \<Rightarrow> 'l ipLimiter" where
  "sweepLocked now l =
     (if Time_Sub now (ip_lastSweep l) < ip_ttl l then l
      else l\<lparr>ip_lastSweep := now,
             ip_buckets := filter (\<lambda>(k, b). \<not> Time_Sub now (b_lastSeen b) > ip_ttl l) (ip_buckets l)\<rparr>)"

fun put_bucket :: "string \<Rightarrow> 'v \<Rightarrow> (string \<times> 'v) list \<Rightarrow> (string \<times> 'v) list" where
  "put_bucket k v [] = [(k, v)]"
| "put_bucket k v ((k', v') # m) = (if k' = k then (k, v) # m else (k', v') # put_bucket k v m)"

definition Allow ::
  "('l, 'r) rate_lib \<Rightarrow> string \<Rightarrow> time \<Rightarrow> 'l ipLimiter \<Rightarrow> (bool \<times> duration) \<times> 'l ipLimiter" where
  "Allow lib key now l =
     (let l = sweepLocked now l;
          lim = (case map_of (ip_buckets l) key of
                   None \<Rightarrow> rl_NewLimiter lib (ip_limit l) (ip_burst l)
                 | Some b \<Rightarrow> b_lim b);
          store = (\<lambda>lim. l\<lparr>ip_buckets :=
                     put_bucket key \<lparr>b_lim = lim, b_lastSeen = now\<rparr> (ip_buckets l)\<rparr>);
          (res, lim) = rl_ReserveN lib lim now
      in if \<not> rl_OK lib res then ((False, Second), store lim)
         else let d = rl_DelayFrom lib res now
              in if d > 0 then ((False, d), store (rl_CancelAt lib res now lim))
                 else ((True, 0), store lim))"

definition Len :: "'l ipLimiter \<Rightarrow> nat" where
  "Len l = length (ip_buckets l)"

subsection \<open>The map of buckets\<close>

lemma map_of_put [simp]: "map_of (put_bucket k v m) = (map_of m)(k \<mapsto> v)"
  by (induction k v m rule: put_bucket.induct) (auto simp: fun_eq_iff)

lemma keys_put: "fst ` set (put_bucket k v m) = insert k (fst ` set m)"
  by (induction k v m rule: put_bucket.induct) auto

lemma distinct_put: "distinct (map fst m) \<Longrightarrow> distinct (map fst (put_bucket k v m))"
  by (induction k v m rule: put_bucket.induct) (auto simp: keys_put)

lemma values_put: "x \<in> set (put_bucket k v m) \<Longrightarrow> x = (k, v) \<or> x \<in> set m"
  by (induction k v m rule: put_bucket.induct) (auto split: if_splits)

text \<open>
  The map's well-formedness at time \<open>now\<close>: keys are distinct, no bucket is from the future, and
  none had been idle longer than the time to live when the last sweep ran.
\<close>

definition limiter_ok :: "time \<Rightarrow> 'l ipLimiter \<Rightarrow> bool" where
  "limiter_ok now l \<longleftrightarrow>
     distinct (map fst (ip_buckets l)) \<and> ip_lastSweep l \<le> now \<and> 0 \<le> ip_lastSweep l \<and>
     0 < ip_ttl l \<and> ip_ttl l < max_int64 \<and> 1 \<le> ip_burst l \<and>
     (\<forall>(k, b)\<in>set (ip_buckets l).
        b_lastSeen b \<le> now \<and> ip_lastSweep l - ip_ttl l \<le> b_lastSeen b)"

lemma Time_Sub_gt: "d < max_int64 \<Longrightarrow> min_int64 \<le> d \<Longrightarrow> d < Time_Sub t u \<longleftrightarrow> d < t - u"
  by (auto simp: Time_Sub_def max_def min_def)

lemma Time_Sub_lt: "d \<le> max_int64 \<Longrightarrow> min_int64 < d \<Longrightarrow> Time_Sub t u < d \<longleftrightarrow> t - u < d"
  by (auto simp: Time_Sub_def max_def min_def)

lemma sweepLocked_ok:
  assumes "limiter_ok t l" and "t \<le> now" and "0 \<le> now"
  shows "limiter_ok now (sweepLocked now l) \<and> now - ip_ttl l < ip_lastSweep (sweepLocked now l) \<and>
    ip_ttl (sweepLocked now l) = ip_ttl l"
proof -
  have ttl: "0 < ip_ttl l" "ip_ttl l < max_int64" using assms(1) by (auto simp: limiter_ok_def)
  have "min_int64 < ip_ttl l" using ttl by (simp add: min_int64_def)
  with ttl show ?thesis
    using assms
    by (auto simp: limiter_ok_def sweepLocked_def Time_Sub_gt Time_Sub_lt distinct_map_filter
        split: if_splits)
qed

lemma Allow_state:
  "\<exists>lim. snd (Allow lib key now l) = (sweepLocked now l)\<lparr>ip_buckets :=
     put_bucket key \<lparr>b_lim = lim, b_lastSeen = now\<rparr> (ip_buckets (sweepLocked now l))\<rparr>"
  unfolding Allow_def Let_def by (auto split: prod.split)

lemma Allow_result:
  "fst (Allow lib key now l) = (True, 0) \<or> (\<exists>d>0. fst (Allow lib key now l) = (False, d))"
proof -
  have "0 < Second" by (simp add: Second_def)
  then show ?thesis by (auto simp: Allow_def Let_def split: prod.split)
qed

lemma Allow_ok:
  assumes "limiter_ok t l" and "t \<le> now" and "0 \<le> now"
  shows "limiter_ok now (snd (Allow lib key now l))"
proof -
  obtain lim where s: "snd (Allow lib key now l) = (sweepLocked now l)\<lparr>ip_buckets :=
       put_bucket key \<lparr>b_lim = lim, b_lastSeen = now\<rparr> (ip_buckets (sweepLocked now l))\<rparr>"
    using Allow_state [of lib key now l] by blast
  show ?thesis
    using sweepLocked_ok [OF assms]
    by (auto simp: s limiter_ok_def distinct_put dest!: values_put)
qed

text \<open>Requests from many keys, in the order they take the lock.\<close>

fun allow_run :: "('l, 'r) rate_lib \<Rightarrow> (time \<times> string) list \<Rightarrow> 'l ipLimiter \<Rightarrow> 'l ipLimiter" where
  "allow_run lib [] l = l"
| "allow_run lib ((now, k) # es) l = allow_run lib es (snd (Allow lib k now l))"

lemma limiter_ok_new: "0 \<le> t \<Longrightarrow> limiter_ok t (NewIPLimiter perMinute burst)"
  by (simp add: limiter_ok_def NewIPLimiter_def Minute_def max_int64_def)

lemma Allow_ttl [simp]: "ip_ttl (snd (Allow lib k now l)) = ip_ttl l"
  using Allow_state [of lib k now l] by (auto simp: sweepLocked_def)

lemma allow_run_ok:
  assumes "limiter_ok t l" and "sorted (t # map fst es)" and "0 \<le> t"
  shows "limiter_ok (last (t # map fst es)) (allow_run lib es l) \<and> ip_ttl (allow_run lib es l) = ip_ttl l"
  using assms
proof (induction es arbitrary: t l)
  case (Cons e es)
  obtain now k where e: "e = (now, k)" by (cases e)
  have "limiter_ok now (snd (Allow lib k now l))"
    using Cons.prems e by (intro Allow_ok) auto
  then show ?case using Cons.IH [of now "snd (Allow lib k now l)"] Cons.prems e by simp
qed simp

lemma allow_run_snoc: "allow_run lib (es @ [(now, k)]) l = snd (Allow lib k now (allow_run lib es l))"
  by (induction es arbitrary: l) auto

section \<open>Properties\<close>

text \<open>From any time until the next midnight, and whatever callers reserve, release and query in
  whatever order, the calls granted to a class never exceed its budget by more than the
  reservations given back.\<close>
lemma quota_budget_within_day:
  assumes "\<forall>e\<in>set es. fst e < nextMidnight loc now"
  shows "granted c es (NewDailyQuota loc p s now)
    \<le> max 0 (dq_budget (NewDailyQuota loc p s now) c) + released c es"
proof -
  let ?q = "NewDailyQuota loc p s now"
  have "quota_ok (quota_run es ?q)" by (intro quota_run_ok quota_ok_new)
  then have "dq_used (quota_run es ?q) c \<le> max 0 (dq_budget ?q c)"
    by (cases "dq_budget ?q c < 0") (auto simp: quota_ok_def)
  moreover have "dq_used ?q c = 0" by (simp add: NewDailyQuota_def)
  ultimately show ?thesis
    using granted_within_day [of es ?q c] assms by (simp add: NewDailyQuota_def)
qed

text \<open>At every moment, across any number of midnights, the counter of each class lies between
  zero and its budget, and the budgets never change.\<close>
lemma quota_counter_bounded:
  "let q = quota_run es (NewDailyQuota loc p s now)
   in 0 \<le> dq_used q c \<and> dq_used q c \<le> max 0 (dq_budget q c) \<and>
      dq_budget q c = (case c of ClassPoll \<Rightarrow> p | ClassSearch \<Rightarrow> s)"
proof -
  have "quota_ok (quota_run es (NewDailyQuota loc p s now))" by (intro quota_run_ok quota_ok_new)
  then show ?thesis
    by (cases "dq_budget (NewDailyQuota loc p s now) c < 0")
      (auto simp: quota_ok_def Let_def NewDailyQuota_def)
qed

text \<open>What \<open>Remaining\<close> reports is what \<open>Reserve\<close> will grant: a reservation at that time succeeds
  exactly when it is positive, then lowers it by one, and leaves the other class alone.\<close>
lemma Remaining_predicts_Reserve:
  "(fst (Reserve c now q) = Inr () \<longleftrightarrow> 0 < fst (Remaining c now q)) \<and>
   fst (Remaining c now (snd (Reserve c now q))) = max 0 (fst (Remaining c now q) - 1) \<and>
   fst (Remaining (if c = ClassPoll then ClassSearch else ClassPoll) now (snd (Reserve c now q))) =
   fst (Remaining (if c = ClassPoll then ClassSearch else ClassPoll) now q)"
proof -
  have idem: "maybeReset now (maybeReset now q) = maybeReset now q"
    using nextMidnight_bounds [of now "dq_loc q"] by (simp add: maybeReset_def)
  have upd: "maybeReset now (q'\<lparr>dq_used := f\<rparr>) = q'\<lparr>dq_used := f\<rparr>"
    if "maybeReset now q' = q'" for q' and f :: "Class \<Rightarrow> int"
    using that nextMidnight_bounds [of now "dq_loc q'"]
    by (simp add: maybeReset_def split: if_splits) (metis dailyQuota.select_convs(2)
        dailyQuota.update_convs(2) dailyQuota.surjective linorder_not_less)
  show ?thesis
    by (cases c) (auto simp: Reserve_def Remaining_def Let_def idem upd)
qed

text \<open>The quota's day ends at a midnight of its location: strictly later, at most a day away,
  and the same for every instant before it.\<close>
lemma nextMidnight_is_next:
  "t < nextMidnight loc t \<and> nextMidnight loc t \<le> t + Day \<and> (nextMidnight loc t + loc) mod Day = 0 \<and>
   (\<forall>u\<in>{t..<nextMidnight loc t}. nextMidnight loc u = nextMidnight loc t)"
proof -
  have "(nextMidnight loc t + loc) mod Day = 0" by (simp add: nextMidnight_eq)
  moreover have "nextMidnight loc u = nextMidnight loc t" if "u \<in> {t..<nextMidnight loc t}" for u
    using that by (intro nextMidnight_same_day) auto
  ultimately show ?thesis using nextMidnight_bounds [of t loc] by blast
qed

text \<open>(C39) However many addresses knock, the inbound limiter tracks an address at most once, never
  from the future, and none that has been silent for twenty minutes.\<close>
theorem ip_limiter_bounded:
  fixes lib :: "('l, 'r) rate_lib"
  assumes "sorted (0 # map fst (es @ [(now, k)]))"
    and "(k', b) \<in> set (ip_buckets (allow_run lib (es @ [(now, k)]) (NewIPLimiter perMinute burst)))"
  shows "now - 20 * Minute < b_lastSeen b \<and> b_lastSeen b \<le> now \<and>
    distinct (map fst (ip_buckets (allow_run lib (es @ [(now, k)]) (NewIPLimiter perMinute burst))))"
proof -
  let ?init = "NewIPLimiter perMinute burst :: 'l ipLimiter"
  let ?l = "allow_run lib es ?init"
  let ?t = "last (0 # map fst es)"
  have s: "sorted (0 # map fst es)" "?t \<le> now" "0 \<le> now"
    using assms(1) last_in_set [of "0 # map fst es"] by (auto simp: sorted_append)
  have "ip_ttl ?init = 10 * Minute" by (simp add: NewIPLimiter_def)
  then have l: "limiter_ok ?t ?l" "ip_ttl ?l = 10 * Minute"
    using allow_run_ok [OF limiter_ok_new [OF order_refl] s(1) order_refl, of lib perMinute burst]
    by metis+
  have ok: "limiter_ok now (snd (Allow lib k now ?l))" using l(1) s by (intro Allow_ok)
  have "ip_lastSweep (snd (Allow lib k now ?l)) = ip_lastSweep (sweepLocked now ?l)"
    using Allow_state [of lib k now ?l] by auto
  then have "now - 10 * Minute < ip_lastSweep (snd (Allow lib k now ?l))"
    using sweepLocked_ok [OF l(1) s(2,3)] l(2) by simp
  then show ?thesis
    using ok assms(2) l(2) unfolding allow_run_snoc limiter_ok_def by fastforce
qed

text \<open>A library whose buckets always have a token, to run the limiter with.\<close>

definition ex_rate_lib :: "(unit, unit) rate_lib" where
  "ex_rate_lib = \<lparr>rl_NewLimiter = (\<lambda>_ _. ()), rl_ReserveN = (\<lambda>l _. ((), l)), rl_OK = (\<lambda>_. True),
     rl_DelayFrom = (\<lambda>_ _. 0), rl_CancelAt = (\<lambda>_ _ l. l)\<rparr>"

theorem ip_limiter_bounded_witness:
  "\<exists>b. (''a'', b) \<in> set (ip_buckets (allow_run ex_rate_lib ([(5, ''b'')] @ [(7, ''a'')])
      (NewIPLimiter 10 5))) \<and> 7 - 20 * Minute < b_lastSeen b \<and> b_lastSeen b \<le> 7"
proof -
  let ?b = "\<lparr>b_lim = (), b_lastSeen = 7\<rparr> :: unit ipBucket"
  have "map_of (ip_buckets (allow_run ex_rate_lib ([(5, ''b'')] @ [(7, ''a'')]) (NewIPLimiter 10 5)))
      ''a'' = Some ?b"
    by (simp add: Allow_def Let_def ex_rate_lib_def)
  then have b: "(''a'', ?b) \<in> set (ip_buckets (allow_run ex_rate_lib ([(5, ''b'')] @ [(7, ''a'')])
      (NewIPLimiter 10 5)))"
    by (rule map_of_SomeD)
  then show ?thesis
    using ip_limiter_bounded [of "[(5, ''b'')]" 7 "''a''", OF _ b] by auto
qed

text \<open>The inbound limiter answers yes with no delay, or no with a delay above zero, and either
  way it has noted that the address was seen.\<close>
lemma Allow_answers:
  "(fst (Allow lib k now l) = (True, 0) \<or> (\<exists>d>0. fst (Allow lib k now l) = (False, d))) \<and>
   (\<exists>lim. map_of (ip_buckets (snd (Allow lib k now l))) k = Some \<lparr>b_lim = lim, b_lastSeen = now\<rparr>)"
  using Allow_result [of lib k now l] Allow_state [of lib k now l] by auto

text \<open>A reservation made before midnight and refunded after it is taken from the new day: with a
  budget of one, two calls are granted in the second day, and none of them is given back.\<close>

lemma refund_across_midnight_overspends:
  "let q1 = quota_run [(0, OpReserve ClassPoll)] (NewDailyQuota 0 1 1 0)
   in granted ClassPoll [(Day, OpReserve ClassPoll), (Day, OpRelease ClassPoll),
                         (Day, OpReserve ClassPoll)] q1 = 2"
  by code_simp

end
