(* ===== verification/StoreOk.thy ===== *)
theory StoreOk
  imports Store
begin

text \<open>
  The integrity of the tables, \<open>db_ok\<close>, and the proof that every query keeps it: primary keys are
  distinct and below their sequence, the UNIQUE columns hold distinct values, every foreign key
  points to a row, and a token's purpose is one the CHECK constraint allows. \<open>db_step\<close> is one
  statement run by any client; \<open>reachable_db\<close> the databases any sequence of them can produce.
\<close>

named_theorems query_keeps

definition keyed :: "('a \<Rightarrow> int) \<Rightarrow> 'a list \<Rightarrow> int \<Rightarrow> bool" where
  "keyed key rows seq \<longleftrightarrow> distinct (map key rows) \<and> (\<forall>r\<in>set rows. key r < seq)"

definition unique_col :: "('a \<Rightarrow> 'b) \<Rightarrow> 'a list \<Rightarrow> bool" where
  "unique_col f rows \<longleftrightarrow> distinct (map f rows)"

definition refers :: "('a \<Rightarrow> int) \<Rightarrow> 'a list \<Rightarrow> ('b \<Rightarrow> int) \<Rightarrow> 'b list \<Rightarrow> bool" where
  "refers f rows key targets \<longleftrightarrow> f ` set rows \<subseteq> key ` set targets"

definition db_ok :: "database \<Rightarrow> bool" where
  "db_ok d \<longleftrightarrow>
     keyed u_ID (users d) (users_id_seq d) \<and>
     keyed e_ID (events d) (events_id_seq d) \<and>
     keyed w_ID (watches d) (watches_id_seq d) \<and>
     keyed s_ID (availability_snapshots d) (snapshots_id_seq d) \<and>
     keyed n_ID (notifications d) (notifications_id_seq d) \<and>
     keyed t_ID (auth_tokens d) (auth_tokens_id_seq d) \<and>
     unique_col u_Email (users d) \<and>
     unique_col e_TmEventID (events d) \<and>
     unique_col t_TokenHash (auth_tokens d) \<and>
     unique_col (\<lambda>a. (a_WatchID a, a_Kind a)) (watch_alerts d) \<and>
     refers w_UserID (watches d) u_ID (users d) \<and>
     refers w_EventID (watches d) e_ID (events d) \<and>
     refers a_WatchID (watch_alerts d) w_ID (watches d) \<and>
     refers n_WatchID (notifications d) w_ID (watches d) \<and>
     refers s_EventID (availability_snapshots d) e_ID (events d) \<and>
     refers t_UserID (auth_tokens d) u_ID (users d) \<and>
     t_Purpose ` set (auth_tokens d) \<subseteq> set valid_purposes"

section \<open>Table operations and the constraints\<close>

text \<open>One lemma per shape of statement: an update that leaves the column alone, an insert of a
  fresh row, a deletion, and a deletion together with the rows that refer to it.\<close>

lemma update_where_map [simp]:
  "(\<And>r. f (g r) = f r) \<Longrightarrow> map f (update_where P g rows) = map f rows"
  by (simp add: update_where_def)

lemma update_where_image [simp]:
  "(\<And>r. f (g r) = f r) \<Longrightarrow> f ` set (update_where P g rows) = f ` set rows"
  using update_where_map [of f g P rows] by (simp del: update_where_map flip: set_map)

lemma keyed_update [simp]:
  assumes "\<And>r. key (g r) = key r"
  shows "keyed key (update_where P g rows) seq = keyed key rows seq"
proof -
  have all: "(\<forall>r\<in>set rs. key r < seq) = (\<forall>k\<in>key ` set rs. k < seq)" for rs by auto
  show ?thesis unfolding keyed_def all using assms by (simp only: update_where_map update_where_image)
qed

lemma unique_col_update [simp]:
  "(\<And>r. f (g r) = f r) \<Longrightarrow> unique_col f (update_where P g rows) = unique_col f rows"
  by (simp add: unique_col_def)

lemma refers_update [simp]:
  "(\<And>r. f (g r) = f r) \<Longrightarrow> refers f (update_where P g rows) key ts = refers f rows key ts"
  by (simp add: refers_def)

lemma refers_update_target [simp]:
  "(\<And>t. key (g t) = key t) \<Longrightarrow> refers f rows key (update_where P g ts) = refers f rows key ts"
  by (simp add: refers_def)

lemma keyed_insert:
  "keyed key rows seq \<Longrightarrow> key r = seq \<Longrightarrow> keyed key (rows @ [r]) (seq + 1)"
  by (fastforce simp: keyed_def)

lemma keyed_seq: "keyed key rows seq \<Longrightarrow> keyed key rows (seq + 1)"
  by (fastforce simp: keyed_def)

lemma unique_col_insert:
  "unique_col f (rows @ [r]) \<longleftrightarrow> unique_col f rows \<and> f r \<notin> f ` set rows"
  by (auto simp: unique_col_def)

lemma refers_insert:
  "refers f (rows @ [r]) key ts \<longleftrightarrow> refers f rows key ts \<and> f r \<in> key ` set ts"
  by (auto simp: refers_def)

lemma refers_grow: "refers f rows key ts \<Longrightarrow> refers f rows key (ts @ us)"
  by (auto simp: refers_def)

lemma keyed_filter: "keyed key rows seq \<Longrightarrow> keyed key (filter P rows) seq"
  by (simp add: keyed_def distinct_map_filter)

lemma unique_col_filter: "unique_col f rows \<Longrightarrow> unique_col f (filter P rows)"
  by (simp add: unique_col_def distinct_map_filter)

lemma refers_filter: "refers f rows key ts \<Longrightarrow> refers f (filter P rows) key ts"
  by (auto simp: refers_def)

lemma refers_cascade:
  assumes "refers f rows key ts"
  shows "refers f (filter (\<lambda>r. f r \<notin> key ` {t \<in> set ts. P t}) rows) key (filter (\<lambda>t. \<not> P t) ts)"
  using assms by (auto simp: refers_def)

lemmas row_simps =
  keyed_insert keyed_seq keyed_filter unique_col_insert unique_col_filter
  refers_insert refers_grow refers_filter

section \<open>Every query keeps the constraints\<close>

lemma db_ok_empty: "db_ok empty_db"
  by (simp add: db_ok_def empty_db_def keyed_def unique_col_def refers_def)

lemma db_ok_migrated: "db_ok (migrated_db now)"
  by (simp add: db_ok_def migrated_db_def empty_db_def keyed_def unique_col_def refers_def)

lemma ClaimWatchAlert_keeps [query_keeps]:
  "db_ok d \<Longrightarrow> db_ok (snd (ClaimWatchAlert w k now d))"
  by (auto simp: ClaimWatchAlert_def db_ok_def row_simps)

lemma CloseWatchesForEvent_keeps [query_keeps]:
  "db_ok d \<Longrightarrow> db_ok (snd (CloseWatchesForEvent e now d))"
  by (simp add: CloseWatchesForEvent_def db_ok_def Let_def)

lemma CreateWatch_keeps [query_keeps]:
  "db_ok d \<Longrightarrow> db_ok (snd (CreateWatch u e c i l now d))"
  by (auto simp: CreateWatch_def db_ok_def Let_def row_simps)

lemma delete_watches_keeps:
  assumes "db_ok d"
  shows "db_ok (delete_watches P d)"
proof -
  have gone: "set (map w_ID (filter P (watches d))) = w_ID ` {w \<in> set (watches d). P w}" by auto
  show ?thesis
    using assms unfolding db_ok_def delete_watches_def Let_def gone
    by (simp add: keyed_filter unique_col_filter refers_filter refers_cascade)
qed

lemma DeleteWatch_keeps [query_keeps]: "db_ok d \<Longrightarrow> db_ok (snd (DeleteWatch w u now d))"
  by (simp add: DeleteWatch_def Let_def delete_watches_keeps)

lemma MarkNotified_keeps [query_keeps]: "db_ok d \<Longrightarrow> db_ok (snd (MarkNotified w now d))"
  by (simp add: MarkNotified_def db_ok_def)

lemma SetLastEvaluation_keeps [query_keeps]:
  "db_ok d \<Longrightarrow> db_ok (snd (SetLastEvaluation w b now d))"
  by (simp add: SetLastEvaluation_def db_ok_def)

lemma UpdateWatch_keeps [query_keeps]: "db_ok d \<Longrightarrow> db_ok (snd (UpdateWatch s w u now d))"
  by (simp add: UpdateWatch_def db_ok_def Let_def)

lemma InsertAvailabilitySnapshot_keeps [query_keeps]:
  "db_ok d \<Longrightarrow> db_ok (snd (InsertAvailabilitySnapshot e s now d))"
  by (auto simp: InsertAvailabilitySnapshot_def db_ok_def Let_def row_simps)

lemma MarkEventDue_keeps [query_keeps]: "db_ok d \<Longrightarrow> db_ok (snd (MarkEventDue e now d))"
  by (simp add: MarkEventDue_def db_ok_def)

lemma UpdateEventLatest_keeps [query_keeps]:
  "db_ok d \<Longrightarrow> db_ok (snd (UpdateEventLatest p now d))"
  by (simp add: UpdateEventLatest_def db_ok_def)

lemma UpsertEventByTMID_keeps [query_keeps]:
  assumes "db_ok d"
  shows "db_ok (snd (UpsertEventByTMID p now d))"
proof (cases "filter (\<lambda>e. e_TmEventID e = q_TmEventID p) (events d)")
  case Nil
  then have "q_TmEventID p \<notin> e_TmEventID ` set (events d)" by (auto simp: filter_empty_conv)
  with Nil assms show ?thesis
    by (auto simp: UpsertEventByTMID_def db_ok_def Let_def row_simps)
next
  case (Cons old rest)
  then show ?thesis
    using assms
    by (auto simp: UpsertEventByTMID_def db_ok_def Let_def upsert_update_def keyed_seq)
qed

lemma CreateUser_keeps [query_keeps]: "db_ok d \<Longrightarrow> db_ok (snd (CreateUser e h now d))"
  by (auto simp: CreateUser_def db_ok_def Let_def row_simps)

lemma DeleteUser_keeps [query_keeps]:
  assumes "db_ok d"
  shows "db_ok (snd (DeleteUser u now d))"
proof -
  let ?d = "delete_watches (\<lambda>w. w_UserID w = u) d"
  have ok: "db_ok ?d" using assms by (rule delete_watches_keeps)
  have frame: "users ?d = users d" "auth_tokens ?d = auth_tokens d"
    by (simp_all add: delete_watches_def Let_def)
  have w: "refers w_UserID (watches ?d) u_ID (filter (\<lambda>v. u_ID v \<noteq> u) (users d))"
    and t: "refers t_UserID (filter (\<lambda>t. t_UserID t \<noteq> u) (auth_tokens d)) u_ID
              (filter (\<lambda>v. u_ID v \<noteq> u) (users d))"
    using assms by (auto simp: db_ok_def refers_def delete_watches_def Let_def)
  show ?thesis
    using ok w t by (auto simp: DeleteUser_def db_ok_def Let_def frame keyed_filter unique_col_filter)
qed

lemma MarkEmailVerified_keeps [query_keeps]: "db_ok d \<Longrightarrow> db_ok (snd (MarkEmailVerified u now d))"
  by (simp add: MarkEmailVerified_def db_ok_def)

lemma SetResubscribed_keeps [query_keeps]: "db_ok d \<Longrightarrow> db_ok (snd (SetResubscribed u now d))"
  by (simp add: SetResubscribed_def db_ok_def)

lemma SetUnsubscribed_keeps [query_keeps]: "db_ok d \<Longrightarrow> db_ok (snd (SetUnsubscribed u now d))"
  by (simp add: SetUnsubscribed_def db_ok_def)

lemma UpdateUserPassword_keeps [query_keeps]:
  "db_ok d \<Longrightarrow> db_ok (snd (UpdateUserPassword u h now d))"
  by (simp add: UpdateUserPassword_def db_ok_def)

lemma CreateAuthToken_keeps [query_keeps]:
  "db_ok d \<Longrightarrow> db_ok (snd (CreateAuthToken u h p x now d))"
  by (auto simp: CreateAuthToken_def db_ok_def Let_def row_simps)

lemma DeleteAuthTokensForUser_keeps [query_keeps]:
  "db_ok d \<Longrightarrow> db_ok (snd (DeleteAuthTokensForUser u p now d))"
  by (auto simp: DeleteAuthTokensForUser_def db_ok_def row_simps)

lemma MarkAuthTokenUsed_keeps [query_keeps]: "db_ok d \<Longrightarrow> db_ok (snd (MarkAuthTokenUsed t now d))"
  by (simp add: MarkAuthTokenUsed_def db_ok_def)

lemma InsertNotification_keeps [query_keeps]:
  "db_ok d \<Longrightarrow> db_ok (snd (InsertNotification w c p now d))"
  by (auto simp: InsertNotification_def db_ok_def Let_def row_simps)

text \<open>The queries that only read leave the tables alone.\<close>

lemma read_only [simp]:
  "snd (CountWatchesForUser u now d) = d"
  "snd (GetWatch w u now d) = d"
  "snd (ListActiveWatchesForEvent e now d) = d"
  "snd (ListFiredAlertKinds w now d) = d"
  "snd (MinPollIntervalForEvent e now d) = d"
  "snd (GetEvent e now d) = d"
  "snd (GetEventByTMID tm now d) = d"
  "snd (ListDueEvents l now d) = d"
  "snd (ListSnapshotsForEvent e now d) = d"
  "snd (ListWatchesWithEvent u now d) = d"
  "snd (GetUserByEmail em now d) = d"
  "snd (GetUserByID u now d) = d"
  "snd (GetValidAuthToken h p now d) = d"
  "snd (ListNotificationsForUser u l now d) = d"
  by (simp_all add: query_defs Let_def)

section \<open>Statements and reachable databases\<close>

inductive db_step :: "database \<Rightarrow> database \<Rightarrow> bool" where
  "db_step d (snd (ClaimWatchAlert w k now d))"
| "db_step d (snd (CloseWatchesForEvent e now d))"
| "db_step d (snd (CreateWatch u e c i l now d))"
| "db_step d (snd (DeleteWatch w u now d))"
| "db_step d (snd (MarkNotified w now d))"
| "db_step d (snd (SetLastEvaluation w b now d))"
| "db_step d (snd (UpdateWatch s w u now d))"
| "db_step d (snd (InsertAvailabilitySnapshot e a now d))"
| "db_step d (snd (MarkEventDue e now d))"
| "db_step d (snd (UpdateEventLatest p now d))"
| "db_step d (snd (UpsertEventByTMID q now d))"
| "db_step d (snd (CreateUser em h now d))"
| "db_step d (snd (DeleteUser u now d))"
| "db_step d (snd (MarkEmailVerified u now d))"
| "db_step d (snd (SetResubscribed u now d))"
| "db_step d (snd (SetUnsubscribed u now d))"
| "db_step d (snd (UpdateUserPassword u h now d))"
| "db_step d (snd (CreateAuthToken u h pu x now d))"
| "db_step d (snd (DeleteAuthTokensForUser u pu now d))"
| "db_step d (snd (MarkAuthTokenUsed t now d))"
| "db_step d (snd (InsertNotification w ch pl now d))"

inductive reachable_db :: "database \<Rightarrow> bool" where
  start: "reachable_db (migrated_db now)"
| step: "reachable_db d \<Longrightarrow> db_step d d' \<Longrightarrow> reachable_db d'"

lemma db_step_keeps: "db_step d d' \<Longrightarrow> db_ok d \<Longrightarrow> db_ok d'"
  by (erule db_step.cases) (simp_all only: query_keeps)

lemma reachable_db_ok: "reachable_db d \<Longrightarrow> db_ok d"
proof (induction rule: reachable_db.induct)
  case (start now)
  show ?case by (rule db_ok_migrated)
next
  case (step d d')
  then show ?case by (blast intro: db_step_keeps)
qed

section \<open>What the constraints give a client\<close>

lemma keyed_inj:
  "keyed key rows seq \<Longrightarrow> r \<in> set rows \<Longrightarrow> r' \<in> set rows \<Longrightarrow> key r = key r' \<Longrightarrow> r = r'"
  by (auto simp: keyed_def distinct_map dest: inj_onD)

lemma filter_key:
  assumes "distinct (map key rows)" and "r \<in> set rows"
  shows "filter (\<lambda>x. key x = key r) rows = [r]"
  using assms
proof (induction rows)
  case (Cons a rows)
  show ?case
  proof (cases "a = r")
    case True
    then have "filter (\<lambda>x. key x = key r) rows = []"
      using Cons.prems by (auto simp: filter_empty_conv rev_image_eqI)
    with True show ?thesis by simp
  next
    case False
    then have "r \<in> set rows" "key a \<noteq> key r" using Cons.prems by (auto simp: rev_image_eqI)
    with Cons show ?thesis by simp
  qed
qed simp

lemma GetEvent_found:
  "db_ok d \<Longrightarrow> e \<in> set (events d) \<Longrightarrow> GetEvent (e_ID e) now d = (Inr e, d)"
  by (simp add: GetEvent_def db_ok_def keyed_def filter_key one_row_def)

lemma GetUserByID_found:
  "db_ok d \<Longrightarrow> u \<in> set (users d) \<Longrightarrow> GetUserByID (u_ID u) now d = (Inr u, d)"
  by (simp add: GetUserByID_def db_ok_def keyed_def filter_key one_row_def)

lemma GetUserByEmail_found:
  "db_ok d \<Longrightarrow> u \<in> set (users d) \<Longrightarrow> GetUserByEmail (u_Email u) now d = (Inr u, d)"
  by (simp add: GetUserByEmail_def db_ok_def unique_col_def filter_key one_row_def)

section \<open>An example database\<close>

text \<open>One verified user watching one event; the witnesses run on it.\<close>

definition ex_event :: event where
  "ex_event = \<lparr>e_ID = 1, e_TmEventID = ''G5'', e_Name = ''Foo & <Bar>'', e_Url = ''https://tm/e'',
     e_Venue = ''Hall'', e_EventDate = NULL_TS, e_LastAvailability = Some ''onsale'',
     e_LastPolledAt = NOW 0, e_NextPollAt = NOW 0, e_CreatedAt = NOW 0, e_PublicOnsaleAt = NULL_TS,
     e_PublicOnsaleEndAt = NULL_TS, e_EarliestPresaleAt = NULL_TS, e_EarliestPresaleName = None,
     e_PresaleCount = 0, e_OnsaleTbd = False\<rparr>"

definition ex_watch :: watch where
  "ex_watch = \<lparr>w_ID = 1, w_UserID = 1, w_EventID = 1, w_ConditionType = ''becomes_available'',
     w_Status = ''active'', w_LastEvaluation = False, w_LastNotifiedAt = NULL_TS,
     w_PollIntervalS = 300, w_CreatedAt = NOW 0\<rparr>"

definition ex_db :: database where
  "ex_db = (migrated_db 0)\<lparr>events := [ex_event], events_id_seq := 2,
     watches := [ex_watch], watches_id_seq := 2\<rparr>"

lemma ex_db_reachable: "reachable_db ex_db"
proof -
  let ?q = "\<lparr>q_TmEventID = ''G5'', q_Name = ''Foo & <Bar>'', q_Url = ''https://tm/e'', q_Venue = ''Hall'',
     q_EventDate = NULL_TS, q_LastAvailability = Some ''onsale'', q_PublicOnsaleAt = NULL_TS,
     q_PublicOnsaleEndAt = NULL_TS, q_EarliestPresaleAt = NULL_TS, q_EarliestPresaleName = None,
     q_PresaleCount = 0, q_OnsaleTbd = False\<rparr>"
  have "reachable_db (snd (CreateWatch 1 1 ''becomes_available'' 300 False 0
      (snd (UpsertEventByTMID ?q 0 (migrated_db 0)))))"
    by (rule reachable_db.step [OF reachable_db.step [OF reachable_db.start db_step.intros(11)]
        db_step.intros(3)])
  moreover have "snd (CreateWatch 1 1 ''becomes_available'' 300 False 0
      (snd (UpsertEventByTMID ?q 0 (migrated_db 0)))) =
    ex_db"
    by (simp add: CreateWatch_def UpsertEventByTMID_def migrated_db_def empty_db_def ex_db_def
        ex_event_def ex_watch_def Let_def)
  ultimately show ?thesis by simp
qed

section \<open>Properties\<close>

text \<open>(C21) From the migrated database, any sequence of the program's statements leaves the tables
  well formed: keys unique and below their sequences, emails, Ticketmaster ids, token hashes and
  claimed milestones unique, and no row pointing to one that is gone.\<close>
theorem statements_keep_integrity:
  assumes "reachable_db d"
  shows "db_ok d"
  using assms by (rule reachable_db_ok)

theorem statements_keep_integrity_witness:
  "db_ok (snd (DeleteUser 1 7 (snd (CreateUser ''a@b'' ''h'' 5 (migrated_db 0)))))"
  by (rule statements_keep_integrity)
    (rule reachable_db.step [OF reachable_db.step [OF reachable_db.start db_step.intros(12)]
        db_step.intros(13)])

end
