(* ===== verification/World.thy ===== *)
theory World
  imports StoreOk RateLimit
begin

text \<open>
  The world the server runs in: the tables, the clock, the random source, the network and the
  console, with what they will answer. \<open>exec\<close> runs one statement through the connection pool
  (\<open>db.Queries\<close>, \<open>db/db.go\<close>): it takes some time, and the connection may refuse the statement or
  lose the answer after the statement has taken effect. The schedules of outcomes are part of the
  initial state, so a theorem about every world is about every such behaviour.
\<close>

section \<open>The state\<close>

text \<open>What happens to one statement: nanoseconds before and after it takes effect, and whether
  it takes effect and is acknowledged, is never run, or is run but not acknowledged.\<close>

datatype outcome = Done nat nat | Refused nat string | Unacked nat nat string

record http_response =
  rp_StatusCode :: int
  rp_Body :: "string result" \<comment> \<open>what \<open>io.ReadAll\<close> of the body gives\<close>
  rp_RetryAfter :: string

text \<open>A request as it goes out: the endpoint, the authorization and the body.\<close>

record http_request =
  rq_Endpoint :: string
  rq_Authorization :: string
  rq_Body :: string

record world =
  tables :: database
  clock :: time
  outcomes :: "outcome list"
  entropy :: "string option list" \<comment> \<open>what the random source gives, or its failure\<close>
  replies :: "(nat \<times> nat \<times> http_response result) list" \<comment> \<open>for each call of \<open>http.Client.Do\<close>:
    how long it takes, how many redirects it is sent, and how it ends\<close>
  wire :: "(http_request \<times> http_response result) list" \<comment> \<open>every call of \<open>http.Client.Do\<close> so far\<close>
  redirects :: nat \<comment> \<open>requests these calls sent beyond their first\<close>
  console :: "string list"
  quota :: dailyQuota
  tokens :: nat \<comment> \<open>granted by the outbound bucket so far\<close>
  waits :: "(nat \<times> string option) list" \<comment> \<open>how each wait ends: its length, a cancellation\<close>
  dice :: "int list"
  jobs :: "int list" \<comment> \<open>the jobs channel, oldest first\<close>
  jobs_cap :: nat
  selects :: "(nat \<times> bool \<times> bool) list" \<comment> \<open>for each select: jobs taken before it, whether the
    context is done, and which ready case is picked\<close>
  enqueued :: "int list" \<comment> \<open>every job ever put on the channel\<close>

section \<open>Its operations\<close>

definition tick :: "nat \<Rightarrow> world \<Rightarrow> world" where
  "tick n w = w\<lparr>clock := clock w + int n\<rparr>"

definition run_query :: "'a query \<Rightarrow> world \<Rightarrow> 'a result \<times> world" where
  "run_query q w = (case q (clock w) (tables w) of (r, d) \<Rightarrow> (r, w\<lparr>tables := d\<rparr>))"

definition exec :: "'a query \<Rightarrow> (world, 'a result) prog" where
  "exec q w =
     (case outcomes w of
        [] \<Rightarrow> run_query q w
      | x # xs \<Rightarrow>
          let w = w\<lparr>outcomes := xs\<rparr>
          in case x of
               Done m n \<Rightarrow> (case run_query q (tick m w) of (r, w) \<Rightarrow> (r, tick n w))
             | Refused m e \<Rightarrow> (Inl (Opaque e), tick m w)
             | Unacked m n e \<Rightarrow>
                 (case run_query q (tick m w) of (r, w) \<Rightarrow> (Inl (Opaque e), tick n w)))"

definition time_Now :: "(world, time) prog" where
  "time_Now w = (clock w, w)"

text \<open>\<open>rand.Read\<close> of \<open>n\<close> bytes.\<close>

definition rand_Read :: "nat \<Rightarrow> (world, string result) prog" where
  "rand_Read n w =
     (case entropy w of
        [] \<Rightarrow> (Inr (replicate n (CHR 0x00)), w)
      | None # es \<Rightarrow> (Inl (Opaque ''rand''), w\<lparr>entropy := es\<rparr>)
      | Some b # es \<Rightarrow> (Inr (take n (b @ replicate n (CHR 0x00))), w\<lparr>entropy := es\<rparr>))"

text \<open>\<open>http.Client.Do\<close> follows redirects, and gives up after ten requests.\<close>

definition http_Do :: "http_request \<Rightarrow> (world, http_response result) prog" where
  "http_Do req w =
     (case replies w of
        [] \<Rightarrow> (Inl (Opaque ''unreachable''),
               w\<lparr>wire := wire w @ [(req, Inl (Opaque ''unreachable''))]\<rparr>)
      | (n, hops, r) # rs \<Rightarrow>
          let r = (if hops < 10 then r else Inl (Opaque ''stopped after 10 redirects''))
          in (r, tick n (w\<lparr>replies := rs, wire := wire w @ [(req, r)], redirects := redirects w + min hops 9\<rparr>)))"

definition log_Print :: "string \<Rightarrow> (world, unit) prog" where
  "log_Print s w = ((), w\<lparr>console := console w @ [s]\<rparr>)"

text \<open>\<open>time.After\<close> against the context, and the bucket's \<open>Wait\<close>.\<close>

definition sleep :: "duration \<Rightarrow> (world, unit result) prog" where
  "sleep d w =
     (case waits w of
        [] \<Rightarrow> (Inr (), tick (nat d) w)
      | (n, None) # xs \<Rightarrow> (Inr (), tick (nat d + n) (w\<lparr>waits := xs\<rparr>))
      | (n, Some e) # xs \<Rightarrow> (Inl (Opaque e), tick n (w\<lparr>waits := xs\<rparr>)))"

definition bucket_Wait :: "(world, unit result) prog" where
  "bucket_Wait w =
     (case sleep 0 w of
        (Inr _, w) \<Rightarrow> (Inr (), w\<lparr>tokens := tokens w + 1\<rparr>)
      | (Inl e, w) \<Rightarrow> (Inl e, w))"

definition rand_Int63n :: "int \<Rightarrow> (world, int) prog" where
  "rand_Int63n n w = (case dice w of [] \<Rightarrow> (0, w) | x # xs \<Rightarrow> (x mod n, w\<lparr>dice := xs\<rparr>))"

datatype send_result = Sent | CtxDone | Saturated

text \<open>The scheduler's \<open>select\<close>: send the job if the channel has room, leave if the context is done,
  and otherwise fall through; with two ready cases either may be picked.\<close>

definition select_send :: "int \<Rightarrow> (world, send_result) prog" where
  "select_send j w =
     (let (n, done, coin) = (case selects w of [] \<Rightarrow> (0, False, True) | x # _ \<Rightarrow> x);
          w = w\<lparr>selects := tl (selects w), jobs := drop n (jobs w)\<rparr>
      in if length (jobs w) < jobs_cap w \<and> (\<not> done \<or> coin)
         then (Sent, w\<lparr>jobs := jobs w @ [j], enqueued := enqueued w @ [j]\<rparr>)
         else if done then (CtxDone, w)
         else (Saturated, w))"

text \<open>The limiter main.go builds, over the world's quota.\<close>

definition world_limiter :: "world Limiter" where
  "world_limiter =
     \<lparr>li_Reserve = (\<lambda>c w. case Reserve c (clock w) (quota w) of (r, q) \<Rightarrow> (r, w\<lparr>quota := q\<rparr>)),
      li_Release = (\<lambda>c w. ((), w\<lparr>quota := Release c (quota w)\<rparr>)),
      li_Wait = bucket_Wait\<rparr>"

section \<open>What a statement can do\<close>

text \<open>A statement either leaves the tables alone or applies the query at some time; nothing else
  of the world changes but the clock and the schedule.\<close>

lemma exec_cases:
  obtains (ran) t where "clock w \<le> t" "t \<le> clock (snd (exec q w))" "tables (snd (exec q w)) = snd (q t (tables w))"
      "fst (exec q w) = fst (q t (tables w)) \<or> (\<exists>e. fst (exec q w) = Inl (Opaque e))"
    | (lost) e where "tables (snd (exec q w)) = tables w" "fst (exec q w) = Inl (Opaque e)"
proof (cases "outcomes w")
  case Nil
  then show ?thesis
    using ran [of "clock w"] by (simp add: exec_def run_query_def split: prod.splits)
next
  case (Cons x xs)
  then show ?thesis
  proof (cases x)
    case (Done m n)
    then show ?thesis using Cons ran [of "clock w + int m"]
      by (simp add: exec_def run_query_def tick_def split: prod.splits)
  next
    case (Refused m e)
    then show ?thesis using Cons lost by (simp add: exec_def tick_def)
  next
    case (Unacked m n e)
    then show ?thesis using Cons ran [of "clock w + int m"]
      by (simp add: exec_def run_query_def tick_def split: prod.splits)
  qed
qed

lemma exec_frame [simp]:
  "entropy (snd (exec q w)) = entropy w" "replies (snd (exec q w)) = replies w"
  "wire (snd (exec q w)) = wire w" "console (snd (exec q w)) = console w"
  "jobs (snd (exec q w)) = jobs w" "jobs_cap (snd (exec q w)) = jobs_cap w"
  "enqueued (snd (exec q w)) = enqueued w" "quota (snd (exec q w)) = quota w"
  by (simp_all add: exec_def run_query_def tick_def Let_def split: list.split outcome.split prod.split)

lemma exec_clock: "clock w \<le> clock (snd (exec q w))"
  by (simp add: exec_def run_query_def tick_def Let_def split: list.split outcome.split prod.split)

lemma exec_tables:
  assumes "\<And>t. R (tables w) (snd (q t (tables w)))" and "R (tables w) (tables w)"
  shows "R (tables w) (tables (snd (exec q w)))"
  using assms by (cases rule: exec_cases [of w q]) simp_all

lemma exec_acked:
  assumes "fst (exec q w) = Inr x"
  obtains t where "clock w \<le> t" "t \<le> clock (snd (exec q w))"
    "q t (tables w) = (Inr x, tables (snd (exec q w)))"
  using assms by (cases rule: exec_cases [of w q]) (auto simp: prod_eq_iff)

lemma exec_Inr:
  assumes "exec q w = (Inr x, w')"
  shows "\<exists>t. clock w \<le> t \<and> t \<le> clock w' \<and> q t (tables w) = (Inr x, tables w')"
  using exec_acked [of q w x] assms by auto

text \<open>A query that only reads leaves the tables alone, whatever happens to it.\<close>

lemma exec_read: "(\<And>t d. snd (q t d) = d) \<Longrightarrow> tables (snd (exec q w)) = tables w"
  by (rule exec_tables [of "\<lambda>d d'. d' = d"]) simp_all

text \<open>With no outcome scheduled the statement runs at once.\<close>

lemma exec_ideal [simp]:
  "outcomes w = [] \<Longrightarrow>
    exec q w = (fst (q (clock w) (tables w)), w\<lparr>tables := snd (q (clock w) (tables w))\<rparr>)"
  by (simp add: exec_def run_query_def split: prod.split)

text \<open>The other operations leave the tables alone.\<close>

lemma other_tables [simp]:
  "tables (snd (rand_Read n w)) = tables w" "tables (snd (http_Do req w)) = tables w"
  "tables (snd (log_Print s w)) = tables w" "time_Now w = (clock w, w)"
  "tables (snd (sleep d w)) = tables w" "tables (snd (bucket_Wait w)) = tables w"
  "tables (snd (rand_Int63n m w)) = tables w" "tables (snd (select_send j w)) = tables w"
  by (simp_all add: rand_Read_def http_Do_def log_Print_def time_Now_def sleep_def bucket_Wait_def
      rand_Int63n_def tick_def select_send_def Let_def split: list.split option.split prod.split)

lemma Acquire_world:
  "tables (snd (Acquire world_limiter c w)) = tables w"
  "wire (snd (Acquire world_limiter c w)) = wire w"
  "redirects (snd (Acquire world_limiter c w)) = redirects w"
  "tokens (snd (Acquire world_limiter c w)) =
     tokens w + (if fst (Acquire world_limiter c w) = Inr () then 1 else 0)"
  by (auto simp: Acquire_def world_limiter_def prog_defs bucket_Wait_def sleep_def tick_def
      split: prod.split sum.split list.split option.split)

text \<open>Programs that leave a part of the tables alone; with \<open>\<lambda>d. d\<close>, all of it.\<close>

definition same :: "(database \<Rightarrow> 'a) \<Rightarrow> world \<Rightarrow> world \<Rightarrow> bool" where
  "same f w w' \<longleftrightarrow> f (tables w') = f (tables w)"

interpretation same: step_preorder "same f"
  by unfold_locales (simp_all add: same_def)

abbreviation still :: "world \<Rightarrow> world \<Rightarrow> bool" where
  "still \<equiv> same (\<lambda>d. d)"

lemma same_exec: "(\<And>t d. f (snd (q t d)) = f d) \<Longrightarrow> steps (same f) (exec q)"
  unfolding steps_def same_def
  by (intro allI exec_tables [of "\<lambda>d d'. f d' = f d"]) simp_all

lemma same_tables: "(\<And>w. tables (snd (m w)) = tables w) \<Longrightarrow> steps (same f) m"
  by (simp add: steps_def same_def)

lemma same_other:
  "steps (same f) (rand_Read n)" "steps (same f) time_Now" "steps (same f) (http_Do r)"
  "steps (same f) (log_Print s)" "steps (same f) (sleep t)" "steps (same f) (rand_Int63n m)"
  by (simp_all add: same_tables)

lemma sameD: "steps (same f) m \<Longrightarrow> f (tables (snd (m w))) = f (tables w)"
  by (simp add: steps_def same_def)

lemma still_same: "steps still m \<Longrightarrow> steps (same f) m"
  by (simp add: steps_def same_def)

lemma exec_read_world:
  assumes "\<And>t d. snd (q t d) = d"
  shows "\<exists>c os. snd (exec q w) = w\<lparr>clock := c, outcomes := os\<rparr>"
proof -
  have q: "run_query q v = (fst (q (clock v) (tables v)), v)" for v
    using assms by (simp add: run_query_def split_beta)
  show ?thesis
  proof (cases "outcomes w")
    case Nil
    have "snd (exec q w) = w" by (simp add: exec_def q Nil)
    moreover have "w = w\<lparr>clock := clock w, outcomes := []\<rparr>" using Nil by (cases w) simp
    ultimately have "snd (exec q w) = w\<lparr>clock := clock w, outcomes := []\<rparr>" by (rule trans)
    then show ?thesis by blast
  next
    case (Cons x xs)
    have "snd (exec q w) = w\<lparr>clock := clock (snd (exec q w)), outcomes := xs\<rparr>"
      by (cases x) (simp_all add: exec_def q Cons tick_def)
    then show ?thesis by blast
  qed
qed

text \<open>Programs that keep the tables' integrity.\<close>

definition sound :: "(world, 'a) prog \<Rightarrow> bool" where
  "sound m \<longleftrightarrow> steps (keeping (\<lambda>w. db_ok (tables w))) m"

lemma sound_exec: "(\<And>t d. db_ok d \<Longrightarrow> db_ok (snd (q t d))) \<Longrightarrow> sound (exec q)"
  using exec_tables [of "\<lambda>d d'. db_ok d \<longrightarrow> db_ok d'" _ q]
  by (simp add: sound_def steps_def keeping_def)

text \<open>An example world over the example database, with a network that answers.\<close>

definition ex_reply :: "http_response result" where
  "ex_reply = Inr \<lparr>rp_StatusCode = 200, rp_Body = Inr [], rp_RetryAfter = []\<rparr>"

definition ex_world :: world where
  "ex_world = \<lparr>tables = ex_db, clock = 1000, outcomes = [], entropy = [],
     replies = replicate 8 (0, 0, ex_reply), wire = [], redirects = 0, console = [], quota = \<lparr>dq_loc = 0, dq_resetAt = Day, dq_used = (\<lambda>_. 0), dq_budget = (\<lambda>_. 100)\<rparr>,
     tokens = 0, waits = [], dice = [],
     jobs = [], jobs_cap = 4, selects = [], enqueued = []\<rparr>"

end
