(* ===== verification/Ticketmaster.thy ===== *)
theory Ticketmaster
  imports GoTime RateLimit World "HOL-Library.List_Lexorder" "HOL-Library.Char_ord"
begin

text \<open>
  \<open>internal/ticketmaster\<close>: the wire types and the normalised snapshot (\<open>types.go\<close>), the mapping
  from one to the other, and the client with its rate-limited, retrying GET (\<open>client.go\<close>).
  \<open>encoding/json\<close>, the HTTP transport, the timer and the random source are fields of the client
  record, so the code is modelled for every behaviour of theirs.
\<close>

section \<open>Types (types.go)\<close>

record EventSnapshot =
  sn_TMEventID :: string
  sn_Name :: string
  sn_URL :: string
  sn_Venue :: string
  sn_EventDate :: "time option"
  sn_Availability :: string
  sn_PublicOnsaleStart :: "time option"
  sn_PublicOnsaleEnd :: "time option"
  sn_OnsaleTBD :: bool
  sn_EarliestPresaleStart :: "time option"
  sn_EarliestPresaleName :: string
  sn_PresaleCount :: int

record tmVenue =
  ve_Name :: string

record tmStart =
  st_DateTime :: string
  st_LocalDate :: string

record tmDates =
  da_Start :: tmStart
  da_StatusCode :: string

record tmPublicSale =
  ps_StartDateTime :: string
  ps_EndDateTime :: string
  ps_StartTBD :: bool
  ps_StartTBA :: bool

record tmPresale =
  pre_StartDateTime :: string
  pre_EndDateTime :: string
  pre_Name :: string

record tmSales =
  sa_Public :: tmPublicSale
  sa_Presales :: "tmPresale list"

record tmEvent =
  ev_ID :: string
  ev_Name :: string
  ev_URL :: string
  ev_Dates :: tmDates
  ev_Sales :: tmSales
  ev_Venues :: "tmVenue list"

section \<open>From the wire to a snapshot\<close>

definition sentinelYear :: int where "sentinelYear = 9999"

definition parseSaleTime :: "string \<Rightarrow> time option \<times> bool" where
  "parseSaleTime v =
     (if v = [] then (None, False)
      else case Parse_RFC3339 v of
        None \<Rightarrow> (None, False)
      | Some (year, t) \<Rightarrow> if year \<ge> sentinelYear then (None, True) else (Some t, False))"

definition normalizeStatus :: "string \<Rightarrow> string" where
  "normalizeStatus code = (if code = [] then ''unknown'' else code)"

text \<open>The loop over the presale windows; \<open>start\<close> and \<open>name\<close> are the snapshot's two fields.\<close>

fun earliestPresale :: "tmPresale list \<Rightarrow> time option \<Rightarrow> string \<Rightarrow> time option \<times> string" where
  "earliestPresale [] start name = (start, name)"
| "earliestPresale (p # ps) start name =
     (case parseSaleTime (pre_StartDateTime p) of
        (_, True) \<Rightarrow> earliestPresale ps start name
      | (None, False) \<Rightarrow> earliestPresale ps start name
      | (Some t, False) \<Rightarrow>
          if (case start of None \<Rightarrow> True | Some u \<Rightarrow> t < u)
          then earliestPresale ps (Some t) (pre_Name p)
          else earliestPresale ps start name)"

definition toSnapshot :: "tmEvent \<Rightarrow> EventSnapshot" where
  "toSnapshot e =
     (let pub = sa_Public (ev_Sales e);
          venue = (case ev_Venues e of [] \<Rightarrow> [] | v # _ \<Rightarrow> ve_Name v);
          dt = st_DateTime (da_Start (ev_Dates e));
          eventDate = (if dt = [] then None
                       else map_option snd (Parse_RFC3339 dt));
          (t, tbd) = parseSaleTime (ps_StartDateTime pub);
          onsaleTBD = (if tbd then True else False);
          publicStart = (if tbd then None else t);
          marked = (ps_StartTBD pub \<or> ps_StartTBA pub);
          onsaleTBD = (if marked then True else onsaleTBD);
          publicStart = (if marked then None else publicStart);
          (t, tbd) = parseSaleTime (ps_EndDateTime pub);
          publicEnd = (if \<not> tbd then t else None);
          (start, name) = earliestPresale (sa_Presales (ev_Sales e)) None []
      in \<lparr>sn_TMEventID = ev_ID e, sn_Name = ev_Name e, sn_URL = ev_URL e, sn_Venue = venue,
          sn_EventDate = eventDate,
          sn_Availability = normalizeStatus (da_StatusCode (ev_Dates e)),
          sn_PublicOnsaleStart = publicStart, sn_PublicOnsaleEnd = publicEnd,
          sn_OnsaleTBD = onsaleTBD,
          sn_EarliestPresaleStart = start, sn_EarliestPresaleName = name,
          sn_PresaleCount = int (length (sa_Presales (ev_Sales e)))\<rparr>)"

subsection \<open>What the snapshot says\<close>

text \<open>The presale windows with a usable start, with that start.\<close>

definition dated_presales :: "tmPresale list \<Rightarrow> (time \<times> string) list" where
  "dated_presales ps =
     [(t, pre_Name p). p \<leftarrow> ps, (t, False) \<leftarrow> (case parseSaleTime (pre_StartDateTime p) of
                                                (Some t, b) \<Rightarrow> [(t, b)] | (None, _) \<Rightarrow> [])]"

fun first_min :: "(time \<times> string) list \<Rightarrow> (time \<times> string) option" where
  "first_min [] = None"
| "first_min (x # xs) =
     (case first_min xs of None \<Rightarrow> Some x | Some y \<Rightarrow> if fst y < fst x then Some y else Some x)"

lemma parseSaleTime_tbd: "parseSaleTime v = (t, True) \<Longrightarrow> t = None"
  by (auto simp: parseSaleTime_def split: if_splits option.splits)

lemma dated_presales_Cons:
  "dated_presales (p # ps) =
     (case parseSaleTime (pre_StartDateTime p) of
        (Some t, False) \<Rightarrow> (t, pre_Name p) # dated_presales ps | _ \<Rightarrow> dated_presales ps)"
  by (auto simp: dated_presales_def split: prod.split option.split bool.split)

lemma earliestPresale_dated:
  "earliestPresale ps start name =
     (case first_min (dated_presales ps) of
        None \<Rightarrow> (start, name)
      | Some (t, n) \<Rightarrow>
          if (case start of None \<Rightarrow> True | Some u \<Rightarrow> t < u) then (Some t, n) else (start, name))"
proof (induction ps start name rule: earliestPresale.induct)
  case (1 start name)
  show ?case by (simp add: dated_presales_def)
next
  case (2 p ps start name)
  show ?case
  proof (cases "parseSaleTime (pre_StartDateTime p)")
    case (Pair a b)
    then show ?thesis
      using 2 parseSaleTime_tbd [of "pre_StartDateTime p" a]
      by (cases b; cases a; cases start)
        (auto simp: dated_presales_Cons split: option.splits if_splits)
  qed
qed

lemma first_min_None [simp]: "first_min xs = None \<longleftrightarrow> xs = []"
  by (cases xs) (auto split: option.splits)

lemma first_min_Some:
  "first_min xs = Some (t, n) \<Longrightarrow>
    (\<exists>as bs. xs = as @ (t, n) # bs \<and> (\<forall>x\<in>set as. t < fst x) \<and> (\<forall>x\<in>set bs. t \<le> fst x))"
proof (induction xs arbitrary: t n)
  case (Cons x xs)
  show ?case
  proof (cases "first_min xs")
    case None
    with Cons.prems show ?thesis by (intro exI [of _ "[]"]) auto
  next
    case (Some y)
    obtain t' n' where y: "y = (t', n')" by (cases y)
    then obtain as bs where xs: "xs = as @ (t', n') # bs" "\<forall>x\<in>set as. t' < fst x"
      "\<forall>x\<in>set bs. t' \<le> fst x" using Cons.IH Some by blast
    show ?thesis
    proof (cases "t' < fst x")
      case True
      then have tn: "t = t'" "n = n'" using Cons.prems Some y by auto
      have "x # xs = (x # as) @ (t, n) # bs" using xs(1) tn by simp
      moreover have "\<forall>z\<in>set (x # as). t < fst z" using True xs(2) tn by simp
      moreover have "\<forall>z\<in>set bs. t \<le> fst z" using xs(3) tn by simp
      ultimately show ?thesis by blast
    next
      case False
      then have x: "x = (t, n)" using Cons.prems Some y by auto
      have "x # xs = [] @ (t, n) # xs" "\<forall>z\<in>set xs. t \<le> fst z"
        using False x xs by force+
      then show ?thesis by fastforce
    qed
  qed
qed simp

lemma toSnapshot_presale:
  "(sn_EarliestPresaleStart (toSnapshot e), sn_EarliestPresaleName (toSnapshot e)) =
     (case first_min (dated_presales (sa_Presales (ev_Sales e))) of
        None \<Rightarrow> (None, []) | Some (t, n) \<Rightarrow> (Some t, n))"
  by (simp add: toSnapshot_def Let_def earliestPresale_dated split: prod.splits option.splits)

section \<open>The client (client.go)\<close>

record 'w Client =
  c_baseURL :: string
  c_apiKey :: string
  c_limiter :: "(Class \<Rightarrow> ('w, unit result) prog) option"
  c_NewRequest :: "string \<Rightarrow> unit result"
  c_Do :: "string \<Rightarrow> ('w, http_response result) prog"
  c_Wait :: "duration \<Rightarrow> ('w, unit result) prog" \<comment> \<open>\<open>time.After\<close>, or the context's error\<close>
  c_Int63n :: "int \<Rightarrow> ('w, int) prog"
  c_Now :: "('w, time) prog"
  c_decodeSearch :: "string \<Rightarrow> tmEvent list result"
  c_decodeEvent :: "string \<Rightarrow> tmEvent result"

definition maxRetries :: nat where "maxRetries = 3"

definition backoff :: "'w Client \<Rightarrow> nat \<Rightarrow> ('w, duration) prog" where
  "backoff c attempt =
     (let base = 500 * Millisecond
      in letM (c_Int63n c base) (\<lambda>r. ret (base * 2 ^ attempt + r)))"

definition parseRetryAfter :: "string \<Rightarrow> duration \<times> bool" where
  "parseRetryAfter v =
     (if v = [] then (0, False)
      else case Atoi v of
        Some secs \<Rightarrow> (to_int64 (secs * Second), True)
      | None \<Rightarrow> (0, False))"

definition truncate :: "string \<Rightarrow> nat \<Rightarrow> string" where
  "truncate b n = (if length b \<le> n then b else take n b @ ''...'')"

text \<open>The loop of \<open>do\<close>, with the number of attempts left.\<close>

fun do_loop :: "'w Client \<Rightarrow> Class \<Rightarrow> string \<Rightarrow> nat \<Rightarrow> gerr \<Rightarrow> ('w, string result) prog" where
  "do_loop c cl endpoint 0 lastErr =
     ret (Inl (Wrap ''ticketmaster: retries exhausted: '' lastErr))"
| "do_loop c cl endpoint (Suc left) lastErr =
     orRet (case c_limiter c of None \<Rightarrow> ret (Inr ()) | Some acquire \<Rightarrow> acquire cl) (\<lambda>_.
     case c_NewRequest c endpoint of Inl e \<Rightarrow> ret (Inl e) | Inr _ \<Rightarrow>
     orRet (c_Do c endpoint) (\<lambda>resp.
     case rp_Body resp of Inl readErr \<Rightarrow> ret (Inl readErr) | Inr body \<Rightarrow>
     if rp_StatusCode resp = 200 then ret (Inr body)
     else if rp_StatusCode resp = 429 then
       letM (backoff c (maxRetries - left)) (\<lambda>wait0.
       let wait = (if snd (parseRetryAfter (rp_RetryAfter resp))
                   then fst (parseRetryAfter (rp_RetryAfter resp)) else wait0)
       in orRet (c_Wait c wait) (\<lambda>_.
            do_loop c cl endpoint left (Opaque ''ticketmaster: 429 too many requests'')))
     else ret (Inl (Opaque (''ticketmaster: unexpected status '' @ FormatInt (rp_StatusCode resp)
                            @ '': '' @ truncate body 200)))))"

definition Client_do :: "'w Client \<Rightarrow> Class \<Rightarrow> string \<Rightarrow> ('w, string result) prog" where
  "Client_do c cl endpoint = do_loop c cl endpoint (maxRetries + 1) (Opaque ''<nil>'')"

text \<open>\<open>url.Values.Encode\<close>: sorted by key.\<close>

definition Values_Encode :: "(string \<times> string) list \<Rightarrow> string" where
  "Values_Encode q =
     (let enc = map (\<lambda>(k, v). QueryEscape k @ ''='' @ QueryEscape v) (sort_key fst q)
      in case enc of [] \<Rightarrow> [] | x # xs \<Rightarrow> x @ concat (map (\<lambda>y. ''&'' @ y) xs))"

definition Format_date :: "time \<Rightarrow> string" where
  "Format_date t =
     (case Time_Date 0 t of (y, m, d) \<Rightarrow> four_digits y @ ''-'' @ two_digits m @ ''-'' @ two_digits d)"

definition parseSearchResponse :: "'w Client \<Rightarrow> string \<Rightarrow> EventSnapshot list result" where
  "parseSearchResponse c data =
     (case c_decodeSearch c data of
        Inl e \<Rightarrow> Inl (Wrap ''decode search response: '' e)
      | Inr es \<Rightarrow> Inr (map toSnapshot es))"

definition Client_Search ::
  "'w Client \<Rightarrow> string \<Rightarrow> bool \<Rightarrow> ('w, EventSnapshot list result) prog" where
  "Client_Search c keyword upcomingOnsalesOnly =
     letM (c_Now c) (\<lambda>now.
     let q = [(''keyword'', keyword), (''apikey'', c_apiKey c), (''size'', ''20'')]
             @ (if upcomingOnsalesOnly then [(''onsaleOnAfterStartDate'', Format_date now)] else [])
     in orRet (Client_do c ClassSearch (c_baseURL c @ ''/events.json?'' @ Values_Encode q))
          (\<lambda>body. ret (parseSearchResponse c body)))"

definition Client_GetEvent :: "'w Client \<Rightarrow> string \<Rightarrow> ('w, EventSnapshot result) prog" where
  "Client_GetEvent c tmEventID =
     orRet (Client_do c ClassPoll (c_baseURL c @ ''/events/'' @ PathEscape tmEventID @ ''.json?''
              @ Values_Encode [(''apikey'', c_apiKey c)]))
       (\<lambda>body. case c_decodeEvent c body of
          Inl e \<Rightarrow> ret (Inl (Wrap ''decode event response: '' e))
        | Inr e \<Rightarrow> ret (Inr (toSnapshot e)))"

text \<open>A call goes only through its collaborators, so what each of them keeps the call keeps.\<close>

context step_preorder begin

lemma steps_do_loop:
  assumes "\<And>cl. steps R (case c_limiter c of None \<Rightarrow> ret (Inr ()) | Some acquire \<Rightarrow> acquire cl)"
    and "\<And>e. steps R (c_Do c e)" and "\<And>d. steps R (c_Wait c d)" and "\<And>n. steps R (c_Int63n c n)"
  shows "steps R (do_loop c cl ep left e)"
proof (induction left arbitrary: e)
  case (Suc left)
  show ?case
    unfolding do_loop.simps backoff_def Let_def
    by (intro steps_orRet assms(1,2))
      (auto intro!: steps_ret steps_orRet steps_letM steps_if assms Suc split: sum.split)
qed (simp add: steps_ret)

lemma steps_calls:
  assumes "\<And>cl ep left e. steps R (do_loop c cl ep left e)" and "steps R (c_Now c)"
  shows "steps R (Client_GetEvent c tm)" and "steps R (Client_Search c kw up)"
proof -
  show "steps R (Client_GetEvent c tm)"
    unfolding Client_GetEvent_def Client_do_def
    by (rule steps_orRet [OF assms(1)]) (auto intro: steps_ret split: sum.split)
  show "steps R (Client_Search c kw up)"
    unfolding Client_Search_def Client_do_def Let_def
    by (intro steps_letM assms steps_orRet steps_ret)
qed

end

section \<open>The contract of a limited transport\<close>

text \<open>
  \<open>reqs\<close>, \<open>reds\<close> and \<open>toks\<close> count the calls of the transport, the redirects they followed and the
  calls the limiter granted. The laws say that only the transport sends and only the limiter grants.
\<close>

definition counts ::
  "('w \<Rightarrow> nat) \<Rightarrow> ('w \<Rightarrow> nat) \<Rightarrow> ('w \<Rightarrow> nat) \<Rightarrow> nat \<Rightarrow> nat \<Rightarrow> 'w \<Rightarrow> 'w \<Rightarrow> bool" where
  "counts reqs reds toks m n w w' \<longleftrightarrow>
     reqs w' = reqs w + m \<and> toks w' = toks w + n \<and> reds w' \<le> reds w + 9 * m"

locale limited_client =
  fixes c :: "'w Client"
    and acquire :: "Class \<Rightarrow> ('w, unit result) prog"
    and reqs :: "'w \<Rightarrow> nat"
    and reds :: "'w \<Rightarrow> nat"
    and toks :: "'w \<Rightarrow> nat"
  assumes limiter: "c_limiter c = Some acquire"
    and acquire_counts:
      "counts reqs reds toks 0 (if fst (acquire cl w) = Inr () then 1 else 0) w (snd (acquire cl w))"
    and Do_counts: "counts reqs reds toks 1 0 w (snd (c_Do c endpoint w))"
    and Wait_counts: "counts reqs reds toks 0 0 w (snd (c_Wait c d w))"
    and Int63n_counts: "counts reqs reds toks 0 0 w (snd (c_Int63n c n w))"
begin

text \<open>Every request is paid for by a granted call, and at most one grant goes unused.\<close>

definition paid :: "nat \<Rightarrow> 'w \<Rightarrow> 'w \<Rightarrow> bool" where
  "paid n w w' \<longleftrightarrow> reqs w' \<le> reqs w + n \<and> reqs w \<le> reqs w' \<and>
     reqs w' + toks w \<le> toks w' + reqs w \<and> reds w' + 9 * reqs w \<le> reds w + 9 * reqs w'"

lemma do_loop_paid: "paid left w (snd (do_loop c cl ep left e w))"
proof (induction left arbitrary: e w)
  case 0
  show ?case by (simp add: paid_def)
next
  case (Suc left)
  obtain ra wa where acq: "acquire cl w = (ra, wa)" by (cases "acquire cl w")
  obtain rd wd where dd: "c_Do c ep wa = (rd, wd)" by (cases "c_Do c ep wa")
  obtain rr wr where rr: "c_Int63n c (500 * Millisecond) wd = (rr, wr)"
    by (cases "c_Int63n c (500 * Millisecond) wd")
  have d: "counts reqs reds toks 1 0 wa wd" using Do_counts [of wa ep] dd by simp
  have r: "counts reqs reds toks 0 0 wd wr" using Int63n_counts [of wd "500 * Millisecond"] rr by simp
  note run = prog_defs limiter acq dd rr backoff_def Let_def paid_def
  show ?case
  proof (cases ra)
    case (Inl x)
    then show ?thesis using acquire_counts [of cl w] acq by (simp add: run counts_def)
  next
    case (Inr u)
    then have a: "counts reqs reds toks 0 1 w wa" using acquire_counts [of cl w] acq by simp
    have stop: "paid (Suc left) w wa" "paid (Suc left) w wd"
      using a d by (simp_all add: paid_def counts_def)
    have again: "paid (Suc left) w (snd (c_Wait c n wr))"
        "paid (Suc left) w (snd (do_loop c cl ep left e' (snd (c_Wait c n wr))))" for n e'
      using a d r Wait_counts [of wr n] Suc.IH [of "snd (c_Wait c n wr)" e']
      by (simp_all add: paid_def counts_def)
    show ?thesis
    proof (cases "\<exists>resp body. c_NewRequest c ep = Inr () \<and> rd = Inr resp \<and>
        rp_Body resp = Inr body \<and> rp_StatusCode resp = 429")
      case False
      then show ?thesis
        using stop Inr by (auto simp: run split: sum.split)
    next
      case True
      then obtain resp body where ok: "c_NewRequest c ep = Inr ()" "rd = Inr resp"
        "rp_Body resp = Inr body" "rp_StatusCode resp = 429" by blast
      define n where "n = (if snd (parseRetryAfter (rp_RetryAfter resp))
        then fst (parseRetryAfter (rp_RetryAfter resp))
        else 500 * Millisecond * 2 ^ (maxRetries - left) + rr)"
      obtain rs ws where ws: "c_Wait c n wr = (rs, ws)" by (cases "c_Wait c n wr")
      show ?thesis
        using again(1) [where n = n] again(2) [where n = n] Inr ok ws
        by (cases rs) (simp_all add: prog_defs limiter acq dd rr backoff_def Let_def flip: n_def)
    qed
  qed
qed

lemma Client_do_paid:
  "reqs (snd (Client_do c cl ep w)) \<le> reqs w + 4 \<and>
   reqs (snd (Client_do c cl ep w)) + toks w \<le> toks (snd (Client_do c cl ep w)) + reqs w \<and>
   reds (snd (Client_do c cl ep w)) + 9 * reqs w \<le> reds w + 9 * reqs (snd (Client_do c cl ep w))"
  using do_loop_paid [of 4 w cl ep "Opaque ''<nil>''"]
  by (simp add: Client_do_def maxRetries_def paid_def)

end

section \<open>The client main.go builds\<close>

definition world_client ::
  "string \<Rightarrow> string \<Rightarrow> (string \<Rightarrow> unit result) \<Rightarrow> (string \<Rightarrow> tmEvent list result)
    \<Rightarrow> (string \<Rightarrow> tmEvent result) \<Rightarrow> world Client" where
  "world_client baseURL apiKey newRequest decodeSearch decodeEvent =
     \<lparr>c_baseURL = baseURL, c_apiKey = apiKey, c_limiter = Some (Acquire world_limiter),
      c_NewRequest = newRequest,
      c_Do = (\<lambda>endpoint. http_Do \<lparr>rq_Endpoint = endpoint, rq_Authorization = [], rq_Body = []\<rparr>),
      c_Wait = sleep, c_Int63n = rand_Int63n, c_Now = time_Now,
      c_decodeSearch = decodeSearch, c_decodeEvent = decodeEvent\<rparr>"

interpretation tmc: limited_client
    "world_client baseURL apiKey newRequest decodeSearch decodeEvent"
    "Acquire world_limiter" "\<lambda>w. length (wire w)" redirects tokens
  for baseURL apiKey newRequest decodeSearch decodeEvent
proof unfold_locales
  fix cl w
  show "counts (\<lambda>w. length (wire w)) redirects tokens 0
     (if fst (Acquire world_limiter cl w) = Inr () then 1 else 0) w
     (snd (Acquire world_limiter cl w))"
    unfolding counts_def Acquire_world by simp
qed (auto simp: world_client_def counts_def http_Do_def Let_def sleep_def rand_Int63n_def tick_def
    split: list.split option.split)

lemma still_client:
  "steps still (Client_GetEvent (world_client b k nr ds de) tm)"
  "steps still (Client_Search (world_client b k nr ds de) kw up)"
proof -
  have loop: "steps still (do_loop (world_client b k nr ds de) cl ep left e)" for cl ep left e
    by (rule same.steps_do_loop; rule same_tables; simp add: world_client_def Acquire_world)
  show "steps still (Client_GetEvent (world_client b k nr ds de) tm)"
    "steps still (Client_Search (world_client b k nr ds de) kw up)"
    by (rule same.steps_calls [OF loop]; simp add: world_client_def same_other)+
qed

section \<open>Properties\<close>

text \<open>(C27) One call of the client sends at most four requests, and every request it sends has been
  paid for by a token of the outbound bucket, whatever the network, the quota and the clock do.
  What \<open>http.Client\<close> sends beyond that are the redirects it follows, nine for a request at most; no
  token pays for them.\<close>
theorem requests_are_paid:
  "let w' = snd (Client_do (world_client baseURL apiKey newRequest decodeSearch decodeEvent) cl ep w)
   in length (wire w') \<le> length (wire w) + 4 \<and>
      length (wire w') + tokens w \<le> tokens w' + length (wire w) \<and>
      redirects w' + 9 * length (wire w) \<le> redirects w + 9 * length (wire w')"
  using tmc.Client_do_paid by (simp add: Let_def)

text \<open>A snapshot says that the public sale has no date exactly when Ticketmaster marks it to be
  announced or dates it in the year 9999; then it carries no start, and otherwise the start is
  the date given, if it is one.\<close>
lemma toSnapshot_onsale:
  "(sn_OnsaleTBD (toSnapshot e) \<longleftrightarrow> ps_StartTBD (sa_Public (ev_Sales e)) \<or>
      ps_StartTBA (sa_Public (ev_Sales e)) \<or>
      snd (parseSaleTime (ps_StartDateTime (sa_Public (ev_Sales e))))) \<and>
   sn_PublicOnsaleStart (toSnapshot e) =
     (if sn_OnsaleTBD (toSnapshot e) then None
      else fst (parseSaleTime (ps_StartDateTime (sa_Public (ev_Sales e)))))"
  by (auto simp: toSnapshot_def Let_def split: prod.splits)

text \<open>The presale a snapshot names is the first of those that start earliest, among the windows
  with a usable date; without any, it names none.\<close>
lemma toSnapshot_earliest_presale:
  "case sn_EarliestPresaleStart (toSnapshot e) of
     None \<Rightarrow> dated_presales (sa_Presales (ev_Sales e)) = [] \<and> sn_EarliestPresaleName (toSnapshot e) = []
   | Some t \<Rightarrow> \<exists>as bs. dated_presales (sa_Presales (ev_Sales e)) =
         as @ (t, sn_EarliestPresaleName (toSnapshot e)) # bs \<and>
       (\<forall>x\<in>set as. t < fst x) \<and> (\<forall>x\<in>set bs. t \<le> fst x)"
proof (cases "first_min (dated_presales (sa_Presales (ev_Sales e)))")
  case None
  then show ?thesis using toSnapshot_presale [of e] by simp
next
  case (Some y)
  obtain t n where y: "y = (t, n)" by (cases y)
  then show ?thesis
    using toSnapshot_presale [of e] first_min_Some [of _ t n] Some by simp
qed

definition ex_presales :: tmEvent where
  "ex_presales = \<lparr>ev_ID = ''G5'', ev_Name = ''E'', ev_URL = [],
     ev_Dates = \<lparr>da_Start = \<lparr>st_DateTime = [], st_LocalDate = []\<rparr>, da_StatusCode = []\<rparr>,
     ev_Sales = \<lparr>sa_Public = \<lparr>ps_StartDateTime = [], ps_EndDateTime = [], ps_StartTBD = True,
                             ps_StartTBA = False\<rparr>,
                 sa_Presales = [\<lparr>pre_StartDateTime = ''9999-01-01T00:00:00Z'', pre_EndDateTime = [],
                                 pre_Name = ''X''\<rparr>,
                                \<lparr>pre_StartDateTime = ''2026-09-17T15:00:00Z'', pre_EndDateTime = [],
                                 pre_Name = ''Fan''\<rparr>,
                                \<lparr>pre_StartDateTime = ''2026-09-17T15:00:00Z'', pre_EndDateTime = [],
                                 pre_Name = ''Card''\<rparr>]\<rparr>,
     ev_Venues = []\<rparr>"

text \<open>(C40) Every UTC timestamp of years 0 to 9998 that Ticketmaster writes is read back as that very
  instant, and the sentinel year 9999 as "not announced".\<close>
theorem sale_time_roundtrip:
  assumes "0 \<le> y" "y \<le> 9999" "1 \<le> m" "m \<le> 12" "1 \<le> d" "d \<le> days_in m y"
    and "0 \<le> h" "h \<le> 23" "0 \<le> mi" "mi \<le> 59" "0 \<le> s" "s \<le> 59"
  shows "parseSaleTime (render_utc y m d h mi s) =
    (if y = 9999 then (None, True)
     else (Some (days_of_civil y m d * Day + h * Hour + mi * Minute + s * Second), False))"
proof -
  have "render_utc y m d h mi s \<noteq> []" by (simp add: render_utc_def)
  then show ?thesis
    using Parse_render_utc [OF assms] assms(2)
    by (simp add: parseSaleTime_def sentinelYear_def duration_defs algebra_simps)
qed

theorem sale_time_roundtrip_witness:
  "parseSaleTime (render_utc 2028 2 29 23 59 59) =
     (Some (days_of_civil 2028 2 29 * Day + 23 * Hour + 59 * Minute + 59 * Second), False) \<and>
   parseSaleTime (render_utc 9999 12 31 0 0 0) = (None, True)"
  using sale_time_roundtrip [of 2028 2 29 23 59 59] sale_time_roundtrip [of 9999 12 31 0 0 0]
  by (simp add: days_in_def is_leap_def)

end
