(* ===== verification/Render.thy ===== *)
theory Render
  imports GoTime Evaluator
begin

text \<open>
  The message copy of \<open>internal/notifier\<close>: \<open>render.go\<close> and \<open>render\<close> of \<open>notifier.go\<close> turn an alert
  into a message, \<open>auth_mail.go\<close> builds the two account mails. Strings are UTF-8 bytes, so the
  characters outside ASCII are written as their bytes. Shown: what emphasis becomes in each of
  the two bodies, that no text of Ticketmaster's can add a tag to the HTML body, and that exactly
  the evaluator's milestones have copy.
\<close>

section \<open>Alerts and messages\<close>

record Message =
  m_To :: string
  m_Subject :: string
  m_HTMLBody :: string
  m_TextBody :: string
  m_Headers :: "(string \<times> string) list"

record Alert =
  al_WatchID :: int
  al_ToEmail :: string
  al_EventName :: string
  al_Venue :: string
  al_EventURL :: string
  al_Kind :: string
  al_Availability :: string
  al_PublicOnsaleStart :: "time option"
  al_EarliestPresaleStart :: "time option"
  al_EarliestPresaleName :: string
  al_OnsaleTBD :: bool
  al_UnsubscribeURL :: string

definition nl :: string where "nl = [CHR 0x0A]"
definition emdash :: string where "emdash = [CHR 0xE2, CHR 0x80, CHR 0x94]"
definition arrow :: string where "arrow = [CHR 0xE2, CHR 0x86, CHR 0x92]"

lemmas glyph_defs = nl_def emdash_def arrow_def

section \<open>Emphasis: the regular expression \<open>\*\*(.+?)\*\*\<close>\<close>

text \<open>
  \<open>bold_end\<close> looks, after an opening pair of stars, for the shortest body of at least one
  character, none a newline, followed by a closing pair; it gives the body and the rest.
  \<open>ReplaceAllString\<close> replaces the leftmost matches that do not overlap. The characters of the
  pattern are ASCII, so matching bytes and matching runes is the same.
\<close>

fun bold_end :: "string \<Rightarrow> (string \<times> string) option" where
  "bold_end [] = None"
| "bold_end (c # cs) =
     (if c = CHR 0x0A then None
      else if HasPrefix cs ''**'' then Some ([c], drop 2 cs)
      else map_option (\<lambda>(b, r). (c # b, r)) (bold_end cs))"

lemma bold_end_length: "bold_end s = Some (b, r) \<Longrightarrow> length r < length s"
  by (induction s arbitrary: b r) (auto split: if_splits)

datatype segment = Plain string | Bold string

function segments :: "string \<Rightarrow> segment list" where
  "segments s =
     (case s of
        [] \<Rightarrow> []
      | c # cs \<Rightarrow>
          (case (if HasPrefix s ''**'' then bold_end (drop 2 s) else None) of
             Some (b, r) \<Rightarrow> Bold b # segments r
           | None \<Rightarrow> Plain [c] # segments cs))"
  by pat_completeness auto
termination
  by (relation "measure length")
    (auto split: if_splits dest!: bold_end_length)

declare segments.simps [simp del]

definition ReplaceAllString :: "string \<Rightarrow> string \<Rightarrow> string \<Rightarrow> string" where
  "ReplaceAllString before after s =
     concat (map (\<lambda>g. case g of Plain t \<Rightarrow> t | Bold b \<Rightarrow> before @ b @ after) (segments s))"

section \<open>The code (render.go)\<close>

definition resaleNote :: string where
  "resaleNote =
     ''Ticketmaster's public data doesn't include resale listings, so tickets may be '' @
     ''available on the event page even when the official sale hasn't opened or has closed.''"

definition plain :: "string \<Rightarrow> string" where
  "plain s = ReplaceAllString [] [] s"

definition htmlLine :: "string \<Rightarrow> string" where
  "htmlLine s = ReplaceAllString ''<strong>'' ''</strong>'' (EscapeString s)"

definition saleTime :: "time option \<Rightarrow> string" where
  "saleTime t = (case t of None \<Rightarrow> [] | Some t \<Rightarrow> Format_sale t)"

text \<open>\<open>None\<close> is \<open>ok = false\<close>; otherwise the subject, the lines and \<open>showResaleNote\<close>.\<close>

definition renderMilestone :: "Alert \<Rightarrow> (string \<times> string list \<times> bool) option" where
  "renderMilestone a =
     (let name = al_EventName a; kind = al_Kind a
      in if kind = ''onsale_announced'' then
           Some ([CHR 0xF0, CHR 0x9F, CHR 0x93, CHR 0x85] @ '' Onsale date announced: '' @ name,
             [''Ticketmaster has announced when **'' @ name @ ''** goes on sale.'',
              ''Public sale opens: **'' @ saleTime (al_PublicOnsaleStart a) @ ''**'',
              ''We'll email you again the moment it opens, so you don't need to keep checking.''] @
             (if al_EarliestPresaleStart a \<noteq> None
              then [''There's also a presale starting '' @ saleTime (al_EarliestPresaleStart a)
                    @ '' '' @ emdash @ '' we'll alert you for that too.'']
              else []),
             True)
         else if kind = ''presale_open'' then
           let n = al_EarliestPresaleName a;
               what = (if n \<noteq> []
                       then if Contains (ToLower n) ''presale'' then ''The '' @ n
                            else ''The '' @ n @ '' presale''
                       else ''A presale'')
           in Some ([CHR 0xF0, CHR 0x9F, CHR 0x94, CHR 0x91] @ '' Presale open now: '' @ name,
                [what @ '' for **'' @ name @ ''** is open right now '' @ emdash
                   @ '' ahead of the general public.'',
                 ''Presales often need a code, a fan-club membership, or a specific credit card. '' @
                 ''If you don't have access, you can still wait for the public sale.''] @
                (if al_PublicOnsaleStart a \<noteq> None
                 then [''General public sale opens **'' @ saleTime (al_PublicOnsaleStart a) @ ''**.'']
                 else if al_OnsaleTBD a
                 then [''The general public sale date hasn't been announced yet.'']
                 else []),
                True)
         else if kind = ''public_open'' \<or> kind = ''status_onsale'' then
           Some ([CHR 0xF0, CHR 0x9F, CHR 0x8E, CHR 0x9F, CHR 0xEF, CHR 0xB8, CHR 0x8F]
                 @ '' On sale now: '' @ name,
             [''Tickets for **'' @ name @ ''** are on sale to the general public right now.'',
              ''Popular events can sell out quickly, so it's worth going straight to the event page.''],
             False)
         else if kind = ''sale_closed'' then
           Some ([CHR 0xE2, CHR 0x8F, CHR 0xB0] @ '' Official sale closed: '' @ name,
             [''The official Ticketmaster sale for **'' @ name @ ''** has closed.'',
              ''**Resale tickets may still be available.** Open the event page below to check for '' @
              ''Verified Resale listings from other fans '' @ emdash
              @ '' those are sold separately from the '' @
              ''official sale and often stay available right up to the event.'',
              ''We can't see resale listings, so this is the one case worth checking manually.''],
             False)
         else if kind = ''cancelled'' then
           Some ([CHR 0xE2, CHR 0x9D, CHR 0x8C] @ '' Cancelled: '' @ name,
             [''**'' @ name @ ''** has been cancelled by the organiser.'',
              ''If you already bought tickets, refunds are handled by Ticketmaster '' @ emdash
              @ '' check the event '' @ ''page or your Ticketmaster account for details.'',
              ''We've stopped watching this event, since nothing further will happen.''],
             False)
         else if kind = ''rescheduled'' then
           Some ([CHR 0xF0, CHR 0x9F, CHR 0x94, CHR 0x84] @ '' Date changed: '' @ name,
             [''**'' @ name @ ''** has been postponed or rescheduled.'',
              ''Existing tickets are usually still valid for the new date, but check the event page to ''
              @ ''confirm '' @ emdash @ '' and to see the new date if it's been announced.'',
              ''Your watch is still active, so we'll keep watching it for you.''],
             False)
         else None)"

definition ctaLabel :: "string \<Rightarrow> string" where
  "ctaLabel kind =
     (if kind = ''presale_open'' then ''Open the presale on Ticketmaster''
      else if kind = ''public_open'' \<or> kind = ''status_onsale'' then ''Buy tickets on Ticketmaster''
      else if kind = ''sale_closed'' then ''Check for resale tickets on Ticketmaster''
      else if kind = ''cancelled'' \<or> kind = ''rescheduled'' then ''See the event page on Ticketmaster''
      else ''View on Ticketmaster'')"

definition buildBodies :: "Alert \<Rightarrow> string list \<Rightarrow> bool \<Rightarrow> string \<times> string" where
  "buildBodies a lines showResaleNote =
     (let venue = (if al_Venue a \<noteq> [] then '' @ '' @ al_Venue a else []);
          tb = plain (al_EventName a) @ venue @ nl @ nl;
          hb = ''<h2>'' @ htmlLine (al_EventName a @ venue) @ ''</h2>'';
          tb = tb @ concat (map (\<lambda>l. plain l @ nl @ nl) lines);
          hb = hb @ concat (map (\<lambda>l. ''<p>'' @ htmlLine l @ ''</p>'') lines);
          tb = tb @ (if showResaleNote then resaleNote @ nl @ nl else []);
          hb = hb @ (if showResaleNote
                     then ''<p style=\"color:#666;font-size:13px\">'' @ htmlLine resaleNote @ ''</p>''
                     else []);
          label = ctaLabel (al_Kind a);
          tb = tb @ (if al_EventURL a \<noteq> [] then label @ '': '' @ al_EventURL a @ nl else []);
          hb = hb @ (if al_EventURL a \<noteq> []
                     then ''<p><a href=\"'' @ EscapeString (al_EventURL a) @ ''\">'' @ EscapeString label
                          @ '' '' @ arrow @ ''</a></p>''
                     else [])
      in (tb, hb))"

text \<open>\<open>render\<close> (notifier.go).\<close>

definition render :: "Alert \<Rightarrow> Message option" where
  "render a =
     (case renderMilestone a of
        None \<Rightarrow> None
      | Some (subject, lines, showResaleNote) \<Rightarrow>
          let (txt, htmlBody) = buildBodies a lines showResaleNote;
              msg = \<lparr>m_To = al_ToEmail a, m_Subject = subject, m_HTMLBody = htmlBody,
                     m_TextBody = txt, m_Headers = []\<rparr>
          in Some (if al_UnsubscribeURL a \<noteq> []
             then msg\<lparr>
               m_TextBody := m_TextBody msg @ nl @ emdash @ nl @ ''Stop receiving these alerts: ''
                 @ al_UnsubscribeURL a @ nl,
               m_HTMLBody := m_HTMLBody msg @
                 ''<hr><p style=\"color:#666;font-size:12px\">'' @
                 ''You're receiving this because you set a watch on this event. '' @
                 ''<a href=\"'' @ EscapeString (al_UnsubscribeURL a)
                 @ ''\">Unsubscribe from all alerts</a>.</p>'',
               m_Headers := [(''List-Unsubscribe'', ''<'' @ al_UnsubscribeURL a @ ''>''),
                             (''List-Unsubscribe-Post'', ''List-Unsubscribe=One-Click'')]\<rparr>
             else msg))"

section \<open>Account mail (auth_mail.go)\<close>

definition VerificationMessage :: "string \<Rightarrow> string \<Rightarrow> Message" where
  "VerificationMessage to link =
     \<lparr>m_To = to, m_Subject = ''Confirm your email '' @ emdash @ '' TicketWatcher'',
      m_HTMLBody =
        ''<h2>Confirm your email</h2>'' @
        ''<p>Confirm your address to start receiving ticket alerts.</p>'' @
        ''<p><a href=\"'' @ link @ ''\">Verify my email '' @ arrow @ ''</a></p>'' @
        ''<p style=\"color:#666;font-size:13px\">This link expires in 24 hours. '' @
        ''If you didn't create this account, you can ignore this email.</p>'',
      m_TextBody =
        ''Confirm your email to start receiving ticket alerts:'' @ nl @ nl @ link @ nl @ nl @
        ''This link expires in 24 hours. If you didn't create this account, ignore this email.'',
      m_Headers = []\<rparr>"

definition PasswordResetMessage :: "string \<Rightarrow> string \<Rightarrow> Message" where
  "PasswordResetMessage to link =
     \<lparr>m_To = to, m_Subject = ''Reset your password '' @ emdash @ '' TicketWatcher'',
      m_HTMLBody =
        ''<h2>Reset your password</h2>'' @
        ''<p><a href=\"'' @ link @ ''\">Choose a new password '' @ arrow @ ''</a></p>'' @
        ''<p style=\"color:#666;font-size:13px\">This link expires in 1 hour and can be used once. '' @
        ''If you didn't request a reset, ignore this email '' @ emdash
        @ '' your password is unchanged.</p>'',
      m_TextBody =
        ''Reset your TicketWatcher password:'' @ nl @ nl @ link @ nl @ nl @
        ''This link expires in 1 hour and can be used once. '' @
        ''If you didn't request a reset, ignore this email '' @ emdash
        @ '' your password is unchanged.'',
      m_Headers = []\<rparr>"

section \<open>Escaping and emphasis\<close>

lemma EscapeString_Nil [simp]: "EscapeString [] = []"
  by (simp add: EscapeString_def)

lemma EscapeString_Cons: "EscapeString (c # cs) = escape_char c @ EscapeString cs"
  by (simp add: EscapeString_def)

lemma EscapeString_append: "EscapeString (s @ t) = EscapeString s @ EscapeString t"
  by (simp add: EscapeString_def)

lemma escape_char_shape:
  "(escape_char c = [c] \<and> c \<noteq> CHR ''&'') \<or>
   (\<exists>t. escape_char c = CHR ''&'' # t \<and> CHR ''*'' \<notin> set t \<and> CHR 0x0A \<notin> set t \<and>
        c \<noteq> CHR ''*'' \<and> c \<noteq> CHR 0x0A)"
  by simp

lemma HasPrefix_Escape: "HasPrefix (EscapeString s) ''**'' = HasPrefix s ''**''"
proof -
  have star: "HasPrefix (EscapeString t) ''*'' = HasPrefix t ''*''" for t
    using escape_char_shape [of "hd t"] by (cases t) (auto simp: EscapeString_Cons simp del: escape_char.simps)
  show ?thesis
    using escape_char_shape [of "hd s"] star [of "tl s"]
    by (cases s) (auto simp: EscapeString_Cons simp del: escape_char.simps)
qed

lemma HasPrefix_stars: "HasPrefix s ''**'' \<Longrightarrow> s = ''**'' @ drop 2 s"
  by (auto simp: HasPrefix_iff)

lemma EscapeString_stars: "EscapeString (''**'' @ t) = ''**'' @ EscapeString t"
  by (simp add: EscapeString_Cons)

lemma drop_Escape: "HasPrefix s ''**'' \<Longrightarrow> drop 2 (EscapeString s) = EscapeString (drop 2 s)"
  using HasPrefix_stars [of s] EscapeString_stars [of "drop 2 s"] by (metis append_eq_conv_conj length_Cons list.size(3) numeral_2_eq_2)

lemma bold_end_run:
  assumes "CHR 0x0A \<notin> set (c # t)" and "CHR ''*'' \<notin> set t"
  shows "bold_end ((c # t) @ r) =
    (if HasPrefix r ''**'' then Some (c # t, drop 2 r)
     else map_option (\<lambda>(b, r). ((c # t) @ b, r)) (bold_end r))"
  using assms
proof (induction t arbitrary: c)
  case Nil
  then show ?case by simp
next
  case (Cons d t)
  then show ?case
    by (cases "bold_end r") (auto split: prod.split)
qed

lemma bold_end_Escape:
  "bold_end (EscapeString s) = map_option (map_prod EscapeString EscapeString) (bold_end s)"
proof (induction s)
  case (Cons c cs)
  show ?case
  proof (cases "c = CHR 0x0A")
    case True
    then show ?thesis by (simp add: EscapeString_Cons)
  next
    case False
    then obtain x t where e: "escape_char c = x # t" "CHR 0x0A \<notin> set (x # t)" "CHR ''*'' \<notin> set t"
      using escape_char_shape [of c] by (auto simp del: escape_char.simps)
    show ?thesis
      using bold_end_run [OF e(2,3), of "EscapeString cs"] False Cons.IH
      by (cases "bold_end cs")
        (auto simp: EscapeString_Cons e(1) HasPrefix_Escape drop_Escape simp del: escape_char.simps)
  qed
qed simp

lemma segments_Nil [simp]: "segments [] = []"
  by (simp add: segments.simps)

lemma segments_bold:
  "HasPrefix s ''**'' \<Longrightarrow> bold_end (drop 2 s) = Some (b, r) \<Longrightarrow> segments s = Bold b # segments r"
  by (subst segments.simps) (cases s; simp)

lemma segments_plain:
  "\<not> (HasPrefix (c # cs) ''**'' \<and> bold_end (drop 2 (c # cs)) \<noteq> None) \<Longrightarrow>
    segments (c # cs) = Plain [c] # segments cs"
  by (subst segments.simps) (auto split: option.split)

lemma segments_cases:
  obtains (nil) "s = []"
  | (bold) b r where "HasPrefix s ''**''" "bold_end (drop 2 s) = Some (b, r)"
  | (plain) c cs where "s = c # cs" "\<not> (HasPrefix s ''**'' \<and> bold_end (drop 2 s) \<noteq> None)"
  by (cases s) auto

lemma segments_run:
  "CHR ''*'' \<notin> set t \<Longrightarrow> segments (t @ r) = map (\<lambda>c. Plain [c]) t @ segments r"
  by (induction t) (auto simp: segments_plain)

text \<open>The whole of a line's emphasis: the HTML of a line is its segments, each escaped, the bold
  ones between strong tags; its plain text is the same segments without the stars.\<close>

definition html_segment :: "segment \<Rightarrow> string" where
  "html_segment g = (case g of Plain t \<Rightarrow> EscapeString t
                       | Bold b \<Rightarrow> ''<strong>'' @ EscapeString b @ ''</strong>'')"

definition segment_text :: "segment \<Rightarrow> string" where
  "segment_text g = (case g of Plain t \<Rightarrow> t | Bold b \<Rightarrow> b)"

lemma plain_segments: "plain s = concat (map segment_text (segments s))"
  unfolding plain_def ReplaceAllString_def segment_text_def [abs_def] by simp

lemma htmlLine_segments: "htmlLine s = concat (map html_segment (segments s))"
proof (induction "length s" arbitrary: s rule: less_induct)
  case less
  let ?f = "\<lambda>g. case g of Plain t \<Rightarrow> t | Bold b \<Rightarrow> ''<strong>'' @ b @ ''</strong>''"
  have line: "htmlLine t = concat (map ?f (segments (EscapeString t)))" for t
    by (simp add: htmlLine_def ReplaceAllString_def)
  show ?case
  proof (cases s rule: segments_cases)
    case nil
    then show ?thesis by (simp add: line)
  next
    case (bold b r)
    have "length r < length s" using bold_end_length [OF bold(2)] by simp
    then have IH: "htmlLine r = concat (map html_segment (segments r))" by (rule less)
    have "segments (EscapeString s) = Bold (EscapeString b) # segments (EscapeString r)"
      using bold by (intro segments_bold) (simp_all add: HasPrefix_Escape drop_Escape bold_end_Escape)
    then show ?thesis
      using segments_bold [OF bold] IH by (simp add: line html_segment_def)
  next
    case (plain c cs)
    have IH: "htmlLine cs = concat (map html_segment (segments cs))" using less plain by simp
    have s: "segments s = Plain [c] # segments cs" using plain segments_plain by simp
    have "segments (EscapeString s) = map (\<lambda>c. Plain [c]) (escape_char c) @ segments (EscapeString cs)"
    proof (cases "c = CHR ''*''")
      case True
      then have es: "EscapeString s = c # EscapeString cs" using plain by (simp add: EscapeString_Cons)
      have "\<not> (HasPrefix (EscapeString s) ''**'' \<and> bold_end (drop 2 (EscapeString s)) \<noteq> None)"
        using plain(2) by (auto simp: HasPrefix_Escape drop_Escape bold_end_Escape)
      then show ?thesis using True by (simp add: es segments_plain)
    next
      case False
      then have "CHR ''*'' \<notin> set (escape_char c)" using escape_char_shape [of c] by auto
      then show ?thesis using plain by (simp add: EscapeString_Cons segments_run del: escape_char.simps)
    qed
    then have "htmlLine s = escape_char c @ htmlLine cs"
      by (simp add: line comp_def del: escape_char.simps)
    then show ?thesis by (simp add: s IH html_segment_def EscapeString_def)
  qed
qed

section \<open>Tags\<close>

text \<open>What a parser finds between angle brackets.\<close>

function tags :: "string \<Rightarrow> string list" where
  "tags [] = []"
| "tags (c # cs) =
     (if c = CHR ''<'' then takeWhile (\<lambda>x. x \<noteq> CHR ''>'') cs # tags (dropWhile (\<lambda>x. x \<noteq> CHR ''>'') cs)
      else tags cs)"
  by pat_completeness auto
termination
  by (relation "measure length") (simp_all add: le_imp_less_Suc length_dropWhile_le)

lemma tags_text: "CHR ''<'' \<notin> set t \<Longrightarrow> tags (t @ s) = tags s"
  by (induction t) auto

lemma tags_tag:
  assumes "CHR ''>'' \<notin> set t"
  shows "tags (CHR ''<'' # t @ CHR ''>'' # s) = t # tags s"
  using while_split [OF assms, of s] by simp

text \<open>\<open>tidy A s\<close>: the text \<open>s\<close>, wherever it stands outside a tag, adds only tags of \<open>A\<close> and
  leaves the parser outside a tag.\<close>

definition tidy :: "string set \<Rightarrow> string \<Rightarrow> bool" where
  "tidy A s \<longleftrightarrow> (\<forall>r. set (tags (s @ r)) \<subseteq> A \<union> set (tags r))"

lemma tidy_tags: "tidy A s \<Longrightarrow> set (tags s) \<subseteq> A"
  unfolding tidy_def by (drule spec [of _ "[]"]) simp

lemma tidy_text: "CHR ''<'' \<notin> set t \<Longrightarrow> tidy A t"
  by (simp add: tidy_def tags_text)

lemma tidy_append: "tidy A s \<Longrightarrow> tidy A t \<Longrightarrow> tidy A (s @ t)"
  unfolding tidy_def by (metis (no_types, opaque_lifting) append_assoc dual_order.trans sup.bounded_iff sup.cobounded1)

lemma tidy_tag: "t \<in> A \<Longrightarrow> CHR ''>'' \<notin> set t \<Longrightarrow> tidy A (''<'' @ t @ ''>'')"
  unfolding tidy_def by (simp add: tags_tag del: tags.simps)

lemma tidy_concat: "(\<And>x. x \<in> set xs \<Longrightarrow> tidy A (f x)) \<Longrightarrow> tidy A (concat (map f xs))"
proof (induction xs)
  case (Cons x xs)
  then show ?case by (simp add: tidy_append)
qed (simp add: tidy_text)

lemma tidy_Escape: "tidy A (EscapeString s)"
  by (simp add: tidy_text EscapeString_safe)

text \<open>The tags of the template; the two addresses appear escaped, so they close no quote.\<close>

definition template_tags :: "Alert \<Rightarrow> string list" where
  "template_tags a =
     [''h2'', ''/h2'', ''p'', ''/p'', ''strong'', ''/strong'', ''hr'', ''/a'',
      ''p style=\"color:#666;font-size:13px\"'', ''p style=\"color:#666;font-size:12px\"'',
      ''a href=\"'' @ EscapeString (al_EventURL a) @ ''\"'',
      ''a href=\"'' @ EscapeString (al_UnsubscribeURL a) @ ''\"'']"

lemma tidy_htmlLine:
  assumes "''strong'' \<in> A" and "''/strong'' \<in> A"
  shows "tidy A (htmlLine s)"
proof -
  have tag: "tidy A ''<strong>''" "tidy A ''</strong>''"
    using tidy_tag [OF assms(1)] tidy_tag [OF assms(2)] by simp_all
  have "tidy A (html_segment g)" for g
    using tidy_append [OF tag(1) tidy_append [OF tidy_Escape tag(2)]]
    by (cases g) (simp_all add: html_segment_def tidy_Escape)
  then show ?thesis unfolding htmlLine_segments by (rule tidy_concat)
qed

lemma tidy_template:
  fixes a :: Alert
  defines "A \<equiv> set (template_tags a)"
  shows "tidy A ''<h2>''" "tidy A ''</h2>''" "tidy A ''<p>''" "tidy A ''</p>''" "tidy A ''<hr>''"
    "tidy A ''</a>''" "tidy A ''</a></p>''"
    "tidy A ''<p style=\"color:#666;font-size:13px\">''"
    "tidy A ''<p style=\"color:#666;font-size:12px\">''"
    "tidy A (''<a href=\"'' @ EscapeString (al_EventURL a) @ ''\">'')"
    "tidy A (''<a href=\"'' @ EscapeString (al_UnsubscribeURL a) @ ''\">'')"
    "tidy A (htmlLine s)"
proof -
  have tag: "t \<in> set (template_tags a) \<Longrightarrow> CHR ''>'' \<notin> set t \<Longrightarrow> tidy A (''<'' @ t @ ''>'')" for t
    unfolding A_def by (rule tidy_tag)
  note m = template_tags_def EscapeString_safe
  show "tidy A ''<h2>''" using tag [of "''h2''"] by (simp add: m)
  show "tidy A ''</h2>''" using tag [of "''/h2''"] by (simp add: m)
  show "tidy A ''<p>''" using tag [of "''p''"] by (simp add: m)
  show p: "tidy A ''</p>''" using tag [of "''/p''"] by (simp add: m)
  show "tidy A ''<hr>''" using tag [of "''hr''"] by (simp add: m)
  show a: "tidy A ''</a>''" using tag [of "''/a''"] by (simp add: m)
  show "tidy A ''</a></p>''" using tidy_append [OF a p] by simp
  show "tidy A ''<p style=\"color:#666;font-size:13px\">''"
    using tag [of "''p style=\"color:#666;font-size:13px\"''"] by (simp add: m)
  show "tidy A ''<p style=\"color:#666;font-size:12px\">''"
    using tag [of "''p style=\"color:#666;font-size:12px\"''"] by (simp add: m)
  show "tidy A (''<a href=\"'' @ EscapeString (al_EventURL a) @ ''\">'')"
    using tag [of "''a href=\"'' @ EscapeString (al_EventURL a) @ ''\"''"] by (simp add: m)
  show "tidy A (''<a href=\"'' @ EscapeString (al_UnsubscribeURL a) @ ''\">'')"
    using tag [of "''a href=\"'' @ EscapeString (al_UnsubscribeURL a) @ ''\"''"] by (simp add: m)
  show "tidy A (htmlLine s)" unfolding A_def by (rule tidy_htmlLine) (simp_all add: m)
qed

lemma buildBodies_tidy: "tidy (set (template_tags a)) (snd (buildBodies a lines resale))"
proof -
  let ?A = "set (template_tags a)"
  note t = tidy_template [of a]
  have arrow: "tidy ?A ('' '' @ arrow)" by (rule tidy_text) (simp add: arrow_def)
  have nil: "tidy ?A []" by (rule tidy_text) simp
  have link: "tidy ?A (''<p><a href=\"'' @ EscapeString (al_EventURL a) @ ''\">'' @
      EscapeString label @ '' '' @ arrow @ ''</a></p>'')" for label
    using tidy_append [OF t(3) tidy_append [OF t(10) tidy_append [OF tidy_Escape
      tidy_append [OF arrow t(7)]]], of label] by simp
  have resale: "tidy ?A (''<p style=\"color:#666;font-size:13px\">'' @ htmlLine resaleNote @ ''</p>'')"
    by (intro tidy_append t)
  have lines: "tidy ?A (concat (map (\<lambda>l. ''<p>'' @ htmlLine l @ ''</p>'') lines))"
    by (intro tidy_concat tidy_append t)
  have head: "tidy ?A (''<h2>'' @ htmlLine n @ ''</h2>'')" for n by (intro tidy_append t)
  show ?thesis
    unfolding buildBodies_def Let_def snd_conv
    by (intro tidy_append head lines) (simp_all only: resale link nil if_split simp_thms)
qed

text \<open>No text of the event or the alert adds a tag to the mail.\<close>

lemma render_tags:
  assumes "render a = Some m"
  shows "set (tags (m_HTMLBody m)) \<subseteq> set (template_tags a)"
proof -
  let ?A = "set (template_tags a)"
  note t = tidy_template [of a]
  obtain subject lines resale where r: "renderMilestone a = Some (subject, lines, resale)"
    using assms by (auto simp: render_def split: option.splits)
  obtain tb hb where b: "buildBodies a lines resale = (tb, hb)" by (cases "buildBodies a lines resale")
  have body: "m_HTMLBody m = snd (buildBodies a lines resale) \<or>
      m_HTMLBody m = snd (buildBodies a lines resale) @ ''<hr>'' @
        ''<p style=\"color:#666;font-size:12px\">'' @
        ''You're receiving this because you set a watch on this event. '' @
        (''<a href=\"'' @ EscapeString (al_UnsubscribeURL a) @ ''\">'') @
        ''Unsubscribe from all alerts'' @ ''</a>'' @ ''.'' @ ''</p>''"
    using assms by (cases "al_UnsubscribeURL a = []") (auto simp: render_def Let_def r b)
  have words: "tidy ?A ''You're receiving this because you set a watch on this event. ''"
    "tidy ?A ''Unsubscribe from all alerts''" "tidy ?A ''.''"
    by (rule tidy_text; simp)+
  have "tidy ?A (m_HTMLBody m)"
    using body by (elim disjE; simp only:) (intro tidy_append buildBodies_tidy t words)+
  then show ?thesis by (rule tidy_tags)
qed

section \<open>Which alerts have copy\<close>

lemma render_Some_iff: "render a \<noteq> None \<longleftrightarrow> renderMilestone a \<noteq> None"
  by (simp add: render_def Let_def split: option.split prod.split)

lemma renderMilestone_kinds: "renderMilestone a \<noteq> None \<longleftrightarrow> (\<exists>k. al_Kind a = kind_string k)"
proof
  assume "\<exists>k. al_Kind a = kind_string k"
  then obtain k where "al_Kind a = kind_string k" ..
  then show "renderMilestone a \<noteq> None" by (cases k) (simp_all add: renderMilestone_def Let_def)
next
  assume *: "renderMilestone a \<noteq> None"
  have "al_Kind a \<in> kind_string ` {KindCancelled, KindRescheduled, KindOnsaleAnnounced,
    KindPresaleOpen, KindPublicOpen, KindStatusOnsale, KindSaleClosed}"
    using * by (auto simp: renderMilestone_def Let_def split: if_splits)
  then show "\<exists>k. al_Kind a = kind_string k" by blast
qed

lemma render_To: "render a = Some m \<Longrightarrow> m_To m = al_ToEmail a"
  by (auto simp: render_def Let_def split: option.splits prod.splits if_splits)

lemma render_Headers:
  "render a = Some m \<Longrightarrow> m_Headers m = (if al_UnsubscribeURL a = [] then []
     else [(''List-Unsubscribe'', ''<'' @ al_UnsubscribeURL a @ ''>''),
           (''List-Unsubscribe-Post'', ''List-Unsubscribe=One-Click'')])"
  by (auto simp: render_def Let_def split: option.splits prod.splits if_splits)

section \<open>Properties\<close>

text \<open>The two bodies of a mail show the same words: a line is cut into plain and bold segments,
  the text part is their text, and the HTML part is the same segments, escaped, the bold ones
  between strong tags. Emphasis is found in what Ticketmaster wrote, never in its escaped form.\<close>
lemma bodies_agree:
  "plain s = concat (map segment_text (segments s)) \<and>
   htmlLine s = concat (map html_segment (segments s))"
  using plain_segments htmlLine_segments by blast

text \<open>(C29) Whatever names, venues and addresses an alert carries, its HTML body holds no tag but those
  of the template, with the two links' addresses escaped inside them.\<close>
theorem mail_has_template_tags_only:
  "case render a of None \<Rightarrow> al_Kind a \<notin> range kind_string
   | Some m \<Rightarrow> set (tags (m_HTMLBody m)) \<subseteq> set (template_tags a)"
proof (cases "render a")
  case None
  then show ?thesis using render_Some_iff [of a] renderMilestone_kinds [of a] by auto
next
  case (Some m)
  then show ?thesis using render_tags by simp
qed

text \<open>Exactly the evaluator's milestones have copy. The mail goes to the alert's address; it
  carries the two unsubscribe headers exactly when the alert has an opt-out link.\<close>
lemma render_milestones:
  "(render a \<noteq> None \<longleftrightarrow> (\<exists>k. al_Kind a = kind_string k)) \<and>
   map_option m_To (render a) = map_option (\<lambda>_. al_ToEmail a) (render a) \<and>
   map_option m_Headers (render a) = map_option (\<lambda>_. if al_UnsubscribeURL a = [] then []
     else [(''List-Unsubscribe'', ''<'' @ al_UnsubscribeURL a @ ''>''),
           (''List-Unsubscribe-Post'', ''List-Unsubscribe=One-Click'')]) (render a)"
  using render_Some_iff [of a] renderMilestone_kinds [of a] render_To [of a] render_Headers [of a]
  by (cases "render a") auto

end
