(* ===== verification/Notifier.thy ===== *)
theory Notifier
  imports Render World
begin

text \<open>
  Delivery, \<open>internal/notifier\<close>: the \<open>Sender\<close> interface with its two implementations
  (\<open>log_sender.go\<close>, \<open>resend_sender.go\<close>) and \<open>Notify\<close> (\<open>notifier.go\<close>), which fans an alert out to
  every sender and records each success. The contract of the senders and of the store is the
  locale \<open>delivery\<close>; it is interpreted on both senders of the code over the world.
\<close>

section \<open>Interfaces\<close>

record 'w Sender =
  sd_Send :: "Message \<Rightarrow> ('w, unit result) prog"
  sd_Channel :: string

record 'w Notifier =
  nf_senders :: "'w Sender list"
  nf_InsertNotification :: "int \<Rightarrow> string \<Rightarrow> payload \<Rightarrow> ('w, notification result) prog"

section \<open>Notify (notifier.go)\<close>

definition alert_payload :: "Message \<Rightarrow> Alert \<Rightarrow> payload" where
  "alert_payload msg a =
     [(''subject'', m_Subject msg), (''event'', al_EventName a), (''kind'', al_Kind a),
      (''availability'', al_Availability a)]"

fun notify_senders :: "'w Notifier \<Rightarrow> Message \<Rightarrow> Alert \<Rightarrow> 'w Sender list \<Rightarrow> ('w, unit) prog" where
  "notify_senders n msg a [] = ret ()"
| "notify_senders n msg a (s # ss) =
     orElse (sd_Send s msg)
       (\<lambda>_. notify_senders n msg a ss)
       (\<lambda>_. andThen (nf_InsertNotification n (al_WatchID a) (sd_Channel s) (alert_payload msg a))
              (notify_senders n msg a ss))"

definition Notify :: "'w Notifier \<Rightarrow> Alert \<Rightarrow> ('w, unit) prog" where
  "Notify n a =
     (case render a of
        None \<Rightarrow> ret ()
      | Some msg \<Rightarrow> notify_senders n msg a (nf_senders n))"

section \<open>The log sender (log_sender.go)\<close>

fun replace_nl :: "string \<Rightarrow> string" where
  "replace_nl [] = []"
| "replace_nl (c # cs) = (if c = CHR 0x0A then CHR 0x0A # ''    '' @ replace_nl cs else c # replace_nl cs)"

definition indent :: "string \<Rightarrow> string" where
  "indent s = (if s = [] then [] else ''    '' @ replace_nl (TrimRight s (CHR 0x0A)))"

text \<open>The verb \<open>%q\<close> quotes the subject with a backslash before quotes and backslashes; it would
  also escape control characters, which are copied here.\<close>

definition quote :: "string \<Rightarrow> string" where
  "quote s =
     [CHR 0x22] @
     concat (map (\<lambda>c. if c = CHR 0x22 \<or> c = CHR 0x5C then [CHR 0x5C, c] else [c]) s) @ [CHR 0x22]"

definition log_line :: "Message \<Rightarrow> string" where
  "log_line msg =
     ''[notify:email] to='' @ m_To msg @ '' subject='' @ quote (m_Subject msg) @ nl
     @ indent (m_TextBody msg)"

definition LogSender :: "world Sender" where
  "LogSender =
     \<lparr>sd_Send = (\<lambda>msg. andThen (log_Print (log_line msg)) (ret (Inr ()))),
      sd_Channel = ''email''\<rparr>"

section \<open>The Resend sender (resend_sender.go)\<close>

datatype json_value = JStr string | JArr "string list" | JObj "(string \<times> string) list"

record ResendSender =
  rs_apiKey :: string
  rs_from :: string
  rs_endpoint :: string

definition resendEndpoint :: string where
  "resendEndpoint = ''https://api.resend.com/emails''"

definition NewResendSender :: "string \<Rightarrow> string \<Rightarrow> ResendSender" where
  "NewResendSender apiKey sender = \<lparr>rs_apiKey = apiKey, rs_from = sender, rs_endpoint = resendEndpoint\<rparr>"

definition resend_payload :: "ResendSender \<Rightarrow> Message \<Rightarrow> (string \<times> json_value) list" where
  "resend_payload r msg =
     [(''from'', JStr (rs_from r)), (''to'', JArr [m_To msg]), (''subject'', JStr (m_Subject msg)),
      (''html'', JStr (m_HTMLBody msg)), (''text'', JStr (m_TextBody msg))] @
     (if length (m_Headers msg) > 0 then [(''headers'', JObj (m_Headers msg))] else [])"

text \<open>\<open>json.Marshal\<close> and the check of \<open>http.NewRequest\<close> are the first two arguments.\<close>

definition resend_request ::
  "((string \<times> json_value) list \<Rightarrow> string) \<Rightarrow> ResendSender \<Rightarrow> Message \<Rightarrow> http_request" where
  "resend_request marshal r msg =
     \<lparr>rq_Endpoint = rs_endpoint r, rq_Authorization = ''Bearer '' @ rs_apiKey r,
      rq_Body = marshal (resend_payload r msg)\<rparr>"

definition ResendSender_Send ::
  "((string \<times> json_value) list \<Rightarrow> string) \<Rightarrow> (string \<Rightarrow> unit result) \<Rightarrow> ResendSender
    \<Rightarrow> Message \<Rightarrow> (world, unit result) prog" where
  "ResendSender_Send marshal newRequest r msg =
     (case newRequest (rs_endpoint r) of
        Inl e \<Rightarrow> ret (Inl e)
      | Inr _ \<Rightarrow>
          orRet (http_Do (resend_request marshal r msg)) (\<lambda>resp.
          if rp_StatusCode resp \<ge> 300
          then ret (Inl (Opaque (''resend: status '' @ FormatInt (rp_StatusCode resp) @ '': '' @
                 (case rp_Body resp of Inl _ \<Rightarrow> [] | Inr b \<Rightarrow> take 500 b))))
          else ret (Inr ())))"

definition resend_sender ::
  "((string \<times> json_value) list \<Rightarrow> string) \<Rightarrow> (string \<Rightarrow> unit result) \<Rightarrow> ResendSender
    \<Rightarrow> world Sender" where
  "resend_sender marshal newRequest r =
     \<lparr>sd_Send = ResendSender_Send marshal newRequest r, sd_Channel = ''email''\<rparr>"

definition world_notifier :: "world Sender list \<Rightarrow> world Notifier" where
  "world_notifier senders =
     \<lparr>nf_senders = senders, nf_InsertNotification = (\<lambda>w c p. exec (InsertNotification w c p))\<rparr>"

text \<open>The sender main.go picks.\<close>

definition email_sender ::
  "((string \<times> json_value) list \<Rightarrow> string) \<Rightarrow> (string \<Rightarrow> unit result) \<Rightarrow> string \<Rightarrow> string
    \<Rightarrow> world Sender" where
  "email_sender marshal newRequest apiKey notifyFrom =
     (if apiKey \<noteq> [] then resend_sender marshal newRequest (NewResendSender apiKey notifyFrom)
      else LogSender)"

lemma email_sender_tables:
  "tables (snd (sd_Send (email_sender marshal newRequest key from_addr) msg w)) = tables w"
  by (simp add: email_sender_def LogSender_def resend_sender_def ResendSender_Send_def prog_defs
      split_beta split: sum.split)

section \<open>The contract of delivery\<close>

text \<open>
  \<open>sent\<close> is what a sender's medium has accepted, \<open>stored\<close> the notifications recorded, as
  (watch, channel). Sending appends to the one when it succeeds, and only then; recording
  appends to the other when it is acknowledged, and may have when it is not.
\<close>

locale delivery =
  fixes n :: "'w Notifier"
    and pack :: "Message \<Rightarrow> 'm"
    and sent :: "'w \<Rightarrow> 'm list"
    and stored :: "'w \<Rightarrow> (int \<times> string) list"
  assumes send_ok: "s \<in> set (nf_senders n) \<Longrightarrow> sd_Send s msg w = (Inr u, w') \<Longrightarrow>
      sent w' = sent w @ [pack msg] \<and> stored w' = stored w"
    and send_fails: "s \<in> set (nf_senders n) \<Longrightarrow> sd_Send s msg w = (Inl e, w') \<Longrightarrow>
      sent w' = sent w \<and> stored w' = stored w"
    and insert_ok: "nf_InsertNotification n wid c p w = (Inr r, w') \<Longrightarrow>
      sent w' = sent w \<and> stored w' = stored w @ [(wid, c)]"
    and insert_fails: "nf_InsertNotification n wid c p w = (Inl e, w') \<Longrightarrow>
      sent w' = sent w \<and> (stored w' = stored w \<or> stored w' = stored w @ [(wid, c)])"
begin

text \<open>\<open>k\<close> messages went out, and the notifications recorded are at most one for each.\<close>

definition delivered :: "int \<Rightarrow> 'm \<Rightarrow> nat \<Rightarrow> string list \<Rightarrow> 'w \<Rightarrow> 'w \<Rightarrow> bool" where
  "delivered wid m k cs w w' \<longleftrightarrow>
     sent w' = sent w @ replicate k m \<and> stored w' = stored w @ map (Pair wid) cs \<and> length cs \<le> k"

lemma notify_senders_delivers:
  assumes "set ss \<subseteq> set (nf_senders n)"
  shows "\<exists>k cs. delivered (al_WatchID a) (pack msg) k cs w (snd (notify_senders n msg a ss w)) \<and>
    k \<le> length ss \<and> set cs \<subseteq> sd_Channel ` set ss"
  using assms
proof (induction ss arbitrary: w)
  case Nil
  show ?case by (auto simp: delivered_def)
next
  case (Cons s ss)
  obtain r w1 where send: "sd_Send s msg w = (r, w1)" by (cases "sd_Send s msg w")
  show ?case
  proof (cases r)
    case (Inl e)
    obtain k cs where IH: "delivered (al_WatchID a) (pack msg) k cs w1
        (snd (notify_senders n msg a ss w1))" "k \<le> length ss" "set cs \<subseteq> sd_Channel ` set ss"
      using Cons by force
    have "sent w1 = sent w" "stored w1 = stored w"
      using send_fails [of s msg w e w1] send Inl Cons.prems by simp_all
    then show ?thesis
      using IH send Inl
      by (intro exI [of _ k] exI [of _ cs]) (auto simp: delivered_def prog_defs)
  next
    case (Inr u)
    obtain q w2 where ins: "nf_InsertNotification n (al_WatchID a) (sd_Channel s)
        (alert_payload msg a) w1 = (q, w2)" by force
    obtain k cs where IH: "delivered (al_WatchID a) (pack msg) k cs w2
        (snd (notify_senders n msg a ss w2))" "k \<le> length ss" "set cs \<subseteq> sd_Channel ` set ss"
      using Cons by force
    have w1: "sent w1 = sent w @ [pack msg]" "stored w1 = stored w"
      using send_ok [of s msg w u w1] send Inr Cons.prems by simp_all
    have "sent w2 = sent w1 \<and>
        (stored w2 = stored w1 \<or> stored w2 = stored w1 @ [(al_WatchID a, sd_Channel s)])"
      using ins insert_ok insert_fails by (cases q) blast+
    then obtain ds where w2: "sent w2 = sent w1" "stored w2 = stored w1 @ map (Pair (al_WatchID a)) ds"
        "length ds \<le> 1" "set ds \<subseteq> {sd_Channel s}"
      by (metis append_Nil2 empty_set empty_subsetI le_numeral_extra(4) length_Cons list.map(1)
          list.set(2) list.simps(9) list.size(3) One_nat_def order_refl zero_le)
    show ?thesis
      using IH send Inr ins w1 w2
      by (intro exI [of _ "Suc k"] exI [of _ "ds @ cs"]) (auto simp: delivered_def prog_defs)
  qed
qed

lemma Notify_delivers:
  "case render a of
     None \<Rightarrow> snd (Notify n a w) = w
   | Some msg \<Rightarrow> \<exists>k cs. delivered (al_WatchID a) (pack msg) k cs w (snd (Notify n a w)) \<and>
       k \<le> length (nf_senders n) \<and> set cs \<subseteq> sd_Channel ` set (nf_senders n)"
  using notify_senders_delivers [of "nf_senders n" a _ w]
  by (simp add: Notify_def split: option.split)

end

section \<open>The code's senders keep the contract\<close>

definition stored_notifications :: "world \<Rightarrow> (int \<times> string) list" where
  "stored_notifications w = map (\<lambda>r. (n_WatchID r, n_Channel r)) (notifications (tables w))"

text \<open>What the provider accepted: the bodies of the exchanges answered below 300.\<close>

definition accepted :: "world \<Rightarrow> string list" where
  "accepted w =
     map (\<lambda>(q, r). rq_Body q)
       (filter (\<lambda>(q, r). case r of Inl _ \<Rightarrow> False | Inr p \<Rightarrow> rp_StatusCode p < 300) (wire w))"

lemma exec_InsertNotification:
  assumes "exec (InsertNotification wid c p) w = (r, w')"
  shows "(case r of
      Inr _ \<Rightarrow> stored_notifications w' = stored_notifications w @ [(wid, c)]
    | Inl _ \<Rightarrow> stored_notifications w' = stored_notifications w \<or>
              stored_notifications w' = stored_notifications w @ [(wid, c)]) \<and>
    console w' = console w \<and> wire w' = wire w"
proof -
  let ?q = "InsertNotification wid c p"
  have w': "w' = snd (exec ?q w)" and r: "r = fst (exec ?q w)" using assms by simp_all
  have frame: "console w' = console w" "wire w' = wire w" by (simp_all add: w')
  have ins: "(case fst (?q t d) of
      Inr _ \<Rightarrow> map (\<lambda>r. (n_WatchID r, n_Channel r)) (notifications (snd (?q t d))) =
               map (\<lambda>r. (n_WatchID r, n_Channel r)) (notifications d) @ [(wid, c)]
    | Inl _ \<Rightarrow> notifications (snd (?q t d)) = notifications d)" for t d
    by (simp add: InsertNotification_def Let_def)
  show ?thesis
  proof (cases rule: exec_cases [of w ?q])
    case (ran t)
    then show ?thesis
      using ins [of t "tables w"] frame unfolding r w' stored_notifications_def
      by (auto split: sum.splits)
  next
    case (lost e)
    then show ?thesis using frame unfolding r w' stored_notifications_def by simp
  qed
qed

interpretation logd: delivery "world_notifier [LogSender]" log_line console stored_notifications
  by unfold_locales
    (auto simp: world_notifier_def LogSender_def prog_defs log_Print_def stored_notifications_def
      dest!: exec_InsertNotification)

lemma ResendSender_Send_run:
  assumes "ResendSender_Send marshal newRequest r msg w = (res, w')"
  shows "stored_notifications w' = stored_notifications w \<and>
    accepted w' = accepted w @
      (case res of Inl _ \<Rightarrow> [] | Inr _ \<Rightarrow> [rq_Body (resend_request marshal r msg)])"
  using assms
  by (auto simp: ResendSender_Send_def prog_defs http_Do_def Let_def tick_def accepted_def stored_notifications_def
      split: sum.splits list.splits if_splits)

interpretation resendd: delivery "world_notifier [resend_sender marshal newRequest r]"
    "\<lambda>msg. rq_Body (resend_request marshal r msg)" accepted stored_notifications
  for marshal newRequest r
  by unfold_locales
    (auto simp: world_notifier_def resend_sender_def accepted_def
      dest!: exec_InsertNotification ResendSender_Send_run)

lemma sound_Notify_InsertNotification: "sound (exec (InsertNotification w c p))"
  by (rule sound_exec) (rule InsertNotification_keeps)

section \<open>The log sender's indentation\<close>

lemma replace_nl_lines: "CHR 0x0A \<notin> set s \<Longrightarrow> replace_nl s = s"
  by (induction s) auto

lemma indent_one_line: "CHR 0x0A \<notin> set s \<Longrightarrow> s \<noteq> [] \<Longrightarrow> indent s = ''    '' @ s"
proof -
  assume s: "CHR 0x0A \<notin> set s" "s \<noteq> []"
  then have "dropWhile (\<lambda>x. x = CHR 0x0A) (rev s) = rev s"
    by (cases s rule: rev_cases) auto
  then show ?thesis using s by (simp add: indent_def TrimRight_def replace_nl_lines)
qed

section \<open>Properties\<close>

text \<open>With the log sender, an alert prints its mail once and records at most one notification,
  for its watch and the email channel; an alert without copy does nothing at all.\<close>
lemma Notify_logs_once:
  "case render a of
     None \<Rightarrow> snd (Notify (world_notifier [LogSender]) a w) = w
   | Some msg \<Rightarrow> \<exists>k cs. k \<le> 1 \<and> length cs \<le> k \<and> set cs \<subseteq> {''email''} \<and>
       console (snd (Notify (world_notifier [LogSender]) a w)) =
         console w @ replicate k (log_line msg) \<and>
       stored_notifications (snd (Notify (world_notifier [LogSender]) a w)) =
         stored_notifications w @ map (Pair (al_WatchID a)) cs"
  using logd.Notify_delivers [of a w]
  by (fastforce simp: logd.delivered_def world_notifier_def LogSender_def split: option.splits)

text \<open>(C30) With the Resend sender, a notification is recorded only for a request the provider
  answered below 300, whatever the network and the database do; at most one request is accepted.\<close>
theorem Notify_records_accepted:
  "case render a of
     None \<Rightarrow> snd (Notify (world_notifier [resend_sender marshal newRequest r]) a w) = w
   | Some msg \<Rightarrow> \<exists>k cs. k \<le> 1 \<and> length cs \<le> k \<and> set cs \<subseteq> {''email''} \<and>
       accepted (snd (Notify (world_notifier [resend_sender marshal newRequest r]) a w)) =
         accepted w @ replicate k (marshal (resend_payload r msg)) \<and>
       stored_notifications (snd (Notify (world_notifier [resend_sender marshal newRequest r]) a w)) =
         stored_notifications w @ map (Pair (al_WatchID a)) cs"
  using resendd.Notify_delivers [of marshal newRequest r a w]
  by (fastforce simp: resendd.delivered_def world_notifier_def resend_sender_def resend_request_def
      split: option.splits)

end
