(* ===== verification/Worker.thy ===== *)
theory Worker
  imports Evaluator Ticketmaster Notifier
begin

text \<open>
  \<open>internal/worker/worker.go\<close>: one poll of one event. Several workers run at once, on the same
  event or on others, together with the HTTP handlers; what they share is the database, and what
  is atomic is one statement. A poll is therefore a value of \<open>'a act\<close>: the next call the code
  makes to one of its collaborators (the methods of \<open>Store\<close>, \<open>Fetcher\<close> and \<open>Notifier\<close>, and the
  clock) with what it does with the answer. \<open>run\<close> executes it alone against the collaborators
  of \<open>Deps\<close>; theory \<open>Pool\<close> interleaves any number of them.
\<close>

section \<open>Calls\<close>

datatype 'a act =
    Return 'a
  | DoGetEvent int "event result \<Rightarrow> 'a act"
  | DoFetch string "EventSnapshot result \<Rightarrow> 'a act"
  | DoInsertSnapshot int "string option" "availabilitySnapshot result \<Rightarrow> 'a act"
  | DoMinPollInterval int "int result \<Rightarrow> 'a act"
  | DoNow "time \<Rightarrow> 'a act"
  | DoUpdateEventLatest updateEventLatestParams "unit result \<Rightarrow> 'a act"
  | DoListActiveWatches int "activeWatchRow list result \<Rightarrow> 'a act"
  | DoClaimWatchAlert int string "int result \<Rightarrow> 'a act"
  | DoNotify Alert "unit \<Rightarrow> 'a act"
  | DoMarkNotified int "unit result \<Rightarrow> 'a act"
  | DoSetLastEvaluation int bool "unit result \<Rightarrow> 'a act"
  | DoCloseWatches int "int result \<Rightarrow> 'a act"

primrec act_bind :: "'a act \<Rightarrow> ('a \<Rightarrow> 'b act) \<Rightarrow> 'b act" where
  "act_bind (Return x) f = f x"
| "act_bind (DoGetEvent i k) f = DoGetEvent i (\<lambda>r. act_bind (k r) f)"
| "act_bind (DoFetch i k) f = DoFetch i (\<lambda>r. act_bind (k r) f)"
| "act_bind (DoInsertSnapshot i s k) f = DoInsertSnapshot i s (\<lambda>r. act_bind (k r) f)"
| "act_bind (DoMinPollInterval i k) f = DoMinPollInterval i (\<lambda>r. act_bind (k r) f)"
| "act_bind (DoNow k) f = DoNow (\<lambda>r. act_bind (k r) f)"
| "act_bind (DoUpdateEventLatest p k) f = DoUpdateEventLatest p (\<lambda>r. act_bind (k r) f)"
| "act_bind (DoListActiveWatches i k) f = DoListActiveWatches i (\<lambda>r. act_bind (k r) f)"
| "act_bind (DoClaimWatchAlert i s k) f = DoClaimWatchAlert i s (\<lambda>r. act_bind (k r) f)"
| "act_bind (DoNotify a k) f = DoNotify a (\<lambda>r. act_bind (k r) f)"
| "act_bind (DoMarkNotified i k) f = DoMarkNotified i (\<lambda>r. act_bind (k r) f)"
| "act_bind (DoSetLastEvaluation i b k) f = DoSetLastEvaluation i b (\<lambda>r. act_bind (k r) f)"
| "act_bind (DoCloseWatches i k) f = DoCloseWatches i (\<lambda>r. act_bind (k r) f)"

section \<open>The code\<close>

definition needsClaim :: "Kind \<Rightarrow> bool" where
  "needsClaim k \<longleftrightarrow> k \<noteq> KindStatusOnsale"

definition eqStrPtr :: "string option \<Rightarrow> string option \<Rightarrow> bool" where
  "eqStrPtr a b = (case (a, b) of (Some x, Some y) \<Rightarrow> x = y | _ \<Rightarrow> a = b)"

definition changed :: "event \<Rightarrow> string \<Rightarrow> bool" where
  "changed ev avail \<longleftrightarrow> \<not> eqStrPtr (e_LastAvailability ev) (Some avail)"

definition strPtr :: "string \<Rightarrow> string option" where
  "strPtr s = (if s = [] then None else Some s)"

text \<open>What the closure \<open>UnsubscribeURL\<close> is: absent, or a function of the user.\<close>

type_synonym unsubscriber = "(int \<Rightarrow> string) option"

definition alert_of ::
  "event \<Rightarrow> EventSnapshot \<Rightarrow> Observation \<Rightarrow> unsubscriber \<Rightarrow> activeWatchRow \<Rightarrow> Kind \<Rightarrow> Alert" where
  "alert_of ev snap obs unsub w kind =
     \<lparr>al_WatchID = r_ID w, al_ToEmail = r_UserEmail w, al_EventName = e_Name ev,
      al_Venue = e_Venue ev, al_EventURL = e_Url ev, al_Kind = kind_string kind,
      al_Availability = ob_Availability obs,
      al_PublicOnsaleStart = sn_PublicOnsaleStart snap,
      al_EarliestPresaleStart = sn_EarliestPresaleStart snap,
      al_EarliestPresaleName = sn_EarliestPresaleName snap,
      al_OnsaleTBD = sn_OnsaleTBD snap,
      al_UnsubscribeURL = (case unsub of None \<Rightarrow> [] | Some f \<Rightarrow> f (r_UserID w))\<rparr>"

text \<open>
  The loop over \<open>res.Kinds\<close>: \<open>has_notifier\<close> is \<open>d.Notifier != nil\<close>. The result is the error the
  function returns from inside the loop, or \<open>Inr ()\<close> when the loop is done.
\<close>

fun alert_kinds ::
  "bool \<Rightarrow> (Kind \<Rightarrow> Alert) \<Rightarrow> activeWatchRow \<Rightarrow> Kind list \<Rightarrow> unit result act" where
  "alert_kinds has_notifier mk w [] = Return (Inr ())"
| "alert_kinds has_notifier mk w (kind # kinds) =
     (let continue = alert_kinds has_notifier mk w kinds;
          mark = DoMarkNotified (r_ID w) (\<lambda>r. case r of
                   Inl e \<Rightarrow> Return (Inl (Wrap ''mark notified: '' e))
                 | Inr _ \<Rightarrow> continue);
          deliver = (if \<not> ts_Valid (r_EmailVerifiedAt w) then continue
                     else if ts_Valid (r_UnsubscribedAt w) then continue
                     else if has_notifier then DoNotify (mk kind) (\<lambda>_. mark)
                     else mark)
      in if needsClaim kind
         then DoClaimWatchAlert (r_ID w) (kind_string kind) (\<lambda>r. case r of
                Inl e \<Rightarrow> Return (Inl (Wrap (''claim alert '' @ kind_string kind @ '': '') e))
              | Inr claimed \<Rightarrow> if claimed = 0 then continue else deliver)
         else deliver)"

text \<open>The loop over the watches; the result carries \<open>closeEvent\<close>.\<close>

fun alert_watches ::
  "bool \<Rightarrow> (activeWatchRow \<Rightarrow> Kind \<Rightarrow> Alert) \<Rightarrow> Observation \<Rightarrow> bool \<Rightarrow> activeWatchRow list \<Rightarrow> bool
    \<Rightarrow> bool result act" where
  "alert_watches has_notifier mk obs knew [] closeEvent = Return (Inr closeEvent)"
| "alert_watches has_notifier mk obs knew (w # ws) closeEvent =
     (let res = Evaluate obs \<lparr>pr_KnewPublicStart = knew, pr_LastEvaluation = r_LastEvaluation w,
                              pr_WatchCreatedAt = ts_Time (r_CreatedAt w)\<rparr>;
          closeEvent = (if res_CloseWatch res then True else closeEvent)
      in act_bind (alert_kinds has_notifier (mk w) w (res_Kinds res)) (\<lambda>r. case r of
           Inl e \<Rightarrow> Return (Inl e)
         | Inr _ \<Rightarrow> DoSetLastEvaluation (r_ID w) (res_StatusOnsale res) (\<lambda>r. case r of
             Inl e \<Rightarrow> Return (Inl (Wrap ''set last evaluation: '' e))
           | Inr _ \<Rightarrow> alert_watches has_notifier mk obs knew ws closeEvent)))"

definition evaluateWatches ::
  "bool \<Rightarrow> unsubscriber \<Rightarrow> event \<Rightarrow> EventSnapshot \<Rightarrow> Observation \<Rightarrow> bool \<Rightarrow> unit result act" where
  "evaluateWatches has_notifier unsub ev snap obs knewPublicStart =
     DoListActiveWatches (e_ID ev) (\<lambda>r. case r of
       Inl e \<Rightarrow> Return (Inl (Wrap ''list watches: '' e))
     | Inr rows \<Rightarrow>
         act_bind (alert_watches has_notifier (alert_of ev snap obs unsub) obs knewPublicStart
                     rows False) (\<lambda>r. case r of
           Inl e \<Rightarrow> Return (Inl e)
         | Inr closeEvent \<Rightarrow>
             if closeEvent
             then DoCloseWatches (e_ID ev) (\<lambda>r. case r of
                    Inl e \<Rightarrow> Return (Inl (Wrap ''close watches: '' e))
                  | Inr n \<Rightarrow> Return (Inr ()))
             else Return (Inr ())))"

definition update_params :: "int \<Rightarrow> EventSnapshot \<Rightarrow> time \<Rightarrow> updateEventLatestParams" where
  "update_params eventID snap next_poll =
     \<lparr>p_ID = eventID, p_LastAvailability = Some (sn_Availability snap),
      p_PublicOnsaleAt = TSPtr (sn_PublicOnsaleStart snap),
      p_PublicOnsaleEndAt = TSPtr (sn_PublicOnsaleEnd snap),
      p_EarliestPresaleAt = TSPtr (sn_EarliestPresaleStart snap),
      p_EarliestPresaleName = strPtr (sn_EarliestPresaleName snap),
      p_PresaleCount = to_int32 (sn_PresaleCount snap),
      p_OnsaleTbd = sn_OnsaleTBD snap,
      p_NextPollAt = TS next_poll\<rparr>"

definition observation_of :: "event \<Rightarrow> EventSnapshot \<Rightarrow> time \<Rightarrow> Observation" where
  "observation_of ev snap now =
     \<lparr>ob_Now = now, ob_Availability = sn_Availability snap,
      ob_PublicStart = sn_PublicOnsaleStart snap, ob_PublicEnd = sn_PublicOnsaleEnd snap,
      ob_OnsaleTBD = sn_OnsaleTBD snap, ob_EarliestPresale = sn_EarliestPresaleStart snap,
      ob_EventDate = TimePtr (e_EventDate ev)\<rparr>"

text \<open>After the snapshot was recorded: reschedule, update, evaluate.\<close>

definition reschedule ::
  "bool \<Rightarrow> unsubscriber \<Rightarrow> int \<Rightarrow> event \<Rightarrow> EventSnapshot \<Rightarrow> unit result act" where
  "reschedule has_notifier unsub eventID ev snap =
     DoMinPollInterval eventID (\<lambda>r.
     let interval = (case r of Inl _ \<Rightarrow> 300 | Inr i \<Rightarrow> if i \<le> 0 then 300 else i)
     in DoNow (\<lambda>now1.
        let next_poll = now1 + interval * Second;
            knewPublicStart = ts_Valid (e_PublicOnsaleAt ev)
        in DoUpdateEventLatest (update_params eventID snap next_poll) (\<lambda>r. case r of
             Inl e \<Rightarrow> Return (Inl (Wrap ''update event: '' e))
           | Inr _ \<Rightarrow> DoNow (\<lambda>now2.
               evaluateWatches has_notifier unsub ev snap (observation_of ev snap now2)
                 knewPublicStart))))"

definition ProcessEvent :: "bool \<Rightarrow> unsubscriber \<Rightarrow> int \<Rightarrow> unit result act" where
  "ProcessEvent has_notifier unsub eventID =
     DoGetEvent eventID (\<lambda>r. case r of
       Inl e \<Rightarrow> Return (Inl (Wrap ''get event: '' e))
     | Inr ev \<Rightarrow> DoFetch (e_TmEventID ev) (\<lambda>r. case r of
         Inl e \<Rightarrow> Return (Inl (Wrap ''poll: '' e))
       | Inr snap \<Rightarrow>
           if changed ev (sn_Availability snap)
           then DoInsertSnapshot eventID (Some (sn_Availability snap)) (\<lambda>r. case r of
                  Inl e \<Rightarrow> Return (Inl (Wrap ''insert snapshot: '' e))
                | Inr _ \<Rightarrow> reschedule has_notifier unsub eventID ev snap)
           else reschedule has_notifier unsub eventID ev snap))"

lemma changed_iff: "changed ev avail \<longleftrightarrow> e_LastAvailability ev \<noteq> Some avail"
  by (simp add: changed_def eqStrPtr_def split: option.split)

section \<open>The collaborators and a run alone\<close>

record 'w Deps =
  d_GetEvent :: "int \<Rightarrow> ('w, event result) prog"
  d_Fetch :: "string \<Rightarrow> ('w, EventSnapshot result) prog"
  d_InsertSnapshot :: "int \<Rightarrow> string option \<Rightarrow> ('w, availabilitySnapshot result) prog"
  d_MinPollInterval :: "int \<Rightarrow> ('w, int result) prog"
  d_Now :: "('w, time) prog"
  d_UpdateEventLatest :: "updateEventLatestParams \<Rightarrow> ('w, unit result) prog"
  d_ListActiveWatches :: "int \<Rightarrow> ('w, activeWatchRow list result) prog"
  d_ClaimWatchAlert :: "int \<Rightarrow> string \<Rightarrow> ('w, int result) prog"
  d_Notify :: "Alert \<Rightarrow> ('w, unit) prog"
  d_MarkNotified :: "int \<Rightarrow> ('w, unit result) prog"
  d_SetLastEvaluation :: "int \<Rightarrow> bool \<Rightarrow> ('w, unit result) prog"
  d_CloseWatches :: "int \<Rightarrow> ('w, int result) prog"

text \<open>One call.\<close>

fun act_step :: "'w Deps \<Rightarrow> 'a act \<Rightarrow> 'w \<Rightarrow> 'a act \<times> 'w" where
  "act_step d (Return x) w = (Return x, w)"
| "act_step d (DoGetEvent i k) w = (case d_GetEvent d i w of (r, w) \<Rightarrow> (k r, w))"
| "act_step d (DoFetch i k) w = (case d_Fetch d i w of (r, w) \<Rightarrow> (k r, w))"
| "act_step d (DoInsertSnapshot i s k) w = (case d_InsertSnapshot d i s w of (r, w) \<Rightarrow> (k r, w))"
| "act_step d (DoMinPollInterval i k) w = (case d_MinPollInterval d i w of (r, w) \<Rightarrow> (k r, w))"
| "act_step d (DoNow k) w = (case d_Now d w of (r, w) \<Rightarrow> (k r, w))"
| "act_step d (DoUpdateEventLatest p k) w = (case d_UpdateEventLatest d p w of (r, w) \<Rightarrow> (k r, w))"
| "act_step d (DoListActiveWatches i k) w = (case d_ListActiveWatches d i w of (r, w) \<Rightarrow> (k r, w))"
| "act_step d (DoClaimWatchAlert i s k) w = (case d_ClaimWatchAlert d i s w of (r, w) \<Rightarrow> (k r, w))"
| "act_step d (DoNotify a k) w = (case d_Notify d a w of (r, w) \<Rightarrow> (k r, w))"
| "act_step d (DoMarkNotified i k) w = (case d_MarkNotified d i w of (r, w) \<Rightarrow> (k r, w))"
| "act_step d (DoSetLastEvaluation i b k) w = (case d_SetLastEvaluation d i b w of (r, w) \<Rightarrow> (k r, w))"
| "act_step d (DoCloseWatches i k) w = (case d_CloseWatches d i w of (r, w) \<Rightarrow> (k r, w))"

primrec run :: "'w Deps \<Rightarrow> 'a act \<Rightarrow> ('w, 'a) prog" where
  "run d (Return x) = ret x"
| "run d (DoGetEvent i k) = letM (d_GetEvent d i) (\<lambda>r. run d (k r))"
| "run d (DoFetch i k) = letM (d_Fetch d i) (\<lambda>r. run d (k r))"
| "run d (DoInsertSnapshot i s k) = letM (d_InsertSnapshot d i s) (\<lambda>r. run d (k r))"
| "run d (DoMinPollInterval i k) = letM (d_MinPollInterval d i) (\<lambda>r. run d (k r))"
| "run d (DoNow k) = letM (d_Now d) (\<lambda>r. run d (k r))"
| "run d (DoUpdateEventLatest p k) = letM (d_UpdateEventLatest d p) (\<lambda>r. run d (k r))"
| "run d (DoListActiveWatches i k) = letM (d_ListActiveWatches d i) (\<lambda>r. run d (k r))"
| "run d (DoClaimWatchAlert i s k) = letM (d_ClaimWatchAlert d i s) (\<lambda>r. run d (k r))"
| "run d (DoNotify a k) = letM (d_Notify d a) (\<lambda>r. run d (k r))"
| "run d (DoMarkNotified i k) = letM (d_MarkNotified d i) (\<lambda>r. run d (k r))"
| "run d (DoSetLastEvaluation i b k) = letM (d_SetLastEvaluation d i b) (\<lambda>r. run d (k r))"
| "run d (DoCloseWatches i k) = letM (d_CloseWatches d i) (\<lambda>r. run d (k r))"

text \<open>Running alone is stepping until the poll returns.\<close>

fun finished :: "'a act \<Rightarrow> bool" where
  "finished (Return _) = True"
| "finished _ = False"

lemma run_step: "run d m w = run d (fst (act_step d m w)) (snd (act_step d m w))"
  by (cases m) (simp_all add: letM_def split: prod.split)

lemma run_bind: "run d (act_bind m f) = letM (run d m) (\<lambda>x. run d (f x))"
  by (induction m) (simp_all add: letM_def fun_eq_iff split: prod.split)

text \<open>The collaborators main.go passes: the queries through the pool, a Ticketmaster client and
  a notifier.\<close>

definition world_deps ::
  "(string \<Rightarrow> (world, EventSnapshot result) prog) \<Rightarrow> (Alert \<Rightarrow> (world, unit) prog) \<Rightarrow> world Deps" where
  "world_deps fetch notify =
     \<lparr>d_GetEvent = (\<lambda>i. exec (GetEvent i)),
      d_Fetch = fetch,
      d_InsertSnapshot = (\<lambda>i s. exec (InsertAvailabilitySnapshot i s)),
      d_MinPollInterval = (\<lambda>i. exec (MinPollIntervalForEvent i)),
      d_Now = time_Now,
      d_UpdateEventLatest = (\<lambda>p. exec (UpdateEventLatest p)),
      d_ListActiveWatches = (\<lambda>i. exec (ListActiveWatchesForEvent i)),
      d_ClaimWatchAlert = (\<lambda>i s. exec (ClaimWatchAlert i s)),
      d_Notify = notify,
      d_MarkNotified = (\<lambda>i. exec (MarkNotified i)),
      d_SetLastEvaluation = (\<lambda>i b. exec (SetLastEvaluation i b)),
      d_CloseWatches = (\<lambda>i. exec (CloseWatchesForEvent i))\<rparr>"

end
