(* ===== verification/Pool.thy ===== *)
theory Pool
  imports Worker
begin

text \<open>
  Any number of polls, interleaved call by call with each other and with everything else that
  writes to the database (\<open>StartPool\<close> of \<open>worker.go\<close>, the scheduler that feeds it, the HTTP
  handlers, and a second server or a restart). Shown for every interleaving: a milestone reaches a
  watch's notifier at most once, and only after the database said that its owner had verified the
  address and not unsubscribed.
\<close>

section \<open>The pool\<close>

record 'w pool =
  po_polls :: "unit result act list"
  po_world :: 'w
  po_alerts :: "Alert list" \<comment> \<open>handed to the notifier so far, oldest first\<close>
  po_listed :: "activeWatchRow list" \<comment> \<open>rows any poll has read so far\<close>
  po_past :: "'w list" \<comment> \<open>the worlds in which some poll made a call\<close>

fun act_alerts :: "'a act \<Rightarrow> Alert list" where
  "act_alerts (DoNotify a k) = [a]"
| "act_alerts _ = []"

fun act_listed :: "'w Deps \<Rightarrow> 'a act \<Rightarrow> 'w \<Rightarrow> activeWatchRow list" where
  "act_listed d (DoListActiveWatches i k) w =
     (case fst (d_ListActiveWatches d i w) of Inr rows \<Rightarrow> rows | Inl _ \<Rightarrow> [])"
| "act_listed d _ w = []"

text \<open>A job starts a poll; a poll makes its next call; a poll dies with its process; something
  else changes the world. The lists of alerts, rows and past worlds only record.\<close>

inductive pool_step ::
  "'w Deps \<Rightarrow> ('w \<Rightarrow> 'w \<Rightarrow> bool) \<Rightarrow> 'w pool \<Rightarrow> 'w pool \<Rightarrow> bool"
  for d :: "'w Deps" and env :: "'w \<Rightarrow> 'w \<Rightarrow> bool"
where
  start: "pool_step d env s (s\<lparr>po_polls := po_polls s @ [ProcessEvent has_notifier unsub eventID]\<rparr>)"
| call: "i < length (po_polls s) \<Longrightarrow> act_step d (po_polls s ! i) (po_world s) = (t, w) \<Longrightarrow>
    pool_step d env s
      \<lparr>po_polls = (po_polls s)[i := t], po_world = w,
       po_alerts = po_alerts s @ act_alerts (po_polls s ! i),
       po_listed = po_listed s @ act_listed d (po_polls s ! i) (po_world s),
       po_past = po_past s @ [po_world s]\<rparr>"
| dies: "pool_step d env s (s\<lparr>po_polls := (po_polls s)[i := Return (Inl e)]\<rparr>)"
| other: "env (po_world s) w \<Longrightarrow> pool_step d env s (s\<lparr>po_world := w\<rparr>)"

inductive_cases pool_stepE: "pool_step d env s s'"

inductive pool_reach ::
  "'w Deps \<Rightarrow> ('w \<Rightarrow> 'w \<Rightarrow> bool) \<Rightarrow> 'w \<Rightarrow> 'w pool \<Rightarrow> bool"
  for d :: "'w Deps" and env :: "'w \<Rightarrow> 'w \<Rightarrow> bool" and w0 :: 'w
where
  init: "pool_reach d env w0 \<lparr>po_polls = [], po_world = w0, po_alerts = [], po_listed = [], po_past = []\<rparr>"
| step: "pool_reach d env w0 s \<Longrightarrow> pool_step d env s s' \<Longrightarrow> pool_reach d env w0 s'"

section \<open>What a poll may do\<close>

definition alert_pair :: "Alert \<Rightarrow> int \<times> string" where
  "alert_pair a = (al_WatchID a, al_Kind a)"

definition once_kind :: "int \<times> string \<Rightarrow> bool" where
  "once_kind p \<longleftrightarrow> snd p \<noteq> kind_string KindStatusOnsale"

text \<open>
  \<open>licensed m S\<close>: from here on, the poll hands out a milestone only if it is in \<open>S\<close> or if the poll
  claims it before, and it uses each claim at most once.
\<close>

primrec licensed :: "'a act \<Rightarrow> (int \<times> string) set \<Rightarrow> bool" where
  "licensed (Return x) S = True"
| "licensed (DoGetEvent i k) S = (\<forall>r. licensed (k r) S)"
| "licensed (DoFetch i k) S = (\<forall>r. licensed (k r) S)"
| "licensed (DoInsertSnapshot i s k) S = (\<forall>r. licensed (k r) S)"
| "licensed (DoMinPollInterval i k) S = (\<forall>r. licensed (k r) S)"
| "licensed (DoNow k) S = (\<forall>r. licensed (k r) S)"
| "licensed (DoUpdateEventLatest p k) S = (\<forall>r. licensed (k r) S)"
| "licensed (DoListActiveWatches i k) S = (\<forall>r. licensed (k r) S)"
| "licensed (DoClaimWatchAlert i s k) S =
     (\<forall>r. licensed (k r) (if \<exists>n. r = Inr n \<and> n \<noteq> 0 then insert (i, s) S else S))"
| "licensed (DoNotify a k) S =
     ((once_kind (alert_pair a) \<longrightarrow> alert_pair a \<in> S) \<and> (\<forall>r. licensed (k r) (S - {alert_pair a})))"
| "licensed (DoMarkNotified i k) S = (\<forall>r. licensed (k r) S)"
| "licensed (DoSetLastEvaluation i b k) S = (\<forall>r. licensed (k r) S)"
| "licensed (DoCloseWatches i k) S = (\<forall>r. licensed (k r) S)"

text \<open>
  \<open>consented m rows\<close>: from here on, an alert goes to a watch of \<open>rows\<close>, or of a list the poll
  reads before, whose row says that the address is verified and not unsubscribed, and it goes to
  that row's address.
\<close>

definition may_mail :: "activeWatchRow \<Rightarrow> Alert \<Rightarrow> bool" where
  "may_mail row a \<longleftrightarrow> r_ID row = al_WatchID a \<and> r_UserEmail row = al_ToEmail a \<and>
     ts_Valid (r_EmailVerifiedAt row) \<and> \<not> ts_Valid (r_UnsubscribedAt row)"

primrec consented :: "'a act \<Rightarrow> activeWatchRow set \<Rightarrow> bool" where
  "consented (Return x) S = True"
| "consented (DoGetEvent i k) S = (\<forall>r. consented (k r) S)"
| "consented (DoFetch i k) S = (\<forall>r. consented (k r) S)"
| "consented (DoInsertSnapshot i s k) S = (\<forall>r. consented (k r) S)"
| "consented (DoMinPollInterval i k) S = (\<forall>r. consented (k r) S)"
| "consented (DoNow k) S = (\<forall>r. consented (k r) S)"
| "consented (DoUpdateEventLatest p k) S = (\<forall>r. consented (k r) S)"
| "consented (DoListActiveWatches i k) S =
     (\<forall>r. consented (k r) (case r of Inr rows \<Rightarrow> S \<union> set rows | Inl _ \<Rightarrow> S))"
| "consented (DoClaimWatchAlert i s k) S = (\<forall>r. consented (k r) S)"
| "consented (DoNotify a k) S = ((\<exists>row\<in>S. may_mail row a) \<and> (\<forall>r. consented (k r) S))"
| "consented (DoMarkNotified i k) S = (\<forall>r. consented (k r) S)"
| "consented (DoSetLastEvaluation i b k) S = (\<forall>r. consented (k r) S)"
| "consented (DoCloseWatches i k) S = (\<forall>r. consented (k r) S)"

lemma licensed_mono: "licensed m S \<Longrightarrow> S \<subseteq> T \<Longrightarrow> licensed m T"
proof (induction m arbitrary: S T)
  case (DoClaimWatchAlert i s k)
  show ?case
  proof (simp only: licensed.simps, intro allI)
    fix r
    have "licensed (k r) (if \<exists>n. r = Inr n \<and> n \<noteq> 0 then insert (i, s) S else S)"
      using DoClaimWatchAlert.prems(1) by simp
    then show "licensed (k r) (if \<exists>n. r = Inr n \<and> n \<noteq> 0 then insert (i, s) T else T)"
      by (rule DoClaimWatchAlert.IH [OF rangeI]) (use DoClaimWatchAlert.prems(2) in auto)
  qed
next
  case (DoNotify a k)
  show ?case
  proof (simp only: licensed.simps, intro conjI allI)
    show "once_kind (alert_pair a) \<longrightarrow> alert_pair a \<in> T" using DoNotify.prems by auto
    show "licensed (k r) (T - {alert_pair a})" for r
      by (rule DoNotify.IH [OF rangeI, of r "S - {alert_pair a}"]) (use DoNotify.prems in auto)
  qed
qed (simp; blast)+

lemma consented_mono: "consented m S \<Longrightarrow> S \<subseteq> T \<Longrightarrow> consented m T"
proof (induction m arbitrary: S T)
  case (DoListActiveWatches i k)
  show ?case
  proof (simp only: consented.simps, intro allI)
    fix r
    have "consented (k r) (case r of Inr rows \<Rightarrow> S \<union> set rows | Inl _ \<Rightarrow> S)"
      using DoListActiveWatches.prems(1) by simp
    then show "consented (k r) (case r of Inr rows \<Rightarrow> T \<union> set rows | Inl _ \<Rightarrow> T)"
      by (rule DoListActiveWatches.IH [OF rangeI])
        (use DoListActiveWatches.prems(2) in \<open>auto split: sum.split\<close>)
  qed
qed (simp; blast)+

lemma licensed_bind:
  "licensed m S \<Longrightarrow> (\<And>x. licensed (f x) {}) \<Longrightarrow> licensed (act_bind m f) S"
  by (induction m arbitrary: S) (auto intro: licensed_mono [of _ "{}"])

lemma consented_bind:
  "consented m S \<Longrightarrow> (\<And>x. consented (f x) S) \<Longrightarrow> consented (act_bind m f) S"
proof (induction m arbitrary: S)
  case (DoListActiveWatches i k)
  show ?case
  proof (simp only: act_bind.simps consented.simps, intro allI)
    fix r :: "activeWatchRow list result"
    let ?S = "case r of Inr rows \<Rightarrow> S \<union> set rows | Inl _ \<Rightarrow> S"
    have "S \<subseteq> ?S" by (simp split: sum.split)
    then have "consented (f x) ?S" for x
      using DoListActiveWatches.prems(2) by (rule consented_mono [rotated])
    moreover have "consented (k r) ?S" using DoListActiveWatches.prems(1) by simp
    ultimately show "consented (act_bind (k r) f) ?S"
      by (intro DoListActiveWatches.IH [OF rangeI])
  qed
qed auto

lemma licensed_alert_kinds:
  assumes "\<And>k. alert_pair (mk k) = (r_ID w, kind_string k)"
  shows "licensed (alert_kinds has_notifier mk w kinds) S"
proof (induction kinds arbitrary: S)
  case (Cons kind kinds)
  note IH = Cons
  have once: "once_kind (r_ID w, kind_string kind) = needsClaim kind"
    unfolding once_kind_def needsClaim_def snd_conv kind_string_inject ..
  show ?case
    by (cases has_notifier) (use IH in \<open>auto simp: Let_def assms once split: sum.split\<close>)
qed simp

lemma consented_alert_kinds:
  assumes "\<And>k. al_WatchID (mk k) = r_ID w" and "\<And>k. al_ToEmail (mk k) = r_UserEmail w" and "w \<in> S"
  shows "consented (alert_kinds has_notifier mk w kinds) S"
proof (induction kinds)
  case (Cons kind kinds)
  note IH = Cons
  show ?case
    by (cases has_notifier)
      (use IH assms(3) in \<open>auto simp: Let_def may_mail_def assms(1,2) split: sum.split\<close>)
qed simp

lemma licensed_alert_watches:
  assumes "\<And>w k. alert_pair (mk w k) = (r_ID w, kind_string k)"
  shows "licensed (alert_watches has_notifier mk obs knew ws c) S"
proof (induction ws arbitrary: c S)
  case (Cons w ws)
  note IH = Cons
  show ?case
    unfolding alert_watches.simps Let_def
    by (intro licensed_bind licensed_alert_kinds assms) (auto simp: IH split: sum.split)
qed simp

lemma consented_alert_watches:
  assumes "\<And>w k. al_WatchID (mk w k) = r_ID w" and "\<And>w k. al_ToEmail (mk w k) = r_UserEmail w"
    and "set ws \<subseteq> S"
  shows "consented (alert_watches has_notifier mk obs knew ws c) S"
  using assms(3)
proof (induction ws arbitrary: c)
  case (Cons w ws)
  have IH: "consented (alert_watches has_notifier mk obs knew ws c) S" for c
    using Cons by simp
  show ?case
    unfolding alert_watches.simps Let_def
    by (intro consented_bind consented_alert_kinds assms(1,2))
      (use Cons.prems in \<open>auto simp: IH split: sum.split\<close>)
qed simp

lemma alert_of_fields [simp]:
  "alert_pair (alert_of ev snap obs unsub w k) = (r_ID w, kind_string k)"
  "al_WatchID (alert_of ev snap obs unsub w k) = r_ID w"
  "al_ToEmail (alert_of ev snap obs unsub w k) = r_UserEmail w"
  by (simp_all add: alert_of_def alert_pair_def)

lemma licensed_evaluateWatches: "licensed (evaluateWatches hn unsub ev snap obs knew) S"
  unfolding evaluateWatches_def
  by (auto intro!: licensed_bind licensed_alert_watches split: sum.split)

lemma consented_evaluateWatches: "consented (evaluateWatches hn unsub ev snap obs knew) S"
  unfolding evaluateWatches_def
  by (auto intro!: consented_bind consented_alert_watches split: sum.split)

lemma licensed_ProcessEvent: "licensed (ProcessEvent hn unsub i) S"
  by (auto simp: ProcessEvent_def reschedule_def Let_def licensed_evaluateWatches split: sum.split)

lemma consented_ProcessEvent: "consented (ProcessEvent hn unsub i) S"
  by (auto simp: ProcessEvent_def reschedule_def Let_def consented_evaluateWatches split: sum.split)

section \<open>At most once\<close>

text \<open>
  The contract of the store's claims: \<open>spent\<close> milestones stay spent whatever runs, and a claim
  that answers with a row was not spent before and is spent after.
\<close>

locale claim_store =
  fixes d :: "'w Deps" and env :: "'w \<Rightarrow> 'w \<Rightarrow> bool" and ok :: "'w \<Rightarrow> bool"
    and spent :: "'w \<Rightarrow> int \<times> string \<Rightarrow> bool"
  assumes claim_new: "ok w \<Longrightarrow> d_ClaimWatchAlert d i s w = (Inr n, w') \<Longrightarrow> n \<noteq> 0 \<Longrightarrow>
      \<not> spent w (i, s) \<and> spent w' (i, s)"
    and step_ok: "ok w \<Longrightarrow> ok (snd (act_step d (m :: unit result act) w))"
    and step_spent: "ok w \<Longrightarrow> spent w p \<Longrightarrow> spent (snd (act_step d (m :: unit result act) w)) p"
    and env_ok: "ok w \<Longrightarrow> env w w' \<Longrightarrow> ok w'"
    and env_spent: "ok w \<Longrightarrow> spent w p \<Longrightarrow> env w w' \<Longrightarrow> spent w' p"
begin

definition told :: "'w pool \<Rightarrow> (int \<times> string) list" where
  "told s = filter once_kind (map alert_pair (po_alerts s))"

text \<open>Every poll holds a set of claims it has won and not used; they are disjoint from each other
  and from what was told, and all of them are spent.\<close>

definition held :: "'w pool \<Rightarrow> (int \<times> string) set list \<Rightarrow> bool" where
  "held s L \<longleftrightarrow> length L = length (po_polls s) \<and>
     (\<forall>i<length L. licensed (po_polls s ! i) (L ! i)) \<and>
     (\<forall>i<length L. \<forall>j<length L. i \<noteq> j \<longrightarrow> L ! i \<inter> L ! j = {}) \<and>
     (\<forall>i<length L. L ! i \<inter> set (told s) = {} \<and> (\<forall>p\<in>L ! i. spent (po_world s) p))"

definition pool_ok :: "'w pool \<Rightarrow> bool" where
  "pool_ok s \<longleftrightarrow> ok (po_world s) \<and> distinct (told s) \<and>
     (\<forall>p\<in>set (told s). spent (po_world s) p) \<and> (\<exists>L. held s L)"

lemma licensed_step:
  fixes m :: "unit result act"
  assumes "licensed m S" and "ok w" and "act_step d m w = (m', w')"
  shows "(act_alerts m = [] \<and> licensed m' S) \<or>
    (\<exists>p. act_alerts m = [] \<and> licensed m' (insert p S) \<and> \<not> spent w p \<and> spent w' p) \<or>
    (\<exists>a. act_alerts m = [a] \<and> licensed m' (S - {alert_pair a}) \<and>
         (once_kind (alert_pair a) \<longrightarrow> alert_pair a \<in> S))"
proof (cases m)
  case (DoClaimWatchAlert i s k)
  obtain r where r: "d_ClaimWatchAlert d i s w = (r, w')" "m' = k r"
    using assms(3) DoClaimWatchAlert by (auto split: prod.splits)
  have lic: "licensed m' (if \<exists>n. r = Inr n \<and> n \<noteq> 0 then insert (i, s) S else S)"
    unfolding r(2) using assms(1) DoClaimWatchAlert by simp
  show ?thesis
  proof (cases "\<exists>n. r = Inr n \<and> n \<noteq> 0")
    case True
    then obtain n where n: "r = Inr n" "n \<noteq> 0" by blast
    have "\<not> spent w (i, s)" "spent w' (i, s)" using claim_new [OF assms(2)] r(1) n by blast+
    moreover have "licensed m' (insert (i, s) S)" using lic n by simp
    moreover have "act_alerts m = []" by (simp add: DoClaimWatchAlert)
    ultimately show ?thesis by blast
  next
    case False
    then have "licensed m' S" using lic by (simp only: if_False)
    then show ?thesis using DoClaimWatchAlert by simp
  qed
next
  case (DoNotify a k)
  have "m' = k (fst (d_Notify d a w))" using assms(3) DoNotify by (simp add: split_beta)
  then show ?thesis using assms(1) DoNotify by simp
qed (rule disjI1, use assms in \<open>auto simp: split_beta\<close>)+

lemma told_grows:
  "told \<lparr>po_polls = ps, po_world = w, po_alerts = po_alerts s @ as, po_listed = l, po_past = h\<rparr> =
    told s @ filter once_kind (map alert_pair as)"
  by (simp add: told_def)

lemma held_update:
  assumes L: "held s L" and i: "i < length (po_polls s)"
    and new: "licensed t S" "S \<inter> set (told s') = {}" "\<forall>p\<in>S. spent (po_world s') p"
      "\<forall>j<length L. j \<noteq> i \<longrightarrow> S \<inter> L ! j = {}"
    and others: "\<forall>j<length L. j \<noteq> i \<longrightarrow> L ! j \<inter> set (told s') = {}"
    and mono: "\<And>p. spent (po_world s) p \<Longrightarrow> spent (po_world s') p"
    and s': "po_polls s' = (po_polls s)[i := t]"
  shows "held s' (L[i := S])"
proof -
  have "i < length L" using L i by (simp add: held_def)
  then show ?thesis
    using L new others mono unfolding held_def s'
    by (auto simp: nth_list_update)
qed

lemma pool_call_ok:
  assumes "s' = \<lparr>po_polls = (po_polls s)[i := t], po_world = w,
       po_alerts = po_alerts s @ act_alerts (po_polls s ! i),
       po_listed = po_listed s @ act_listed d (po_polls s ! i) (po_world s),
       po_past = po_past s @ [po_world s]\<rparr>"
    and "i < length (po_polls s)" and "act_step d (po_polls s ! i) (po_world s) = (t, w)" and "pool_ok s"
  shows "pool_ok s'"
proof -
  let ?m = "po_polls s ! i"
  have ok: "ok (po_world s)" using assms(4) by (simp add: pool_ok_def)
  obtain L where L: "held s L" using assms(4) by (auto simp: pool_ok_def)
  have i: "i < length L" using L assms(2) by (simp add: held_def)
  have Li: "licensed ?m (L ! i)" "L ! i \<inter> set (told s) = {}" "\<forall>p\<in>L ! i. spent (po_world s) p"
    "\<forall>j<length L. j \<noteq> i \<longrightarrow> L ! i \<inter> L ! j = {}"
    "\<forall>j<length L. L ! j \<inter> set (told s) = {} \<and> (\<forall>p\<in>L ! j. spent (po_world s) p)"
    using L i unfolding held_def by blast+
  have ok': "ok w" using step_ok [OF ok, of ?m] assms(3) by simp
  have mono: "spent w p" if "spent (po_world s) p" for p
    using step_spent [OF ok that, of ?m] assms(3) by simp
  have told: "told s' = told s @ filter once_kind (map alert_pair (act_alerts ?m))"
    unfolding assms(1) by (rule told_grows)
  have w: "po_world s' = w" and polls: "po_polls s' = (po_polls s)[i := t]" by (simp_all add: assms(1))
  have old: "distinct (told s)" "\<forall>p\<in>set (told s). spent (po_world s) p"
    using assms(4) by (simp_all add: pool_ok_def)
  note upd = held_update [OF L assms(2) _ _ _ _ _ _ polls, unfolded w]
  from licensed_step [OF Li(1) ok assms(3)] show ?thesis
  proof (elim disjE exE conjE)
    assume "act_alerts ?m = []" and t: "licensed t (L ! i)"
    then have same: "told s' = told s" by (simp add: told)
    have "held s' (L[i := L ! i])"
      by (rule upd [OF t]) (use Li mono same in auto)
    then show ?thesis using ok' old mono same by (auto simp: pool_ok_def w)
  next
    fix p
    assume "act_alerts ?m = []" and p: "licensed t (insert p (L ! i))" "\<not> spent (po_world s) p" "spent w p"
    then have same: "told s' = told s" by (simp add: told)
    have "p \<notin> set (told s)" using old(2) p(2) by blast
    moreover have "p \<notin> L ! j" if "j < length L" for j using Li(5) that p(2) by blast
    ultimately have "held s' (L[i := insert p (L ! i)])"
      by (intro upd [OF p(1)]) (use Li mono same p(3) in auto)
    then show ?thesis using ok' old mono same by (auto simp: pool_ok_def w)
  next
    fix a
    assume a: "act_alerts ?m = [a]" "licensed t (L ! i - {alert_pair a})"
      "once_kind (alert_pair a) \<longrightarrow> alert_pair a \<in> L ! i"
    have new: "set (told s') \<subseteq> insert (alert_pair a) (set (told s))"
      and more: "told s' = told s @ (if once_kind (alert_pair a) then [alert_pair a] else [])"
      by (auto simp: told a(1))
    have other: "alert_pair a \<notin> L ! j" if "once_kind (alert_pair a)" "j < length L" "j \<noteq> i" for j
      using Li(4) a(3) that by blast
    have "held s' (L[i := L ! i - {alert_pair a}])"
      by (intro upd [OF a(2)]) (use Li mono more other in auto)
    moreover have "distinct (told s')" using more old(1) a(3) Li(2) by auto
    moreover have "spent w (alert_pair a)" if "once_kind (alert_pair a)"
      using that Li(3) a(3) mono by blast
    then have "\<forall>p\<in>set (told s'). spent w p" using more old(2) mono by auto
    ultimately show ?thesis using ok' by (auto simp: pool_ok_def w)
  qed
qed

lemma pool_step_ok:
  assumes "pool_step d env s s'" and "pool_ok s"
  shows "pool_ok s'"
  using assms(1)
proof cases
  case (start hn unsub e)
  obtain L where L: "held s L" using assms(2) by (auto simp: pool_ok_def)
  have told: "told s' = told s" by (simp add: told_def start)
  have "held s' (L @ [{}])"
    using L licensed_ProcessEvent [of hn unsub e "{}"] unfolding held_def told
    by (auto simp: start nth_append less_Suc_eq)
  then show ?thesis using assms(2) start told by (auto simp: pool_ok_def)
next
  case (dies i e)
  obtain L where L: "held s L" using assms(2) by (auto simp: pool_ok_def)
  have told: "told s' = told s" by (simp add: told_def dies)
  have "licensed (po_polls s' ! j) (L ! j)" if "j < length L" for j
    using L that by (cases "i = j") (simp_all add: held_def dies)
  then have "held s' L" using L unfolding held_def told by (simp add: dies)
  then show ?thesis using assms(2) dies told by (auto simp: pool_ok_def)
next
  case (other w)
  obtain L where L: "held s L" using assms(2) by (auto simp: pool_ok_def)
  have told: "told s' = told s" by (simp add: told_def other)
  have ok: "ok (po_world s)" using assms(2) by (simp add: pool_ok_def)
  have "held s' L"
    using L env_spent [OF ok] unfolding held_def told by (auto simp: other)
  then show ?thesis
    using assms(2) told env_spent [OF ok] env_ok [OF ok] by (auto simp: pool_ok_def other)
next
  case (call i t w)
  then show ?thesis using assms(2) by (rule pool_call_ok)
qed

lemma pool_reach_ok:
  assumes "pool_reach d env w0 s" and "ok w0"
  shows "pool_ok s"
  using assms
proof (induction rule: pool_reach.induct)
  case init
  then show ?case by (simp add: pool_ok_def told_def held_def)
next
  case (step s s')
  then show ?case by (blast intro: pool_step_ok)
qed

lemma told_once: "pool_reach d env w0 s \<Longrightarrow> ok w0 \<Longrightarrow> distinct (told s)"
  using pool_reach_ok by (simp add: pool_ok_def)

end

section \<open>Consent\<close>

text \<open>Whatever the collaborators do, an alert that was handed out is for a row that was read.\<close>

lemma consented_step:
  assumes "consented m S" and "act_step d m w = (m', w')"
  shows "consented m' (S \<union> set (act_listed d m w)) \<and>
    (\<forall>a\<in>set (act_alerts m). \<exists>row\<in>S. may_mail row a)"
proof (cases m)
  case (DoListActiveWatches i k)
  have c: "consented (k r) (case r of Inr rows \<Rightarrow> S \<union> set rows | Inl _ \<Rightarrow> S)" for r
    using assms(1) DoListActiveWatches by simp
  have m': "m' = k (fst (d_ListActiveWatches d i w))"
    using assms(2) DoListActiveWatches by (simp add: split_beta)
  show ?thesis
    using c [of "fst (d_ListActiveWatches d i w)"] unfolding m'
    by (auto simp: DoListActiveWatches split: sum.splits)
qed (use assms in \<open>auto simp: split_beta\<close>)+

definition pool_consented :: "'w pool \<Rightarrow> bool" where
  "pool_consented s \<longleftrightarrow> (\<forall>m\<in>set (po_polls s). consented m (set (po_listed s))) \<and>
     (\<forall>a\<in>set (po_alerts s). \<exists>row\<in>set (po_listed s). may_mail row a)"

lemma pool_step_consented:
  assumes "pool_step d env s s'" and "pool_consented s"
  shows "pool_consented s'"
  using assms(1)
proof cases
  case (call i t w)
  let ?m = "po_polls s ! i"
  have m: "consented ?m (set (po_listed s))" using assms(2) call(2) by (simp add: pool_consented_def)
  from consented_step [OF m call(3)]
  have t: "consented t (set (po_listed s'))"
    and a: "\<forall>a\<in>set (act_alerts ?m). \<exists>row\<in>set (po_listed s). may_mail row a"
    by (simp_all add: call(1))
  have "consented m (set (po_listed s'))" if "m \<in> set (po_polls s)" for m
    using assms(2) that by (auto simp: pool_consented_def call(1) intro: consented_mono)
  then have "\<forall>m\<in>set (po_polls s'). consented m (set (po_listed s'))"
    using t set_update_subset_insert [of "po_polls s" i t] by (auto simp: call(1))
  then show ?thesis using assms(2) a by (fastforce simp: pool_consented_def call(1))
next
  case (dies i e)
  then show ?thesis
    using assms(2) set_update_subset_insert [of "po_polls s" i "Return (Inl e)"]
    by (fastforce simp: pool_consented_def)
qed (use assms(2) in \<open>auto simp: pool_consented_def consented_ProcessEvent\<close>)

text \<open>And a row that was read is what the store answered in some world the pool was in.\<close>

definition pool_read :: "'w Deps \<Rightarrow> 'w pool \<Rightarrow> bool" where
  "pool_read d s \<longleftrightarrow> (\<forall>row\<in>set (po_listed s). \<exists>w\<in>set (po_past s). \<exists>i rows.
     fst (d_ListActiveWatches d i w) = Inr rows \<and> row \<in> set rows)"

lemma act_listed_read:
  "row \<in> set (act_listed d m w) \<Longrightarrow>
    \<exists>i rows. fst (d_ListActiveWatches d i w) = Inr rows \<and> row \<in> set rows"
  by (cases m) (auto split: sum.splits, metis)

lemma pool_step_read: "pool_step d env s s' \<Longrightarrow> pool_read d s \<Longrightarrow> pool_read d s'"
proof (erule pool_stepE)
  fix i t w
  assume read: "pool_read d s" and s': "s' = \<lparr>po_polls = (po_polls s)[i := t], po_world = w,
      po_alerts = po_alerts s @ act_alerts (po_polls s ! i),
      po_listed = po_listed s @ act_listed d (po_polls s ! i) (po_world s),
      po_past = po_past s @ [po_world s]\<rparr>"
  show "pool_read d s'"
    unfolding pool_read_def
  proof
    fix row
    assume "row \<in> set (po_listed s')"
    then consider "row \<in> set (po_listed s)" | "row \<in> set (act_listed d (po_polls s ! i) (po_world s))"
      by (auto simp: s')
    then show "\<exists>w\<in>set (po_past s'). \<exists>i rows. fst (d_ListActiveWatches d i w) = Inr rows \<and> row \<in> set rows"
    proof cases
      case 1
      with read show ?thesis unfolding pool_read_def s' by fastforce
    next
      case 2
      then show ?thesis using act_listed_read [OF 2] by (simp add: s')
    qed
  qed
qed (simp_all add: pool_read_def)

lemma pool_reach_consented:
  "pool_reach d env w0 s \<Longrightarrow> pool_consented s \<and> pool_read d s"
proof (induction rule: pool_reach.induct)
  case init
  show ?case by (simp add: pool_consented_def pool_read_def)
next
  case (step s s')
  then show ?case by (blast intro: pool_step_consented pool_step_read)
qed

lemma alert_was_read:
  assumes "pool_reach d env w0 s" and "a \<in> set (po_alerts s)"
  obtains row w i rows where "may_mail row a" "w \<in> set (po_past s)"
    "fst (d_ListActiveWatches d i w) = Inr rows" "row \<in> set rows"
  using pool_reach_consented [OF assms(1)] assms(2) unfolding pool_consented_def pool_read_def by blast

end
