(* ===== verification/Statements.thy ===== *)
theory Statements
  imports Worker Notifier Ticketmaster
begin

text \<open>
  What every program of the server does to the world is a sequence of the statements of theory
  StoreOk, with effects on the network, the console and the clock in between. A relation between
  worlds that is reflexive and transitive, allows one such effect and allows the limiter's, then
  relates the two ends of every run. That is the locale \<open>statement_programs\<close>; the theorems about
  all programs at once are its interpretations.
\<close>

section \<open>One effect\<close>

definition effect :: "world \<Rightarrow> world \<Rightarrow> bool" where
  "effect w w' \<longleftrightarrow> (tables w' = tables w \<or> db_step (tables w) (tables w')) \<and> quota w' = quota w \<and>
     jobs w' = jobs w \<and> jobs_cap w' = jobs_cap w \<and> enqueued w' = enqueued w \<and> clock w \<le> clock w'"

lemma effect_exec:
  assumes "\<And>t d. db_step d (snd (q t d)) \<or> snd (q t d) = d"
  shows "effect w (snd (exec q w))"
  using assms by (cases rule: exec_cases [of w q]) (auto simp: effect_def exec_clock)

lemma effect_prims:
  "effect w (snd (rand_Read n w))" "effect w (snd (time_Now w))" "effect w (snd (http_Do r w))"
  "effect w (snd (log_Print s w))" "effect w (snd (sleep t w))" "effect w (snd (rand_Int63n m w))"
  by (simp_all add: effect_def rand_Read_def time_Now_def http_Do_def Let_def log_Print_def sleep_def tick_def
      rand_Int63n_def split: list.split option.split prod.split)

section \<open>Mail, the client and the notifier, from their parts\<close>

locale world_preorder = step_preorder R for R :: "world \<Rightarrow> world \<Rightarrow> bool"
begin

lemma steps_email:
  assumes "\<And>r. steps R (http_Do r)" and "\<And>s. steps R (log_Print s)"
  shows "steps R (sd_Send (email_sender marshal newRequest key from_addr) msg)"
proof -
  have "steps R (ResendSender_Send marshal newRequest rs msg)" for rs
    unfolding ResendSender_Send_def
    by (auto intro!: steps_ret steps_orRet steps_letM steps_orElse steps_if assms split: sum.split)
  moreover have "steps R (sd_Send LogSender msg)"
    unfolding LogSender_def Sender.select_convs by (intro steps_andThen steps_ret assms)
  ultimately show ?thesis by (simp add: email_sender_def resend_sender_def)
qed

lemma steps_client:
  assumes "\<And>c. steps R (Acquire world_limiter c)" and "\<And>r. steps R (http_Do r)"
    and "\<And>t. steps R (sleep t)" and "\<And>n. steps R (rand_Int63n n)" and "steps R time_Now"
  shows "steps R (Client_GetEvent (world_client b k nr ds de) tm)"
    "steps R (Client_Search (world_client b k nr ds de) kw up)"
proof -
  have loop: "steps R (do_loop (world_client b k nr ds de) cl ep left e)" for cl ep left e
    by (rule steps_do_loop; simp add: world_client_def assms)
  have now: "steps R (c_Now (world_client b k nr ds de))" by (simp add: world_client_def assms)
  show "steps R (Client_GetEvent (world_client b k nr ds de) tm)"
    "steps R (Client_Search (world_client b k nr ds de) kw up)"
    by (rule steps_calls [OF loop now])+
qed

lemma steps_Notify:
  assumes "\<And>s msg. s \<in> set senders \<Longrightarrow> steps R (sd_Send s msg)"
    and "\<And>i c p. steps R (exec (InsertNotification i c p))"
  shows "steps R (Notify (world_notifier senders) a)"
proof -
  have ins: "nf_InsertNotification (world_notifier ss) i c p = exec (InsertNotification i c p)" for ss i c p
    by (simp add: world_notifier_def)
  have "set ss \<subseteq> set senders \<Longrightarrow> steps R (notify_senders (world_notifier senders) msg a ss)" for ss msg
  proof (induction ss)
    case Nil
    show ?case unfolding notify_senders.simps by (rule steps_ret)
  next
    case (Cons s ss)
    then show ?case
      unfolding notify_senders.simps ins
      by (intro steps_orElse steps_andThen assms) auto
  qed
  then show ?thesis
    by (auto simp: Notify_def world_notifier_def intro: steps_ret split: option.split)
qed

end

section \<open>The programs\<close>

locale statement_programs = world_preorder R for R :: "world \<Rightarrow> world \<Rightarrow> bool" +
  assumes effects: "effect w w' \<Longrightarrow> R w w'"
    and acquires: "R w (snd (Acquire world_limiter c w))"
begin

lemma exec_in: "(\<And>t d. db_step d (snd (q t d)) \<or> snd (q t d) = d) \<Longrightarrow> steps R (exec q)"
  by (rule stepsI) (rule effects, rule effect_exec)

lemma prims_in:
  "steps R (rand_Read n)" "steps R time_Now" "steps R (http_Do r)" "steps R (log_Print s)"
  "steps R (sleep t)" "steps R (rand_Int63n m)"
  by (rule stepsI; rule effects; rule effect_prims)+

lemma queries_in:
  "steps R (exec (GetEvent i))" "steps R (exec (InsertAvailabilitySnapshot i av))"
  "steps R (exec (MinPollIntervalForEvent i))" "steps R (exec (UpdateEventLatest p))"
  "steps R (exec (ListActiveWatchesForEvent i))" "steps R (exec (ClaimWatchAlert i k))"
  "steps R (exec (MarkNotified i))" "steps R (exec (SetLastEvaluation i b))"
  "steps R (exec (CloseWatchesForEvent i))" "steps R (exec (InsertNotification i c pl))"
  "steps R (exec (CreateUser e h))" "steps R (exec (GetUserByEmail e))" "steps R (exec (GetUserByID u))"
  "steps R (exec (DeleteAuthTokensForUser u pu))" "steps R (exec (CreateAuthToken u h pu x))"
  "steps R (exec (GetValidAuthToken h pu))" "steps R (exec (MarkAuthTokenUsed i))"
  "steps R (exec (MarkEmailVerified u))" "steps R (exec (UpdateUserPassword u h))"
  "steps R (exec (SetUnsubscribed u))" "steps R (exec (SetResubscribed u))" "steps R (exec (DeleteUser u))"
  "steps R (exec (CountWatchesForUser u))" "steps R (exec (GetEventByTMID tm))"
  "steps R (exec (UpsertEventByTMID q))" "steps R (exec (CreateWatch u i c n l))"
  "steps R (exec (MarkEventDue i))" "steps R (exec (ListWatchesWithEvent u))" "steps R (exec (GetWatch i u))"
  "steps R (exec (ListSnapshotsForEvent i))" "steps R (exec (UpdateWatch st i u))"
  "steps R (exec (DeleteWatch i u))" "steps R (exec (ListNotificationsForUser u n))"
  "steps R (exec (ListDueEvents n))"
  by (rule exec_in; (simp; fail)?; blast intro: db_step.intros)+

text \<open>Mail, Ticketmaster and the notifier, as main.go wires them.\<close>

lemma send_in: "steps R (sd_Send (email_sender marshal newRequest key from_addr) msg)"
  by (intro steps_email prims_in)

lemma client_in:
  "steps R (Client_GetEvent (world_client b k nr ds de) tm)"
  "steps R (Client_Search (world_client b k nr ds de) kw up)"
proof -
  have acq: "steps R (Acquire world_limiter c)" for c by (rule stepsI) (rule acquires)
  show "steps R (Client_GetEvent (world_client b k nr ds de) tm)"
    "steps R (Client_Search (world_client b k nr ds de) kw up)"
    by (rule steps_client [OF acq prims_in(3,5,6,2)])+
qed

lemma notify_in:
  "(\<And>s msg. s \<in> set senders \<Longrightarrow> steps R (sd_Send s msg)) \<Longrightarrow> steps R (Notify (world_notifier senders) a)"
  by (intro steps_Notify queries_in)

text \<open>One call of a poll.\<close>

lemma act_in:
  assumes "\<And>tm. steps R (fetch tm)" and "\<And>a. steps R (notify a)"
  shows "R w (snd (act_step (world_deps fetch notify) m w))"
proof -
  have call: "R w (snd (case p w of (r, w) \<Rightarrow> (k r, w)))"
    if "steps R p" for p :: "(world, 'c) prog" and k :: "'c \<Rightarrow> 'd"
    using stepsD [OF that, of w] by (simp add: split_beta)
  show ?thesis
    by (cases m; simp only: act_step.simps world_deps_def Deps.simps snd_conv)
      (rule step_refl call queries_in assms prims_in)+
qed

end

end
