(* ===== verification/PoolWorld.thy ===== *)
theory PoolWorld
  imports Pool Statements
begin

text \<open>
  The pool over the database: the claims of \<open>watch_alerts\<close> keep the contract of theory Pool under
  every statement the program runs, so the results there hold of the code's own store.
\<close>

section \<open>Programs that only run statements\<close>

definition stmt_rel :: "world \<Rightarrow> world \<Rightarrow> bool" where
  "stmt_rel w w' \<longleftrightarrow> db_step\<^sup>*\<^sup>* (tables w) (tables w')"

abbreviation stmts :: "(world, 'a) prog \<Rightarrow> bool" where
  "stmts \<equiv> steps stmt_rel"

interpretation stmts: statement_programs stmt_rel
proof unfold_locales
  fix w w' :: world
  assume "effect w w'"
  then show "stmt_rel w w'" by (auto simp: effect_def stmt_rel_def)
qed (auto simp: stmt_rel_def Acquire_world)

lemma stmts_tables: "(\<And>w. tables (snd (m w)) = tables w) \<Longrightarrow> stmts m"
  by (simp add: steps_def stmt_rel_def)

lemma db_steps_keep: "db_step\<^sup>*\<^sup>* d d' \<Longrightarrow> db_ok d \<Longrightarrow> db_ok d'"
  by (induction rule: rtranclp_induct) (simp_all add: db_step_keeps)

section \<open>Spent claims\<close>

text \<open>A milestone of a watch is spent when it is claimed, and stays so when the watch goes: its id
  is below the sequence and is never given again.\<close>

definition spent_db :: "database \<Rightarrow> int \<times> string \<Rightarrow> bool" where
  "spent_db d p \<longleftrightarrow> fst p < watches_id_seq d \<and>
     ((\<exists>a\<in>set (watch_alerts d). (a_WatchID a, a_Kind a) = p) \<or> fst p \<notin> w_ID ` set (watches d))"

lemma spent_frame:
  assumes "watches_id_seq d' = watches_id_seq d" and "watch_alerts d' = watch_alerts d"
    and "w_ID ` set (watches d') = w_ID ` set (watches d)"
  shows "spent_db d' p = spent_db d p"
  using assms by (simp add: spent_db_def)

lemma spent_delete_watches:
  assumes "spent_db d p" and "distinct (map w_ID (watches d))"
  shows "spent_db (delete_watches P d) p"
proof (cases "fst p \<in> w_ID ` set (filter (\<lambda>w. \<not> P w) (watches d))")
  case True
  then obtain w where w: "w \<in> set (watches d)" "\<not> P w" "w_ID w = fst p" by auto
  then have "fst p \<notin> w_ID ` set (filter P (watches d))"
    using assms(2) by (auto simp: distinct_map dest: inj_onD)
  moreover have "fst p \<in> w_ID ` set (watches d)" using w by (metis imageI)
  ultimately show ?thesis
    using assms(1) by (auto simp: spent_db_def delete_watches_def Let_def)
next
  case False
  then show ?thesis using assms(1) by (simp add: spent_db_def delete_watches_def Let_def)
qed

lemma spent_step:
  assumes "db_step d d'" and "db_ok d" and "spent_db d p"
  shows "spent_db d' p"
proof -
  have ids: "distinct (map w_ID (watches d))" using assms(2) by (simp add: db_ok_def keyed_def)
  have seq: "fst p < watches_id_seq d" using assms(3) by (simp add: spent_db_def)
  note frame = spent_frame [of _ d, THEN iffD2, OF _ _ _ assms(3)]
  show ?thesis
    using assms(1)
  proof cases
    case (1 w k now)
    then show ?thesis using assms(3) by (auto simp: spent_db_def ClaimWatchAlert_def)
  next
    case (3 u e c i l now)
    then show ?thesis using assms(3) seq by (auto simp: spent_db_def CreateWatch_def Let_def)
  next
    case (4 w u now)
    then show ?thesis
      using spent_delete_watches [OF assms(3) ids] by (simp add: DeleteWatch_def Let_def)
  next
    case (13 u now)
    then show ?thesis
      using spent_delete_watches [OF assms(3) ids, of "\<lambda>w. w_UserID w = u"]
      by (simp add: DeleteUser_def Let_def spent_db_def)
  qed (rule frame; simp add: query_defs Let_def split: list.split)+
qed

lemma spent_steps: "db_step\<^sup>*\<^sup>* d d' \<Longrightarrow> db_ok d \<Longrightarrow> spent_db d p \<Longrightarrow> spent_db d' p"
proof (induction rule: rtranclp_induct)
  case (step y z)
  then show ?case using db_steps_keep spent_step by blast
qed

lemma ClaimWatchAlert_new:
  assumes "db_ok d" and "ClaimWatchAlert i s t d = (Inr n, d')" and "n \<noteq> 0"
  shows "\<not> spent_db d (i, s) \<and> spent_db d' (i, s)"
proof -
  have ids: "\<forall>w\<in>set (watches d). w_ID w < watches_id_seq d"
    using assms(1) by (simp add: db_ok_def keyed_def)
  show ?thesis
    using assms(2,3) ids by (auto simp: ClaimWatchAlert_def spent_db_def split: if_splits)
qed

section \<open>The contract holds of the database\<close>

text \<open>What else runs is other handlers' statements, at any time: the environment of the pool is
  \<open>stmt_rel\<close>.\<close>

definition quiet_deps ::
  "(string \<Rightarrow> (world, EventSnapshot result) prog) \<Rightarrow> (Alert \<Rightarrow> (world, unit) prog) \<Rightarrow> bool" where
  "quiet_deps fetch notify \<longleftrightarrow> (\<forall>tm. stmts (fetch tm)) \<and> (\<forall>a. stmts (notify a))"

lemma act_step_db:
  assumes "quiet_deps fetch notify"
  shows "db_step\<^sup>*\<^sup>* (tables w) (tables (snd (act_step (world_deps fetch notify) m w)))"
  using stmts.act_in [of fetch notify w m] assms by (simp add: quiet_deps_def stmt_rel_def)

lemma world_claim_store:
  assumes "quiet_deps fetch notify"
  shows "claim_store (world_deps fetch notify) stmt_rel (\<lambda>w. db_ok (tables w)) (\<lambda>w. spent_db (tables w))"
proof unfold_locales
  fix w w' :: world and i s n
  assume ok: "db_ok (tables w)" and n: "(n :: int) \<noteq> 0"
    and r: "d_ClaimWatchAlert (world_deps fetch notify) i s w = (Inr n, w')"
  have r': "exec (ClaimWatchAlert i s) w = (Inr n, w')" using r by (simp add: world_deps_def)
  then obtain t where "ClaimWatchAlert i s t (tables w) = (Inr n, tables w')"
    using exec_acked [of "ClaimWatchAlert i s" w n] by auto
  then show "\<not> spent_db (tables w) (i, s) \<and> spent_db (tables w') (i, s)"
    using ClaimWatchAlert_new [OF ok _ n] by blast
next
  fix w w' :: world
  assume "db_ok (tables w)" and "stmt_rel w w'"
  then show "db_ok (tables w')" by (simp add: stmt_rel_def db_steps_keep)
next
  fix w w' :: world and p
  assume "db_ok (tables w)" and "spent_db (tables w) p" and "stmt_rel w w'"
  then show "spent_db (tables w') p" by (simp add: stmt_rel_def spent_steps)
next
  fix w :: world and m :: "unit result act"
  assume "db_ok (tables w)"
  then show "db_ok (tables (snd (act_step (world_deps fetch notify) m w)))"
    using act_step_db [OF assms] by (blast intro: db_steps_keep)
next
  fix w :: world and p and m :: "unit result act"
  assume "db_ok (tables w)" and "spent_db (tables w) p"
  then show "spent_db (tables (snd (act_step (world_deps fetch notify) m w))) p"
    using act_step_db [OF assms] by (blast intro: spent_steps)
qed

text \<open>The wiring of main.go: the client over the shared limiter, and one sender.\<close>

definition main_deps ::
  "string \<Rightarrow> string \<Rightarrow> (string \<Rightarrow> unit result) \<Rightarrow> (string \<Rightarrow> tmEvent list result)
    \<Rightarrow> (string \<Rightarrow> tmEvent result) \<Rightarrow> world Sender \<Rightarrow> world Deps" where
  "main_deps baseURL apiKey newRequest decodeSearch decodeEvent emailSender =
     world_deps (Client_GetEvent (world_client baseURL apiKey newRequest decodeSearch decodeEvent))
       (Notify (world_notifier [emailSender]))"

lemma quiet_main:
  "quiet_deps (Client_GetEvent (world_client b k nr ds de))
     (Notify (world_notifier [email_sender marshal nr' key from_addr]))"
  unfolding quiet_deps_def
  by (intro conjI allI stmts.client_in stmts.notify_in) (simp add: stmts.send_in)

interpretation alerts: claim_store
    "main_deps b k nr ds de (email_sender marshal nr' key from_addr)" stmt_rel
    "\<lambda>w. db_ok (tables w)" "\<lambda>w. spent_db (tables w)"
  for b k nr ds de marshal nr' key from_addr
  unfolding main_deps_def by (rule world_claim_store [OF quiet_main])

section \<open>Schedules\<close>

text \<open>A scheduler's choices, executed: the pool reaches what a schedule computes.\<close>

datatype choice = Job bool unsubscriber int | Call nat

fun pool_do :: "'w Deps \<Rightarrow> choice \<Rightarrow> 'w pool \<Rightarrow> 'w pool" where
  "pool_do d (Job hn unsub i) s = s\<lparr>po_polls := po_polls s @ [ProcessEvent hn unsub i]\<rparr>"
| "pool_do d (Call i) s =
     (if i < length (po_polls s)
      then case act_step d (po_polls s ! i) (po_world s) of (t, w) \<Rightarrow>
        \<lparr>po_polls = (po_polls s)[i := t], po_world = w,
         po_alerts = po_alerts s @ act_alerts (po_polls s ! i),
         po_listed = po_listed s @ act_listed d (po_polls s ! i) (po_world s),
         po_past = po_past s @ [po_world s]\<rparr>
      else s)"

lemma pool_run_reach:
  "pool_reach d env w0 s \<Longrightarrow> pool_reach d env w0 (fold (pool_do d) cs s)"
proof (induction cs arbitrary: s)
  case (Cons c cs)
  have "pool_reach d env w0 (pool_do d c s)"
  proof (cases c)
    case (Job hn unsub i)
    then show ?thesis using pool_reach.step [OF Cons.prems pool_step.start] by simp
  next
    case (Call i)
    then show ?thesis
      using Cons.prems pool_reach.step [OF Cons.prems pool_step.call]
      by (cases "act_step d (po_polls s ! i) (po_world s)") simp
  qed
  then show ?case using Cons.IH by simp
qed simp

definition ex_tm :: "string \<Rightarrow> tmEvent" where
  "ex_tm status = \<lparr>ev_ID = ''G5'', ev_Name = ''Foo & <Bar>'', ev_URL = ''https://tm/e'',
     ev_Dates = \<lparr>da_Start = \<lparr>st_DateTime = [], st_LocalDate = []\<rparr>, da_StatusCode = status\<rparr>,
     ev_Sales = \<lparr>sa_Public = \<lparr>ps_StartDateTime = [], ps_EndDateTime = [], ps_StartTBD = False,
                             ps_StartTBA = False\<rparr>, sa_Presales = []\<rparr>,
     ev_Venues = []\<rparr>"

definition ex_deps :: "string \<Rightarrow> world Deps" where
  "ex_deps status = main_deps ''https://tm'' ''k'' (\<lambda>_. Inr ()) (\<lambda>_. Inr []) (\<lambda>_. Inr (ex_tm status))
     (email_sender (\<lambda>_. []) (\<lambda>_. Inr ()) [] ''a@b'')"

definition pool_init :: "'w \<Rightarrow> 'w pool" where
  "pool_init w = \<lparr>po_polls = [], po_world = w, po_alerts = [], po_listed = [], po_past = []\<rparr>"

text \<open>Two polls of the same event, each call of one followed by the same call of the other.\<close>

definition ex_race :: "world pool" where
  "ex_race = fold (pool_do (ex_deps ''cancelled''))
     ([Job True None 1, Job True None 1] @ concat (replicate 9 [Call 0, Call 1]) @ [Call 0])
     (pool_init ex_world)"

lemma ex_race_run:
  "map (\<lambda>a. (alert_pair a, al_ToEmail a)) (po_alerts ex_race) =
     [((1, ''cancelled''), ''demo@example.com'')]"
  by code_simp

lemma ex_race_alerts:
  "map alert_pair (po_alerts ex_race) = [(1, ''cancelled'')]"
  "map al_ToEmail (po_alerts ex_race) = [''demo@example.com'']"
  using ex_race_run by (auto simp: map_eq_Cons_conv)

lemma ex_race_reach: "pool_reach (ex_deps ''cancelled'') stmt_rel ex_world ex_race"
  unfolding ex_race_def pool_init_def by (intro pool_run_reach pool_reach.init)

section \<open>Properties\<close>

text \<open>(C1) Whatever polls run at once on whatever events, and whatever other statements, refused or
  unacknowledged, come between their calls, each milestone of a watch is handed to the notifier
  at most once, unless it is the availability edge, which is re-armed on purpose.\<close>
theorem milestones_told_once:
  assumes "pool_reach (main_deps b k nr ds de (email_sender marshal nr' key from_addr)) stmt_rel w0 s"
    and "reachable_db (tables w0)"
  shows "distinct (filter once_kind (map alert_pair (po_alerts s)))"
proof -
  have "db_ok (tables w0)" using assms(2) by (rule reachable_db_ok)
  then show ?thesis using alerts.told_once [OF assms(1)] by (simp add: alerts.told_def)
qed

theorem milestones_told_once_witness:
  "map alert_pair (po_alerts ex_race) = [(1, ''cancelled'')] \<and>
   distinct (filter once_kind (map alert_pair (po_alerts ex_race)))"
proof
  show "map alert_pair (po_alerts ex_race) = [(1, ''cancelled'')]" by (rule ex_race_alerts(1))
  have "tables ex_world = ex_db" by (simp add: ex_world_def)
  then show "distinct (filter once_kind (map alert_pair (po_alerts ex_race)))"
    using milestones_told_once ex_db_reachable ex_race_reach unfolding ex_deps_def by metis
qed

text \<open>(C2) An alert handed to the notifier is for a watch that, in some state of the database the pool
  passed through, was active and belonged to a user whose address is the alert's, was verified,
  and had not unsubscribed.\<close>
theorem alerts_had_consent:
  assumes "pool_reach (main_deps b k nr ds de (email_sender marshal nr' key from_addr)) stmt_rel w0 s"
    and "a \<in> set (po_alerts s)"
  shows "\<exists>v\<in>set (po_past s). \<exists>x\<in>set (watches (tables v)). \<exists>u\<in>set (users (tables v)).
    w_ID x = al_WatchID a \<and> w_UserID x = u_ID u \<and> w_Status x = ''active'' \<and>
    u_Email u = al_ToEmail a \<and> ts_Valid (u_EmailVerifiedAt u) \<and> \<not> ts_Valid (u_UnsubscribedAt u)"
proof -
  obtain row v i rows where row: "may_mail row a" "v \<in> set (po_past s)" "row \<in> set rows"
    "fst (exec (ListActiveWatchesForEvent i) v) = Inr rows"
    using alert_was_read [OF assms] by (metis Deps.select_convs(7) main_deps_def world_deps_def)
  obtain t where "ListActiveWatchesForEvent i t (tables v) =
      (Inr rows, tables (snd (exec (ListActiveWatchesForEvent i) v)))"
    using row(4) by (rule exec_acked)
  then obtain x u where "x \<in> set (watches (tables v))" "u \<in> set (users (tables v))"
    "row = active_row x u" "u_ID u = w_UserID x" "w_Status x = ''active''"
    using row(3) by (auto simp: ListActiveWatchesForEvent_def)
  then show ?thesis
    using row(1,2) by (force simp: may_mail_def active_row_def)
qed

theorem alerts_had_consent_witness:
  "\<exists>v\<in>set (po_past ex_race). \<exists>u\<in>set (users (tables v)).
     u_Email u = ''demo@example.com'' \<and> ts_Valid (u_EmailVerifiedAt u)"
proof -
  obtain a where a: "a \<in> set (po_alerts ex_race)" "al_ToEmail a = ''demo@example.com''"
    using ex_race_alerts(2) by (cases "po_alerts ex_race") auto
  show ?thesis
    using alerts_had_consent [OF ex_race_reach [unfolded ex_deps_def] a(1)] a(2) by metis
qed

end
