(* ===== verification/Scheduler.thy ===== *)
theory Scheduler
  imports World
begin

text \<open>
  \<open>internal/scheduler/scheduler.go\<close>: the loop that finds the events due for a poll and puts them on
  the jobs channel. What it uses of the quota, the store and the channel is the record
  \<open>Scheduler\<close>; its contract is the locale \<open>job_source\<close>, interpreted on the world.
\<close>

section \<open>The code\<close>

record 'w Scheduler =
  sc_Remaining :: "('w, int) prog"
  sc_ListDueEvents :: "int \<Rightarrow> ('w, event list result) prog"
  sc_send :: "int \<Rightarrow> ('w, send_result) prog"
  sc_maxTick :: int

fun enqueue :: "'w Scheduler \<Rightarrow> event list \<Rightarrow> ('w, unit) prog" where
  "enqueue s [] = ret ()"
| "enqueue s (e # es) =
     letM (sc_send s (e_ID e)) (\<lambda>r. case r of
       Sent \<Rightarrow> enqueue s es
     | CtxDone \<Rightarrow> ret ()
     | Saturated \<Rightarrow> ret ())"

definition scheduler_tick :: "'w Scheduler \<Rightarrow> ('w, unit) prog" where
  "scheduler_tick s =
     letM (sc_Remaining s) (\<lambda>budget.
     let budget = (if budget > sc_maxTick s then sc_maxTick s else budget)
     in if budget \<le> 0 then ret ()
        else orElse (sc_ListDueEvents s (to_int32 budget))
               (\<lambda>_. ret ())
               (\<lambda>rows. enqueue s rows))"

text \<open>\<open>Run\<close>: what its \<open>select\<close> receives, one after the other.\<close>

datatype run_event = CtxCancelled | TickerFired

fun scheduler_Run :: "'w Scheduler \<Rightarrow> run_event list \<Rightarrow> ('w, unit) prog" where
  "scheduler_Run s [] = ret ()"
| "scheduler_Run s (CtxCancelled # xs) = ret ()"
| "scheduler_Run s (TickerFired # xs) = andThen (scheduler_tick s) (scheduler_Run s xs)"

definition world_scheduler :: "int \<Rightarrow> world Scheduler" where
  "world_scheduler maxTick =
     \<lparr>sc_Remaining = (\<lambda>w. case Remaining ClassPoll (clock w) (quota w) of (r, q) \<Rightarrow> (r, w\<lparr>quota := q\<rparr>)),
      sc_ListDueEvents = (\<lambda>limit. exec (ListDueEvents limit)),
      sc_send = select_send,
      sc_maxTick = maxTick\<rparr>"

section \<open>The contract\<close>

text \<open>
  \<open>sent\<close> is what was put on the channel; \<open>left\<close> the budget; \<open>ok\<close> an invariant, under which the
  listed events satisfy \<open>due\<close> and are no more than asked for.
\<close>

locale job_source =
  fixes s :: "'w Scheduler" and sent :: "'w \<Rightarrow> int list" and left :: "'w \<Rightarrow> int"
    and ok :: "'w \<Rightarrow> bool" and due :: "'w \<Rightarrow> int \<Rightarrow> bool"
  assumes remaining: "ok w \<Longrightarrow> sc_Remaining s w = (n, w') \<Longrightarrow>
      n = left w \<and> sent w' = sent w \<and> ok w' \<and> (\<forall>i. due w' i = due w i)"
    and listed: "ok w \<Longrightarrow> sc_ListDueEvents s n w = (Inr rows, w') \<Longrightarrow>
      sent w' = sent w \<and> ok w' \<and> length rows \<le> nat n \<and> (\<forall>e\<in>set rows. due w' (e_ID e)) \<and>
      distinct (map e_ID rows)"
    and listing_failed: "ok w \<Longrightarrow> sc_ListDueEvents s n w = (Inl e, w') \<Longrightarrow> sent w' = sent w \<and> ok w'"
    and send: "ok w \<Longrightarrow> sc_send s i w = (r, w') \<Longrightarrow>
      sent w' = sent w @ (if r = Sent then [i] else []) \<and> ok w' \<and> (\<forall>i. due w' i = due w i)"
begin

lemma enqueue_sends:
  assumes "ok w"
  shows "\<exists>k. sent (snd (enqueue s rows w)) = sent w @ take k (map e_ID rows) \<and>
    ok (snd (enqueue s rows w)) \<and> (\<forall>i. due (snd (enqueue s rows w)) i = due w i)"
  using assms
proof (induction rows arbitrary: w)
  case Nil
  then show ?case by simp
next
  case (Cons e rows)
  obtain r w1 where r: "sc_send s (e_ID e) w = (r, w1)" by force
  note w1 = send [OF Cons.prems r]
  show ?case
  proof (cases r)
    case Sent
    obtain k where "sent (snd (enqueue s rows w1)) = sent w1 @ take k (map e_ID rows) \<and>
        ok (snd (enqueue s rows w1)) \<and> (\<forall>i. due (snd (enqueue s rows w1)) i = due w1 i)"
      using Cons.IH [of w1] w1 by blast
    then show ?thesis using r w1 Sent by (intro exI [of _ "Suc k"]) (simp add: letM_run)
  qed (use r w1 in \<open>auto simp: letM_run intro!: exI [of _ 0]\<close>)
qed

text \<open>A tick sends distinct events that are due, no more than the remaining budget and the cap.\<close>

lemma tick_sends:
  assumes "ok w"
  shows "\<exists>is. sent (snd (scheduler_tick s w)) = sent w @ is \<and> ok (snd (scheduler_tick s w)) \<and>
    int (length is) \<le> max 0 (min (left w) (sc_maxTick s)) \<and> distinct is \<and>
    (\<forall>i\<in>set is. due (snd (scheduler_tick s w)) i)"
proof -
  obtain n w1 where n: "sc_Remaining s w = (n, w1)" by force
  note w1 = remaining [OF assms n]
  define b where "b = (if n > sc_maxTick s then sc_maxTick s else n)"
  have tick: "scheduler_tick s w = (if b \<le> 0 then ret () else
      orElse (sc_ListDueEvents s (to_int32 b)) (\<lambda>_. ret ()) (enqueue s)) w1"
    unfolding scheduler_tick_def letM_run b_def n by (simp add: Let_def)
  show ?thesis
  proof (cases "b \<le> 0")
    case True
    then show ?thesis using w1 by (intro exI [of _ "[]"]) (simp add: tick)
  next
    case False
    obtain r w2 where r: "sc_ListDueEvents s (to_int32 b) w1 = (r, w2)" by force
    show ?thesis
    proof (cases r)
      case (Inl e)
      then have "sent w2 = sent w1 \<and> ok w2" using listing_failed w1 r by blast
      then show ?thesis using w1 r Inl False
        by (intro exI [of _ "[]"]) (simp add: tick prog_defs)
    next
      case (Inr rows)
      have w2: "sent w2 = sent w1" "ok w2" "length rows \<le> nat (to_int32 b)"
        "\<forall>e\<in>set rows. due w2 (e_ID e)" "distinct (map e_ID rows)"
        using listed [of w1 "to_int32 b" rows w2] w1 r Inr by blast+
      obtain k where k: "sent (snd (enqueue s rows w2)) = sent w2 @ take k (map e_ID rows)"
          "ok (snd (enqueue s rows w2))" "\<forall>i. due (snd (enqueue s rows w2)) i = due w2 i"
        using enqueue_sends [OF w2(2)] by blast
      have run: "snd (scheduler_tick s w) = snd (enqueue s rows w2)"
        using r Inr False by (simp add: tick prog_defs)
      have "to_int32 b \<le> b"
      proof (cases "b < 2 ^ 31")
        case True
        then show ?thesis using False by (subst to_int32_id) simp_all
      next
        case False
        then show ?thesis using to_int32_range [of b] by linarith
      qed
      then have "int (length (take k (map e_ID rows))) \<le> b" using w2(3) False by simp
      moreover have "max 0 (min (left w) (sc_maxTick s)) = b"
        using False w1 by (auto simp: b_def max_def min_def split: if_splits)
      moreover have "set (take k (map e_ID rows)) \<subseteq> set (map e_ID rows)" by (rule set_take_subset)
      ultimately show ?thesis
        unfolding run using k w1 w2
        by (intro exI [of _ "take k (map e_ID rows)"]) (auto simp: distinct_take)
    qed
  qed
qed


end

section \<open>The contract holds of the world\<close>

text \<open>An event is due when it exists, some active watch is for it, and its time has come.\<close>

definition due_event :: "world \<Rightarrow> int \<Rightarrow> bool" where
  "due_event w i \<longleftrightarrow> (\<exists>e\<in>set (events (tables w)). e_ID e = i \<and>
     ts_Time (e_NextPollAt e) \<le> clock w \<and>
     (\<exists>x\<in>set (watches (tables w)). w_EventID x = i \<and> w_Status x = ''active''))"

lemma due_event_update [simp]:
  "due_event (w\<lparr>quota := q\<rparr>) i = due_event w i" "due_event (w\<lparr>selects := x\<rparr>) i = due_event w i"
  "due_event (w\<lparr>jobs := j\<rparr>) i = due_event w i" "due_event (w\<lparr>enqueued := n\<rparr>) i = due_event w i"
  by (simp_all add: due_event_def)

lemma ListDueEvents_run:
  assumes "db_ok d" and "fst (ListDueEvents n t d) = Inr rows"
  shows "length rows \<le> nat n \<and> distinct (map e_ID rows) \<and>
    (\<forall>e\<in>set rows. e \<in> set (events d) \<and> ts_Time (e_NextPollAt e) \<le> t \<and>
       (\<exists>x\<in>set (watches d). w_EventID x = e_ID e \<and> w_Status x = ''active''))"
proof -
  let ?P = "\<lambda>e. ts_Time (e_NextPollAt e) \<le> t \<and>
     (\<exists>x\<in>set (watches d). w_EventID x = e_ID e \<and> w_Status x = ''active'')"
  let ?due = "sort_key (\<lambda>e. ts_Time (e_NextPollAt e)) (filter ?P (events d))"
  have rows: "rows = take (nat n) ?due"
    using assms(2) by (simp add: ListDueEvents_def Let_def split: if_splits)
  have "distinct (map e_ID (filter ?P (events d)))"
    using assms(1) by (simp add: db_ok_def keyed_def distinct_map_filter)
  then have "distinct (map e_ID ?due)" by (simp add: distinct_map)
  then have "distinct (map e_ID rows)" by (simp only: rows distinct_take flip: take_map)
  moreover have "set rows \<subseteq> set (filter ?P (events d))"
    unfolding rows using set_take_subset [of "nat n" ?due] by simp
  ultimately show ?thesis by (auto simp: rows)
qed

lemma exec_ListDueEvents:
  assumes "db_ok (tables w)" and "exec (ListDueEvents n) w = (Inr rows, w')"
  shows "length rows \<le> nat n \<and> distinct (map e_ID rows) \<and> (\<forall>e\<in>set rows. due_event w' (e_ID e))"
proof -
  obtain t where t: "t \<le> clock w'" "ListDueEvents n t (tables w) = (Inr rows, tables w')"
    using exec_acked [of "ListDueEvents n" w rows] assms(2) by auto
  then have "tables w' = tables w" using read_only(8) [of n t "tables w"] by simp
  then show ?thesis
    using ListDueEvents_run [OF assms(1), of n t rows] t by (force simp: due_event_def)
qed

interpretation jobs: job_source "world_scheduler maxTick" enqueued
    "\<lambda>w. fst (Remaining ClassPoll (clock w) (quota w))" "\<lambda>w. db_ok (tables w)" due_event
  for maxTick
proof unfold_locales
  fix w :: world and n rows w'
  assume ok: "db_ok (tables w)"
    and r: "sc_ListDueEvents (world_scheduler maxTick) n w = (Inr rows, w')"
  have e: "exec (ListDueEvents n) w = (Inr rows, w')" using r by (simp add: world_scheduler_def)
  then have w': "w' = snd (exec (ListDueEvents n) w)" by simp
  have "tables w' = tables w" unfolding w' by (rule exec_tables [of "\<lambda>d d'. d' = d"]) simp_all
  then show "enqueued w' = enqueued w \<and> db_ok (tables w') \<and> length rows \<le> nat n \<and>
      (\<forall>e\<in>set rows. due_event w' (e_ID e)) \<and> distinct (map e_ID rows)"
    using exec_ListDueEvents [OF ok e] ok w' by simp
next
  fix w :: world and n e w'
  assume ok: "db_ok (tables w)"
    and r: "sc_ListDueEvents (world_scheduler maxTick) n w = (Inl e, w')"
  then have w': "w' = snd (exec (ListDueEvents n) w)" by (simp add: world_scheduler_def)
  have "tables w' = tables w" unfolding w' by (rule exec_tables [of "\<lambda>d d'. d' = d"]) simp_all
  then show "enqueued w' = enqueued w \<and> db_ok (tables w')" using ok w' by simp
qed (auto simp: world_scheduler_def select_send_def Let_def split: prod.splits if_splits)

lemma send_fits: "length (jobs w) \<le> jobs_cap w \<Longrightarrow>
    length (jobs (snd (select_send j w))) \<le> jobs_cap (snd (select_send j w))"
  by (auto simp: select_send_def Let_def split: prod.split)

lemma enqueue_fits: "length (jobs w) \<le> jobs_cap w \<Longrightarrow>
    length (jobs (snd (enqueue (world_scheduler m) es w))) \<le> jobs_cap (snd (enqueue (world_scheduler m) es w))"
proof (induction es arbitrary: w)
  case (Cons e es)
  then show ?case using send_fits [of w "e_ID e"]
    by (simp add: letM_run world_scheduler_def split: send_result.split)
qed simp

section \<open>Properties\<close>

text \<open>(C22) One tick puts on the jobs channel distinct events, each with an active watch and with its
  time come; no more of them than the day's remaining poll budget and the cap per tick, and never
  more than the channel holds, whatever the workers take meanwhile.\<close>
theorem tick_enqueues_due_events:
  assumes "reachable_db (tables w)" and "length (jobs w) \<le> jobs_cap w"
  shows "let w' = snd (scheduler_tick (world_scheduler maxTick) w) in
    length (jobs w') \<le> jobs_cap w' \<and>
    (\<exists>is. enqueued w' = enqueued w @ is \<and> distinct is \<and> (\<forall>i\<in>set is. due_event w' i) \<and>
      int (length is) \<le> max 0 (min (fst (Remaining ClassPoll (clock w) (quota w))) maxTick))"
proof -
  have "db_ok (tables w)" using assms(1) by (rule reachable_db_ok)
  moreover have "length (jobs (snd (scheduler_tick (world_scheduler maxTick) w)))
      \<le> jobs_cap (snd (scheduler_tick (world_scheduler maxTick) w))"
    using assms(2)
    by (auto simp: scheduler_tick_def prog_defs Let_def world_scheduler_def
        intro!: enqueue_fits [of _ maxTick, unfolded world_scheduler_def]
        split: prod.split sum.split dest!: arg_cong [where f = snd])
  ultimately show ?thesis
    using jobs.tick_sends [of w maxTick] by (fastforce simp: Let_def world_scheduler_def)
qed

theorem tick_enqueues_due_events_witness:
  "enqueued (snd (scheduler_tick (world_scheduler 20) ex_world)) = [1] \<and>
   due_event (snd (scheduler_tick (world_scheduler 20) ex_world)) 1"
proof -
  have e: "enqueued (snd (scheduler_tick (world_scheduler 20) ex_world)) = [1]"
    and n: "enqueued ex_world = []" by code_simp+
  have "reachable_db (tables ex_world)" "length (jobs ex_world) \<le> jobs_cap ex_world"
    using ex_db_reachable by (simp_all add: ex_world_def)
  from tick_enqueues_due_events [OF this, of 20] show ?thesis
    using e n by (auto simp: Let_def)
qed

end
