(* ===== verification/Isolation.thy ===== *)
theory Isolation
  imports PoolWorld
begin

text \<open>
  What of the database belongs to one user, and which statements leave it alone. The handlers pass
  the caller's id to every statement; the theory shows, statement by statement, that with the id
  of another user the \<open>dossier\<close> of this one is untouched: the user's row, watches, claimed
  milestones, notifications and links.
\<close>

section \<open>The data of one user\<close>

record dossier =
  do_users :: "user list"
  do_watches :: "watch list"
  do_alerts :: "watchAlert list"
  do_notifications :: "notification list"
  do_tokens :: "authToken list"

definition mine :: "int \<Rightarrow> database \<Rightarrow> int \<Rightarrow> bool" where
  "mine u d i \<longleftrightarrow> i \<in> w_ID ` set (filter (\<lambda>w. w_UserID w = u) (watches d))"

definition dossier_of :: "int \<Rightarrow> database \<Rightarrow> dossier" where
  "dossier_of u d = \<lparr>
     do_users = filter (\<lambda>x. u_ID x = u) (users d),
     do_watches = filter (\<lambda>w. w_UserID w = u) (watches d),
     do_alerts = filter (\<lambda>a. mine u d (a_WatchID a)) (watch_alerts d),
     do_notifications = filter (\<lambda>n. mine u d (n_WatchID n)) (notifications d),
     do_tokens = filter (\<lambda>t. t_UserID t = u) (auth_tokens d)\<rparr>"

definition spares :: "int \<Rightarrow> database \<Rightarrow> database \<Rightarrow> bool" where
  "spares u d d' \<longleftrightarrow> (db_ok d \<longrightarrow> db_ok d' \<and> dossier_of u d' = dossier_of u d)"

lemma sparesI: "(db_ok d \<Longrightarrow> db_ok d') \<Longrightarrow> (db_ok d \<Longrightarrow> dossier_of u d' = dossier_of u d) \<Longrightarrow> spares u d d'"
  by (simp add: spares_def)

lemma filter_update_spare:
  "(\<And>r. P r \<Longrightarrow> \<not> Q r \<and> \<not> Q (f r)) \<Longrightarrow> filter Q (update_where P f rows) = filter Q rows"
  by (induction rows) (auto simp: update_where_def)

lemma filter_drop: "(\<And>x. P x \<Longrightarrow> Q x) \<Longrightarrow> filter P (filter Q xs) = filter P xs"
  by (induction xs) auto

lemma filter_conj: "(\<And>x. P x \<Longrightarrow> Q x) \<Longrightarrow> filter (\<lambda>x. Q x \<and> P x) xs = filter P xs"
  by (induction xs) auto

lemma mine_cong:
  "filter (\<lambda>w. w_UserID w = u) (watches d') = filter (\<lambda>w. w_UserID w = u) (watches d) \<Longrightarrow> mine u d' = mine u d"
  by (simp add: mine_def fun_eq_iff)

text \<open>A statement that touches no row of the user's watches leaves alone what hangs on them.\<close>

lemma dossier_frame:
  assumes "filter (\<lambda>x. u_ID x = u) (users d') = filter (\<lambda>x. u_ID x = u) (users d)"
    and "filter (\<lambda>w. w_UserID w = u) (watches d') = filter (\<lambda>w. w_UserID w = u) (watches d)"
    and "filter (\<lambda>a. mine u d (a_WatchID a)) (watch_alerts d') = filter (\<lambda>a. mine u d (a_WatchID a)) (watch_alerts d)"
    and "filter (\<lambda>n. mine u d (n_WatchID n)) (notifications d') = filter (\<lambda>n. mine u d (n_WatchID n)) (notifications d)"
    and "filter (\<lambda>t. t_UserID t = u) (auth_tokens d') = filter (\<lambda>t. t_UserID t = u) (auth_tokens d)"
  shows "dossier_of u d' = dossier_of u d"
  using assms mine_cong [OF assms(2)] by (simp add: dossier_of_def)

section \<open>Statements that spare a user\<close>

lemma spares_read: "(\<And>t d. snd (q t d) = d) \<Longrightarrow> spares u d (snd (q t d))"
  by (simp add: spares_def)

lemma spares_CreateWatch: "v \<noteq> u \<Longrightarrow> spares u d (snd (CreateWatch v e c i l now d))"
  by (rule sparesI, rule CreateWatch_keeps, assumption, rule dossier_frame)
    (simp_all add: CreateWatch_def Let_def)

lemma spares_delete_watches:
  assumes "\<And>w. P w \<Longrightarrow> w_UserID w \<noteq> u" and "db_ok d"
  shows "dossier_of u (delete_watches P d) = dossier_of u d"
proof -
  have kept: "i \<notin> w_ID ` set (filter P (watches d))" if m: "mine u d i" for i
  proof
    assume "i \<in> w_ID ` set (filter P (watches d))"
    then obtain x y where x: "x \<in> set (watches d)" "w_UserID x = u" "w_ID x = i"
      and y: "y \<in> set (watches d)" "P y" "w_ID y = i"
      using m by (auto simp: mine_def)
    have k: "keyed w_ID (watches d) (watches_id_seq d)" using assms(2) by (simp add: db_ok_def)
    have "x = y" using x(3) y(3) by (intro keyed_inj [OF k x(1) y(1)]) simp
    then show False using assms(1) [OF y(2)] x(2) by simp
  qed
  show ?thesis
  proof (rule dossier_frame)
    show "filter (\<lambda>w. w_UserID w = u) (watches (delete_watches P d)) = filter (\<lambda>w. w_UserID w = u) (watches d)"
      using assms(1) by (simp add: delete_watches_def Let_def del: filter_filter) (rule filter_drop, blast)
    show "filter (\<lambda>a. mine u d (a_WatchID a)) (watch_alerts (delete_watches P d)) =
        filter (\<lambda>a. mine u d (a_WatchID a)) (watch_alerts d)"
      using kept by (simp add: delete_watches_def Let_def del: filter_filter) (rule filter_drop, simp)
    show "filter (\<lambda>n. mine u d (n_WatchID n)) (notifications (delete_watches P d)) =
        filter (\<lambda>n. mine u d (n_WatchID n)) (notifications d)"
      using kept by (simp add: delete_watches_def Let_def del: filter_filter) (rule filter_drop, simp)
  qed (simp_all add: delete_watches_def Let_def)
qed

lemma spares_DeleteWatch: "v \<noteq> u \<Longrightarrow> spares u d (snd (DeleteWatch i v now d))"
  by (rule sparesI, rule DeleteWatch_keeps, assumption)
    (auto simp: DeleteWatch_def Let_def intro!: spares_delete_watches)

lemma spares_UpdateWatch: "v \<noteq> u \<Longrightarrow> spares u d (snd (UpdateWatch s i v now d))"
  by (rule sparesI, rule UpdateWatch_keeps, assumption, rule dossier_frame)
    (auto simp: UpdateWatch_def Let_def intro!: filter_update_spare)

lemma spares_UpsertEvent: "spares u d (snd (UpsertEventByTMID p now d))"
  by (rule sparesI, rule UpsertEventByTMID_keeps, assumption, rule dossier_frame)
    (simp_all add: UpsertEventByTMID_def Let_def split: list.split)

lemma spares_MarkEventDue: "spares u d (snd (MarkEventDue e now d))"
  by (rule sparesI, rule MarkEventDue_keeps, assumption, rule dossier_frame)
    (simp_all add: MarkEventDue_def)

lemma spares_DeleteUser:
  assumes "v \<noteq> u"
  shows "spares u d (snd (DeleteUser v now d))"
proof (rule sparesI, rule DeleteUser_keeps, assumption)
  assume ok: "db_ok d"
  let ?d = "delete_watches (\<lambda>w. w_UserID w = v) d"
  have d: "dossier_of u ?d = dossier_of u d"
    using assms ok by (intro spares_delete_watches) auto
  have "dossier_of u (snd (DeleteUser v now d)) = dossier_of u ?d"
    using assms by (intro dossier_frame)
      (auto simp: DeleteUser_def Let_def delete_watches_def intro!: filter_conj)
  then show "dossier_of u (snd (DeleteUser v now d)) = dossier_of u d" using d by simp
qed

lemma spares_SetResubscribed: "v \<noteq> u \<Longrightarrow> spares u d (snd (SetResubscribed v now d))"
  by (rule sparesI, rule SetResubscribed_keeps, assumption, rule dossier_frame)
    (auto simp: SetResubscribed_def intro!: filter_update_spare)

lemma spares_CreateAuthToken: "v \<noteq> u \<Longrightarrow> spares u d (snd (CreateAuthToken v h p x now d))"
  by (rule sparesI, rule CreateAuthToken_keeps, assumption, rule dossier_frame)
    (simp_all add: CreateAuthToken_def Let_def)

lemma spares_DeleteAuthTokens: "v \<noteq> u \<Longrightarrow> spares u d (snd (DeleteAuthTokensForUser v p now d))"
  by (rule sparesI, rule DeleteAuthTokensForUser_keeps, assumption, rule dossier_frame)
    (auto simp: DeleteAuthTokensForUser_def intro!: filter_conj)

section \<open>Programs that spare a user\<close>

definition spares_rel :: "int \<Rightarrow> world \<Rightarrow> world \<Rightarrow> bool" where
  "spares_rel u w w' \<longleftrightarrow> spares u (tables w) (tables w')"

interpretation spares: step_preorder "spares_rel u"
  by unfold_locales (auto simp: spares_rel_def spares_def)

lemma spares_exec: "(\<And>t d. spares u d (snd (q t d))) \<Longrightarrow> steps (spares_rel u) (exec q)"
  unfolding steps_def spares_rel_def
  by (intro allI exec_tables [of "spares u"]) (simp_all add: spares_def)

lemma spares_tables: "(\<And>w. tables (snd (m w)) = tables w) \<Longrightarrow> steps (spares_rel u) m"
  by (simp add: steps_def spares_rel_def spares_def)

end
