(* ===== verification/WatchService.thy ===== *)
theory WatchService
  imports Isolation
begin

text \<open>
  \<open>internal/service/watch.go\<close>: creating, listing, updating and deleting a user's watches, the
  history of an event, and the sale state the UI shows. The properties are in theory WatchBook.
\<close>

section \<open>Types and sale states\<close>

record watch_service =
  ws_GetEvent :: "string \<Rightarrow> (world, EventSnapshot result) prog"
  ws_maxPerUser :: int

definition NewWatchService ::
  "(string \<Rightarrow> (world, EventSnapshot result) prog) \<Rightarrow> int \<Rightarrow> watch_service" where
  "NewWatchService tm maxPerUser = \<lparr>ws_GetEvent = tm, ws_maxPerUser = maxPerUser\<rparr>"

record CreateWatchInput =
  cw_TMEventID :: string
  cw_ConditionType :: string
  cw_PollIntervalS :: int

record WatchView =
  wv_ID :: int
  wv_TMEventID :: string
  wv_EventName :: string
  wv_Venue :: string
  wv_EventDate :: "time option"
  wv_ConditionType :: string
  wv_Status :: string
  wv_Availability :: "string option"
  wv_PollIntervalS :: int
  wv_CreatedAt :: time
  wv_LastPolledAt :: "time option"
  wv_EventURL :: string
  wv_PublicOnsaleStart :: "time option"
  wv_PublicOnsaleEnd :: "time option"
  wv_EarliestPresale :: "time option"
  wv_EarliestPresaleName :: "string option"
  wv_PresaleCount :: int
  wv_OnsaleTBD :: bool
  wv_SaleState :: string

record SnapshotView =
  sv_Availability :: "string option"
  sv_CheckedAt :: time

record UpdateWatchInput =
  uw_Status :: "string option"

definition SaleStateChecking :: string where "SaleStateChecking = ''checking''"
definition SaleStateCancelled :: string where "SaleStateCancelled = ''cancelled''"
definition SaleStateChanged :: string where "SaleStateChanged = ''rescheduled''"
definition SaleStatePresale :: string where "SaleStatePresale = ''presale_open''"
definition SaleStateOnSale :: string where "SaleStateOnSale = ''on_sale''"
definition SaleStateClosed :: string where "SaleStateClosed = ''sale_closed''"
definition SaleStateScheduled :: string where "SaleStateScheduled = ''onsale_scheduled''"
definition SaleStateDateUnknown :: string where "SaleStateDateUnknown = ''onsale_tbd''"
definition SaleStateUnknown :: string where "SaleStateUnknown = ''unknown''"

lemmas sale_states = SaleStateChecking_def SaleStateCancelled_def SaleStateChanged_def
  SaleStatePresale_def SaleStateOnSale_def SaleStateClosed_def SaleStateScheduled_def
  SaleStateDateUnknown_def SaleStateUnknown_def

definition str :: "string option \<Rightarrow> string" where
  "str p = (case p of None \<Rightarrow> [] | Some s \<Rightarrow> s)"

definition watch_strPtr :: "string \<Rightarrow> string option" where
  "watch_strPtr s = (if s = [] then None else Some s)"

definition deriveSaleState ::
  "bool \<Rightarrow> string option \<Rightarrow> time option \<Rightarrow> time option \<Rightarrow> time option \<Rightarrow> bool \<Rightarrow> time \<Rightarrow> string" where
  "deriveSaleState polled availability publicStart publicEnd presale onsaleTBD now =
     (if \<not> polled then SaleStateChecking
      else if str availability = ''cancelled'' then SaleStateCancelled
      else if str availability = ''postponed'' \<or> str availability = ''rescheduled'' then SaleStateChanged
      else if isBefore publicEnd now then SaleStateClosed
      else if str availability = ''onsale'' then SaleStateOnSale
      else if notAfter presale now then SaleStatePresale
      else if publicStart \<noteq> None then SaleStateScheduled
      else if onsaleTBD then SaleStateDateUnknown
      else SaleStateUnknown)"

definition watchViewFromEvent :: "watch \<Rightarrow> event \<Rightarrow> (world, WatchView) prog" where
  "watchViewFromEvent w ev =
     (let publicStart = TimePtr (e_PublicOnsaleAt ev);
          publicEnd = TimePtr (e_PublicOnsaleEndAt ev);
          presale = TimePtr (e_EarliestPresaleAt ev)
      in letM time_Now (\<lambda>now. ret
        \<lparr>wv_ID = w_ID w, wv_TMEventID = e_TmEventID ev, wv_EventName = e_Name ev,
         wv_Venue = e_Venue ev, wv_EventDate = TimePtr (e_EventDate ev),
         wv_ConditionType = w_ConditionType w, wv_Status = w_Status w,
         wv_Availability = e_LastAvailability ev, wv_PollIntervalS = w_PollIntervalS w,
         wv_CreatedAt = ts_Time (w_CreatedAt w), wv_LastPolledAt = TimePtr (e_LastPolledAt ev),
         wv_EventURL = e_Url ev,
         wv_PublicOnsaleStart = publicStart, wv_PublicOnsaleEnd = publicEnd,
         wv_EarliestPresale = presale, wv_EarliestPresaleName = e_EarliestPresaleName ev,
         wv_PresaleCount = e_PresaleCount ev, wv_OnsaleTBD = e_OnsaleTbd ev,
         wv_SaleState = deriveSaleState (ts_Valid (e_LastPolledAt ev)) (e_LastAvailability ev)
           publicStart publicEnd presale (e_OnsaleTbd ev) now\<rparr>))"

text \<open>A row of \<open>ListWatchesWithEvent\<close> is a watch and its event, so its view is the same.\<close>

definition watchViewFromRow :: "watch \<times> event \<Rightarrow> (world, WatchView) prog" where
  "watchViewFromRow r = (case r of (w, ev) \<Rightarrow> watchViewFromEvent w ev)"

section \<open>Operations\<close>

text \<open>The three stages of \<open>Create\<close>: the cap, the event, the watch.\<close>

definition limit_text :: "int \<Rightarrow> string" where
  "limit_text n = '': you can track up to '' @ FormatInt n @ '' events at once ''
     @ [CHR 0xE2, CHR 0x80, CHR 0x94] @ '' remove one to add another''"

definition checkCap :: "watch_service \<Rightarrow> int \<Rightarrow> (world, unit result) prog" where
  "checkCap s userID =
     (if ws_maxPerUser s > 0
      then orWrap ''count watches: '' (exec (CountWatchesForUser userID)) (\<lambda>n.
             if n \<ge> ws_maxPerUser s
             then ret (Inl (Annotate (Sentinel ErrWatchLimitReached) (limit_text (ws_maxPerUser s))))
             else ret (Inr ()))
      else ret (Inr ()))"

definition snapshot_params :: "EventSnapshot \<Rightarrow> upsertEventParams" where
  "snapshot_params snap =
     \<lparr>q_TmEventID = sn_TMEventID snap, q_Name = sn_Name snap, q_Url = sn_URL snap,
      q_Venue = sn_Venue snap, q_EventDate = TSPtr (sn_EventDate snap),
      q_LastAvailability = Some (sn_Availability snap),
      q_PublicOnsaleAt = TSPtr (sn_PublicOnsaleStart snap),
      q_PublicOnsaleEndAt = TSPtr (sn_PublicOnsaleEnd snap),
      q_EarliestPresaleAt = TSPtr (sn_EarliestPresaleStart snap),
      q_EarliestPresaleName = watch_strPtr (sn_EarliestPresaleName snap),
      q_PresaleCount = to_int32 (sn_PresaleCount snap), q_OnsaleTbd = sn_OnsaleTBD snap\<rparr>"

definition resolveEvent :: "watch_service \<Rightarrow> string \<Rightarrow> (world, event result) prog" where
  "resolveEvent s tmEventID =
     orElse (exec (GetEventByTMID tmEventID))
       (\<lambda>err. if errors_Is err ErrNoRows
              then orWrap (''fetch event '' @ quote tmEventID @ '': '') (ws_GetEvent s tmEventID) (\<lambda>snap.
                     orWrap ''resolve event: '' (exec (UpsertEventByTMID (snapshot_params snap)))
                       (\<lambda>ev. ret (Inr ev)))
              else ret (Inl (Wrap ''resolve event: '' err)))
       (\<lambda>ev. ret (Inr ev))"

definition Create :: "watch_service \<Rightarrow> int \<Rightarrow> CreateWatchInput \<Rightarrow> (world, WatchView result) prog" where
  "Create s userID inp =
     (if cw_TMEventID inp = [] then ret (Inl (Sentinel ErrMissingEventID))
      else if cw_ConditionType inp \<noteq> ''becomes_available'' then ret (Inl (Sentinel ErrInvalidCondition))
      else orRet (checkCap s userID) (\<lambda>_.
        orRet (resolveEvent s (cw_TMEventID inp)) (\<lambda>ev.
        let interval = (if cw_PollIntervalS inp \<le> 0 then 300 else cw_PollIntervalS inp)
        in orWrap ''create watch: ''
             (exec (CreateWatch userID (e_ID ev) (cw_ConditionType inp) interval
                      (str (e_LastAvailability ev) = ''onsale''))) (\<lambda>w.
           andThen (exec (MarkEventDue (e_ID ev)))
             (letM (watchViewFromEvent w ev) (\<lambda>v. ret (Inr v)))))))"

fun row_views :: "(watch \<times> event) list \<Rightarrow> (world, WatchView list) prog" where
  "row_views [] = ret []"
| "row_views (r # rs) = letM (watchViewFromRow r) (\<lambda>v. letM (row_views rs) (\<lambda>vs. ret (v # vs)))"

definition watches_List :: "int \<Rightarrow> (world, WatchView list result) prog" where
  "watches_List userID =
     orRet (exec (ListWatchesWithEvent userID)) (\<lambda>rows. letM (row_views rows) (\<lambda>vs. ret (Inr vs)))"

definition History :: "int \<Rightarrow> int \<Rightarrow> (world, SnapshotView list result) prog" where
  "History userID watchID =
     orElse (exec (GetWatch watchID userID))
       (\<lambda>err. if errors_Is err ErrNoRows then ret (Inl (Sentinel ErrWatchNotFound)) else ret (Inl err))
       (\<lambda>w. orRet (exec (ListSnapshotsForEvent (w_EventID w))) (\<lambda>snaps.
          ret (Inr (map (\<lambda>sp. \<lparr>sv_Availability = s_AvailabilityStatus sp,
                               sv_CheckedAt = ts_Time (s_CheckedAt sp)\<rparr>) snaps))))"

definition watches_Update :: "int \<Rightarrow> int \<Rightarrow> UpdateWatchInput \<Rightarrow> (world, WatchView result) prog" where
  "watches_Update userID watchID inp =
     (if (case uw_Status inp of None \<Rightarrow> False | Some st \<Rightarrow> st \<noteq> ''active'' \<and> st \<noteq> ''paused'')
      then ret (Inl (Sentinel ErrInvalidStatus))
      else orElse (exec (UpdateWatch (uw_Status inp) watchID userID))
        (\<lambda>err. if errors_Is err ErrNoRows then ret (Inl (Sentinel ErrWatchNotFound)) else ret (Inl err))
        (\<lambda>w. orRet (exec (GetEvent (w_EventID w))) (\<lambda>ev.
           letM (watchViewFromEvent w ev) (\<lambda>v. ret (Inr v)))))"

definition watches_Delete :: "int \<Rightarrow> int \<Rightarrow> (world, unit result) prog" where
  "watches_Delete userID watchID =
     orRet (exec (DeleteWatch watchID userID)) (\<lambda>n.
     if n = 0 then ret (Inl (Sentinel ErrWatchNotFound)) else ret (Inr ()))"

end
