(* ===== verification/WatchBook.thy ===== *)
theory WatchBook
  imports WatchService
begin

text \<open>
  What the watch service gives: the cap, the price of a refused creation, what a creation adds, the
  label against the evaluator, the abstract book of watches it implements, and that it spares the
  data of every other user.
\<close>

section \<open>The service main.go builds\<close>

text \<open>A fetcher that does not write to the database.\<close>

definition quiet_fetch :: "watch_service \<Rightarrow> bool" where
  "quiet_fetch s \<longleftrightarrow> (\<forall>tm. steps still (ws_GetEvent s tm))"

lemma quiet_fetch_main:
  "quiet_fetch (NewWatchService (Client_GetEvent (world_client b k nr ds de)) m)"
  by (simp add: quiet_fetch_def NewWatchService_def still_client)

lemma view_still: "steps still (watchViewFromEvent w ev)"
  unfolding watchViewFromEvent_def Let_def by (intro steps_intros same_other)

lemma row_views_still: "steps still (row_views rows)"
proof (induction rows)
  case Nil
  show ?case unfolding row_views.simps by (rule same.steps_ret)
next
  case (Cons r rows)
  then show ?case
    unfolding row_views.simps watchViewFromRow_def split_beta by (intro steps_intros view_still)
qed

section \<open>Creating\<close>

definition watch_count :: "int \<Rightarrow> database \<Rightarrow> int" where
  "watch_count u d = int (length (filter (\<lambda>w. w_UserID w = u) (watches d)))"

lemma same_watches:
  "steps (same watches) (exec (CountWatchesForUser u))" "steps (same watches) (exec (GetEventByTMID tm))"
  "steps (same watches) (exec (UpsertEventByTMID p))" "steps (same watches) (exec (MarkEventDue e))"
  by (rule same_exec; simp add: query_defs Let_def split: list.split)+

lemma same_watches_stages:
  assumes "quiet_fetch s"
  shows "steps (same watches) (checkCap s u)" and "steps (same watches) (resolveEvent s tm)"
proof -
  have fetch: "steps (same watches) (ws_GetEvent s tm)"
    by (rule still_same) (use assms in \<open>simp add: quiet_fetch_def\<close>)
  show "steps (same watches) (checkCap s u)"
    unfolding checkCap_def by (intro steps_intros same_watches)
  show "steps (same watches) (resolveEvent s tm)"
    unfolding resolveEvent_def by (intro steps_intros same_watches fetch)
qed

lemma checkCap_ok:
  assumes "checkCap s u w = (Inr x, w1)" and "ws_maxPerUser s > 0"
  shows "watch_count u (tables w1) < ws_maxPerUser s"
proof -
  obtain n where c: "exec (CountWatchesForUser u) w = (Inr n, w1)" and n: "\<not> n \<ge> ws_maxPerUser s"
    using assms by (auto simp: checkCap_def orWrap_def orElse_run split: prod.splits sum.splits if_splits)
  show ?thesis
    using exec_Inr [OF c] n by (auto simp: CountWatchesForUser_def watch_count_def)
qed

text \<open>Once past the cap and the event, a creation runs one INSERT and one best-effort UPDATE.\<close>

lemma Create_stages:
  assumes "quiet_fetch s"
  obtains (refused) e w1 where "Create s u inp w = (Inl e, w1)" "watches (tables w1) = watches (tables w)"
  | (inserted) w1 ev w2 r w3 where "checkCap s u w = (Inr (), w1)"
      "resolveEvent s (cw_TMEventID inp) w1 = (Inr ev, w2)"
      "exec (CreateWatch u (e_ID ev) ''becomes_available''
         (if cw_PollIntervalS inp \<le> 0 then 300 else cw_PollIntervalS inp)
         (str (e_LastAvailability ev) = ''onsale'')) w2 = (r, w3)"
      "Create s u inp w = (case r of Inl e \<Rightarrow> (Inl (Wrap ''create watch: '' e), w3)
         | Inr x \<Rightarrow> (case watchViewFromEvent x ev (snd (exec (MarkEventDue (e_ID ev)) w3)) of
             (v, w4) \<Rightarrow> (Inr v, w4)))"
proof (cases "cw_TMEventID inp = [] \<or> cw_ConditionType inp \<noteq> ''becomes_available''")
  case True
  then obtain e where "Create s u inp w = (Inl e, w)" by (cases "cw_TMEventID inp = []") (auto simp: Create_def)
  then show ?thesis using refused [of e w] by simp
next
  case False
  obtain r1 w1 where c: "checkCap s u w = (r1, w1)" by force
  show ?thesis
  proof (cases r1)
    case (Inl e)
    then show ?thesis
      using refused [of e w1] False c sameD [OF same_watches_stages(1) [OF assms], of u w]
      by (simp add: Create_def orRet_def orElse_run)
  next
    case (Inr x)
    obtain r2 w2 where v: "resolveEvent s (cw_TMEventID inp) w1 = (r2, w2)" by force
    show ?thesis
    proof (cases r2)
      case (Inl e)
      then show ?thesis
        using refused [of e w2] False c Inr v sameD [OF same_watches_stages(1) [OF assms], of u w]
          sameD [OF same_watches_stages(2) [OF assms], of "cw_TMEventID inp" w1]
        by (simp add: Create_def orRet_def orElse_run)
    next
      case (Inr ev)
      let ?q = "CreateWatch u (e_ID ev) ''becomes_available''
         (if cw_PollIntervalS inp \<le> 0 then 300 else cw_PollIntervalS inp)
         (str (e_LastAvailability ev) = ''onsale'')"
      obtain r w3 where q: "exec ?q w2 = (r, w3)" by force
      show ?thesis
        using inserted [of w1 ev w2 r w3] False c \<open>r1 = Inr x\<close> v Inr q
        by (simp add: Create_def orRet_def orWrap_def orElse_run andThen_run letM_run Let_def split_beta
            split: sum.split)
    qed
  qed
qed

lemma CreateWatch_watches:
  "watches (snd (CreateWatch u e c i l t d)) =
    (case fst (CreateWatch u e c i l t d) of Inl _ \<Rightarrow> watches d | Inr x \<Rightarrow> watches d @ [x])"
  by (simp add: CreateWatch_def Let_def)

lemma CreateWatch_row:
  "fst (CreateWatch u e c i l t d) = Inr x \<Longrightarrow>
    x = \<lparr>w_ID = watches_id_seq d, w_UserID = u, w_EventID = e, w_ConditionType = c, w_Status = ''active'',
         w_LastEvaluation = l, w_LastNotifiedAt = NULL_TS, w_PollIntervalS = i, w_CreatedAt = NOW t\<rparr>"
  by (auto simp: CreateWatch_def Let_def split: if_splits)


text \<open>What a creation adds: one active watch of the caller with the default interval where none is
  given, armed by what the event was doing.\<close>

definition adds_watch :: "int \<Rightarrow> CreateWatchInput \<Rightarrow> watch list \<Rightarrow> watch list \<Rightarrow> bool" where
  "adds_watch u inp ws ws' \<longleftrightarrow>
     (\<exists>x. ws' = ws @ [x] \<and> w_UserID x = u \<and> w_Status x = ''active'' \<and>
        w_ConditionType x = ''becomes_available'' \<and> \<not> ts_Valid (w_LastNotifiedAt x) \<and>
        w_PollIntervalS x = (if cw_PollIntervalS inp \<le> 0 then 300 else cw_PollIntervalS inp))"

lemma Create_watches:
  assumes quiet: "quiet_fetch s"
  shows "watches (tables (snd (Create s u inp w))) = watches (tables w) \<and>
      (\<exists>e. fst (Create s u inp w) = Inl e) \<or>
    adds_watch u inp (watches (tables w)) (watches (tables (snd (Create s u inp w)))) \<and>
      (ws_maxPerUser s > 0 \<longrightarrow> watch_count u (tables w) < ws_maxPerUser s)"
  using assms
proof (cases rule: Create_stages [of s u inp w])
  case (refused e w1)
  then show ?thesis by simp
next
  case (inserted w1 ev w2 r w3)
  let ?i = "if cw_PollIntervalS inp \<le> 0 then 300 else cw_PollIntervalS inp"
  let ?q = "CreateWatch u (e_ID ev) ''becomes_available'' ?i (str (e_LastAvailability ev) = ''onsale'')"
  have w1: "watches (tables w1) = watches (tables w)"
    using sameD [OF same_watches_stages(1) [OF quiet], of u w] inserted(1) by simp
  have w2: "watches (tables w2) = watches (tables w)"
    using sameD [OF same_watches_stages(2) [OF quiet], of "cw_TMEventID inp" w1] inserted(2) w1 by simp
  have cap: "ws_maxPerUser s > 0 \<longrightarrow> watch_count u (tables w) < ws_maxPerUser s"
    using checkCap_ok [OF inserted(1)] w1 by (auto simp: watch_count_def)
  have row: "adds_watch u inp (watches (tables w)) (watches (snd (?q t (tables w2))))"
    if "fst (?q t (tables w2)) = Inr x" for t x
    using CreateWatch_row [OF that] that CreateWatch_watches [of u "e_ID ev" _ ?i _ t "tables w2"]
    by (simp add: adds_watch_def w2 NULL_TS_def)
  have w3: "watches (tables w3) = watches (tables w) \<and> (\<exists>e. r = Inl e) \<or>
      adds_watch u inp (watches (tables w)) (watches (tables w3))"
    using inserted(3) row CreateWatch_watches [of u "e_ID ev" _ ?i _ _ "tables w2"] w2
    by (cases rule: exec_cases [of w2 ?q]) (auto split: sum.splits)
  show ?thesis
  proof (cases r)
    case (Inl e)
    then show ?thesis using inserted(4) w3 cap by auto
  next
    case (Inr x)
    let ?w = "snd (exec (MarkEventDue (e_ID ev)) w3)"
    have "watches (tables (snd (Create s u inp w))) = watches (tables w3)"
      using inserted(4) Inr sameD [OF same_watches(4), of "e_ID ev" w3] sameD [OF view_still, of x ev ?w]
      by (simp add: split_beta)
    then show ?thesis using w3 cap Inr by auto
  qed
qed

lemma adds_watch_count:
  "adds_watch u inp (watches d) (watches d') \<Longrightarrow> watch_count u d' = watch_count u d + 1"
  by (auto simp: adds_watch_def watch_count_def)

lemma read_exec_frame:
  assumes "\<And>t d. snd (q t d) = d"
  shows "wire (snd (exec q w)) = wire w" "tokens (snd (exec q w)) = tokens w"
    "quota (snd (exec q w)) = quota w" "tables (snd (exec q w)) = tables w"
  using exec_read_world [of q w] assms by auto

lemma Create_over_limit:
  assumes "ws_maxPerUser s > 0" and "watch_count u (tables w) \<ge> ws_maxPerUser s"
  shows "(\<exists>e. fst (Create s u inp w) = Inl e) \<and> tables (snd (Create s u inp w)) = tables w \<and>
    wire (snd (Create s u inp w)) = wire w \<and> tokens (snd (Create s u inp w)) = tokens w \<and>
    quota (snd (Create s u inp w)) = quota w"
proof -
  let ?q = "CountWatchesForUser u"
  obtain r w1 where e: "exec ?q w = (r, w1)" by force
  have frame: "wire w1 = wire w" "tokens w1 = tokens w" "quota w1 = quota w" "tables w1 = tables w"
    using read_exec_frame [of ?q w] e by simp_all
  have "n \<ge> ws_maxPerUser s" if "r = Inr n" for n
    using exec_Inr [of ?q w n w1] e that assms by (auto simp: CountWatchesForUser_def watch_count_def)
  then have "\<exists>e. checkCap s u w = (Inl e, w1)"
    using e assms(1) by (cases r) (simp_all add: checkCap_def orWrap_def orElse_run)
  then show ?thesis using frame by (auto simp: Create_def orRet_def orElse_run)
qed

section \<open>The label and the evaluator\<close>

text \<open>The label of an event that was polled, from what the evaluator observes of it.\<close>

definition label_of :: "Observation \<Rightarrow> string" where
  "label_of ob = deriveSaleState True (Some (ob_Availability ob)) (ob_PublicStart ob) (ob_PublicEnd ob)
     (ob_EarliestPresale ob) (ob_OnsaleTBD ob) (ob_Now ob)"

lemmas label_defs = label_of_def deriveSaleState_def str_def sale_states closed_def opt_time_defs

lemma label_called_off:
  assumes "\<not> over ob"
  shows "label_of ob = SaleStateCancelled \<longleftrightarrow> reports ob p KindCancelled"
    and "label_of ob = SaleStateChanged \<longleftrightarrow> reports ob p KindRescheduled"
    and "label_of ob = SaleStateClosed \<longleftrightarrow> reports ob p KindSaleClosed"
  using assms
  by (cases "ob_PublicEnd ob"; cases "ob_EarliestPresale ob"; simp add: label_defs called_off_def)+

lemma label_open:
  "reports ob p KindPublicOpen \<or> reports ob p KindStatusOnsale \<Longrightarrow> label_of ob = SaleStateOnSale"
  "reports ob p KindPresaleOpen \<Longrightarrow> label_of ob \<in> {SaleStatePresale, SaleStateOnSale}"
  "reports ob p KindOnsaleAnnounced \<Longrightarrow>
    label_of ob \<in> {SaleStateScheduled, SaleStatePresale, SaleStateOnSale, SaleStateClosed}"
  by (cases "ob_PublicEnd ob"; cases "ob_EarliestPresale ob";
      auto simp: label_defs called_off_def opened_since_def)+

section \<open>The book of watches\<close>

text \<open>What a user sees of the service: a finite map from the id of each of the user's watches to its
  event, its condition and whether it is active or paused.\<close>

type_synonym book = "int \<Rightarrow> (int \<times> string \<times> string) option"

definition entry :: "watch \<Rightarrow> int \<times> string \<times> string" where
  "entry w = (w_EventID w, w_ConditionType w, w_Status w)"

definition book_of :: "int \<Rightarrow> database \<Rightarrow> book" where
  "book_of u d = map_of (map (\<lambda>w. (w_ID w, entry w)) (filter (\<lambda>w. w_UserID w = u) (watches d)))"

fun book_update :: "string option \<Rightarrow> int \<Rightarrow> book \<Rightarrow> book" where
  "book_update st i b =
     (case b i of None \<Rightarrow> b
      | Some (e, c, old) \<Rightarrow> b(i \<mapsto> (e, c, case st of None \<Rightarrow> old | Some new \<Rightarrow> new)))"

definition book_delete :: "int \<Rightarrow> book \<Rightarrow> book" where
  "book_delete i b = b(i := None)"

definition book_create :: "int \<Rightarrow> int \<Rightarrow> book \<Rightarrow> book" where
  "book_create i e b = b(i \<mapsto> (e, ''becomes_available'', ''active''))"

lemma map_of_update_where:
  "distinct (map w_ID ws) \<Longrightarrow> (\<And>w. w_ID (f w) = w_ID w \<and> w_UserID (f w) = w_UserID w) \<Longrightarrow>
    map_of (map (\<lambda>w. (w_ID w, entry w)) (filter (\<lambda>w. w_UserID w = u)
      (update_where (\<lambda>w. w_ID w = i \<and> w_UserID w = u) f ws))) j =
    (if j = i then map_option (\<lambda>w. entry (f w)) (find (\<lambda>w. w_ID w = i \<and> w_UserID w = u) ws)
     else map_of (map (\<lambda>w. (w_ID w, entry w)) (filter (\<lambda>w. w_UserID w = u) ws)) j)"
  by (induction ws) (auto simp: update_where_def)

lemma map_of_find:
  "map_of (map (\<lambda>w. (w_ID w, entry w)) (filter (\<lambda>w. w_UserID w = u) ws)) i =
    map_option entry (find (\<lambda>w. w_ID w = i \<and> w_UserID w = u) ws)"
  by (induction ws) auto

lemma book_find: "book_of u d i = map_option entry (find (\<lambda>w. w_ID w = i \<and> w_UserID w = u) (watches d))"
  by (simp add: book_of_def map_of_find)

lemma book_none: "book_of u d i = None \<longleftrightarrow> filter (\<lambda>w. w_ID w = i \<and> w_UserID w = u) (watches d) = []"
  by (auto simp: book_find find_None_iff filter_empty_conv)

lemma book_UpdateWatch:
  assumes "db_ok d"
  shows "book_of u (snd (UpdateWatch st i u t d)) = book_update st i (book_of u d)"
proof
  fix j
  let ?f = "\<lambda>w. w\<lparr>w_Status := case st of None \<Rightarrow> w_Status w | Some s \<Rightarrow> s\<rparr>"
  let ?w = "find (\<lambda>w. w_ID w = i \<and> w_UserID w = u) (watches d)"
  have ids: "distinct (map w_ID (watches d))" using assms by (simp add: db_ok_def keyed_def)
  have "book_of u (snd (UpdateWatch st i u t d)) j =
      (if j = i then map_option (\<lambda>w. entry (?f w)) ?w else book_of u d j)"
    using map_of_update_where [OF ids, of ?f u i j]
    by (simp add: UpdateWatch_def Let_def book_of_def)
  then show "book_of u (snd (UpdateWatch st i u t d)) j = book_update st i (book_of u d) j"
    using book_find [of u d i] by (cases ?w) (auto simp: entry_def split: option.split)
qed

lemma book_DeleteWatch: "book_of u (snd (DeleteWatch i u t d)) = book_delete i (book_of u d)"
proof
  fix j
  have "map_of (map (\<lambda>w. (w_ID w, entry w)) (filter (\<lambda>w. w_UserID w = u)
      (filter (\<lambda>w. \<not> (w_ID w = i \<and> w_UserID w = u)) ws))) j =
    (if j = i then None else map_of (map (\<lambda>w. (w_ID w, entry w)) (filter (\<lambda>w. w_UserID w = u) ws)) j)" for ws
    by (induction ws) auto
  then show "book_of u (snd (DeleteWatch i u t d)) j = book_delete i (book_of u d) j"
    by (simp add: DeleteWatch_def Let_def delete_watches_def book_of_def book_delete_def)
qed

lemma book_CreateWatch:
  assumes "db_ok d" and "fst (CreateWatch u e ''becomes_available'' n l t d) = Inr x"
  shows "book_of u (snd (CreateWatch u e ''becomes_available'' n l t d)) =
    book_create (w_ID x) e (book_of u d)" and "book_of u d (w_ID x) = None"
proof -
  have x: "x = \<lparr>w_ID = watches_id_seq d, w_UserID = u, w_EventID = e, w_ConditionType = ''becomes_available'',
      w_Status = ''active'', w_LastEvaluation = l, w_LastNotifiedAt = NULL_TS, w_PollIntervalS = n,
      w_CreatedAt = NOW t\<rparr>"
    using CreateWatch_row [OF assms(2)] .
  have fresh: "w_ID w \<noteq> watches_id_seq d" if "w \<in> set (watches d)" for w
    using assms(1) that by (fastforce simp: db_ok_def keyed_def)
  then show none: "book_of u d (w_ID x) = None"
    by (auto simp: book_none x filter_empty_conv)
  show "book_of u (snd (CreateWatch u e ''becomes_available'' n l t d)) =
      book_create (w_ID x) e (book_of u d)"
  proof -
    have "watches (snd (CreateWatch u e ''becomes_available'' n l t d)) = watches d @ [x]"
      using assms(2) by (simp add: CreateWatch_watches)
    moreover have "map_of (ys @ [(k, v)]) = (map_of ys)(k \<mapsto> v)" if "map_of ys k = None"
      for ys and k :: int and v :: "int \<times> string \<times> string"
      using that by (auto simp: fun_eq_iff map_add_def split: option.splits)
    ultimately show ?thesis
      using none by (simp add: book_of_def book_create_def entry_def x)
  qed
qed

text \<open>The operations of the service on the book.\<close>

lemma Delete_book:
  assumes "outcomes w = []"
  shows "book_of u (tables (snd (watches_Delete u i w))) = book_delete i (book_of u (tables w))"
    and "fst (watches_Delete u i w) =
      (if book_of u (tables w) i = None then Inl (Sentinel ErrWatchNotFound) else Inr ())"
proof -
  have n: "fst (DeleteWatch i u t d) = Inr (int (length (filter (\<lambda>w. w_ID w = i \<and> w_UserID w = u) (watches d))))" for t d
    by (simp add: DeleteWatch_def Let_def)
  show "book_of u (tables (snd (watches_Delete u i w))) = book_delete i (book_of u (tables w))"
    using assms book_DeleteWatch [of u i "clock w" "tables w"]
    by (simp add: watches_Delete_def orRet_def orElse_run n)
  show "fst (watches_Delete u i w) =
      (if book_of u (tables w) i = None then Inl (Sentinel ErrWatchNotFound) else Inr ())"
    using assms by (simp add: watches_Delete_def orRet_def orElse_run n book_none)
qed

definition status_ok :: "UpdateWatchInput \<Rightarrow> bool" where
  "status_ok inp \<longleftrightarrow> (case uw_Status inp of None \<Rightarrow> True | Some st \<Rightarrow> st = ''active'' \<or> st = ''paused'')"

lemma UpdateWatch_row:
  assumes "db_ok d" and "filter (\<lambda>w. w_ID w = i \<and> w_UserID w = u) (watches d) = x # xs"
  obtains y e where "fst (UpdateWatch st i u t d) = Inr y" "w_ID y = i"
    "GetEvent (w_EventID y) t' (snd (UpdateWatch st i u t d)) = (Inr e, snd (UpdateWatch st i u t d))"
proof -
  let ?f = "\<lambda>w. w\<lparr>w_Status := case st of None \<Rightarrow> w_Status w | Some s \<Rightarrow> s\<rparr>"
  have x: "x \<in> set (watches d)" "w_ID x = i" using assms(2) by (auto simp: filter_eq_Cons_iff)
  have "w_EventID x \<in> e_ID ` set (events d)"
    using assms(1) x by (auto simp: db_ok_def refers_def)
  then obtain e where e: "e \<in> set (events d)" "e_ID e = w_EventID x" by auto
  have "e \<in> set (events (snd (UpdateWatch st i u t d)))" using e by (simp add: UpdateWatch_def Let_def)
  from GetEvent_found [OF UpdateWatch_keeps [OF assms(1)] this]
  show ?thesis
    using that [of "?f x" e] assms(2) x e by (simp add: UpdateWatch_def Let_def one_row_def)
qed

lemma Update_book:
  assumes "outcomes w = []" and "db_ok (tables w)"
  shows "book_of u (tables (snd (watches_Update u i inp w))) =
      (if status_ok inp then book_update (uw_Status inp) i (book_of u (tables w)) else book_of u (tables w)) \<and>
    (case fst (watches_Update u i inp w) of
        Inl e \<Rightarrow> if status_ok inp then e = Sentinel ErrWatchNotFound \<and> book_of u (tables w) i = None
                 else e = Sentinel ErrInvalidStatus
      | Inr v \<Rightarrow> status_ok inp \<and> wv_ID v = i \<and> book_of u (tables w) i \<noteq> None)"
proof (cases "status_ok inp")
  case False
  then have "watches_Update u i inp w = (Inl (Sentinel ErrInvalidStatus), w)"
    by (auto simp: watches_Update_def status_ok_def split: option.splits)
  with False show ?thesis by simp
next
  case True
  let ?q = "UpdateWatch (uw_Status inp) i u (clock w) (tables w)"
  let ?w = "w\<lparr>tables := snd ?q\<rparr>"
  have b: "book_of u (snd ?q) = book_update (uw_Status inp) i (book_of u (tables w))"
    using assms(2) by (rule book_UpdateWatch)
  have guard: "\<not> (case uw_Status inp of None \<Rightarrow> False | Some st \<Rightarrow> st \<noteq> ''active'' \<and> st \<noteq> ''paused'')"
    using True by (auto simp: status_ok_def split: option.splits)
  show ?thesis
  proof (cases "filter (\<lambda>w. w_ID w = i \<and> w_UserID w = u) (watches (tables w))")
    case Nil
    then have "fst ?q = Inl (Sentinel ErrNoRows)" by (simp add: UpdateWatch_def Let_def one_row_def)
    then have "watches_Update u i inp w = (Inl (Sentinel ErrWatchNotFound), ?w)"
      using guard assms(1) by (simp add: watches_Update_def orElse_run)
    then show ?thesis using True b Nil by (simp add: book_none)
  next
    case (Cons x xs)
    obtain y e where y: "fst ?q = Inr y" "w_ID y = i"
        "GetEvent (w_EventID y) (clock w) (snd ?q) = (Inr e, snd ?q)"
      using UpdateWatch_row [OF assms(2) Cons] by blast
    then have r: "watches_Update u i inp w =
        (Inr (fst (watchViewFromEvent y e ?w)), snd (watchViewFromEvent y e ?w))"
      using guard assms(1) by (simp add: watches_Update_def orElse_run orRet_def letM_run)
    have "tables (snd (watchViewFromEvent y e ?w)) = snd ?q" using sameD [OF view_still, of y e ?w] by simp
    moreover have "wv_ID (fst (watchViewFromEvent y e ?w)) = i"
      using y(2) by (simp add: watchViewFromEvent_def letM_run Let_def)
    ultimately show ?thesis using r True b Cons by (simp add: book_none)
  qed
qed

lemma sound_stages:
  assumes "quiet_fetch s"
  shows "sound (checkCap s u)" and "sound (resolveEvent s tm)"
proof -
  have fetch: "steps (keeping (\<lambda>w. db_ok (tables w))) (ws_GetEvent s tm)"
    using assms by (auto simp: quiet_fetch_def same_def steps_def keeping_def)
  have q: "steps (keeping (\<lambda>w. db_ok (tables w))) (exec (CountWatchesForUser u))"
    "steps (keeping (\<lambda>w. db_ok (tables w))) (exec (GetEventByTMID tm))"
    "steps (keeping (\<lambda>w. db_ok (tables w))) (exec (UpsertEventByTMID p))" for p
    by (rule sound_exec [unfolded sound_def]; simp add: UpsertEventByTMID_keeps)+
  show "sound (checkCap s u)"
    unfolding sound_def checkCap_def by (intro steps_intros q)
  show "sound (resolveEvent s tm)"
    unfolding sound_def resolveEvent_def by (intro steps_intros q fetch)
qed

lemma Create_book:
  assumes "Create s u inp w = (Inr v, w')" and "db_ok (tables w)" and quiet: "quiet_fetch s"
  shows "\<exists>e. book_of u (tables w) (wv_ID v) = None \<and>
    book_of u (tables w') = book_create (wv_ID v) e (book_of u (tables w))"
  using quiet
proof (cases rule: Create_stages [of s u inp w])
  case (refused e w1)
  then show ?thesis using assms(1) by simp
next
  case (inserted w1 ev w2 r w3)
  let ?i = "if cw_PollIntervalS inp \<le> 0 then 300 else cw_PollIntervalS inp"
  let ?q = "CreateWatch u (e_ID ev) ''becomes_available'' ?i (str (e_LastAvailability ev) = ''onsale'')"
  obtain x where r: "r = Inr x" using inserted(4) assms(1) by (cases r) auto
  let ?w = "snd (exec (MarkEventDue (e_ID ev)) w3)"
  have v: "v = fst (watchViewFromEvent x ev ?w)" "w' = snd (watchViewFromEvent x ev ?w)"
    using inserted(4) assms(1) r by (auto simp: split_beta)
  have "db_ok (tables w1)"
    using sound_stages(1) [OF quiet] assms(2) inserted(1)
    by (metis keepingD snd_conv sound_def)
  then have ok: "db_ok (tables w2)"
    using sound_stages(2) [OF quiet] inserted(2) by (metis keepingD snd_conv sound_def)
  have w2: "watches (tables w2) = watches (tables w)"
    using sameD [OF same_watches_stages(1) [OF quiet], of u w] inserted(1)
      sameD [OF same_watches_stages(2) [OF quiet], of "cw_TMEventID inp" w1] inserted(2) by simp
  obtain t where t: "?q t (tables w2) = (Inr x, tables w3)"
    using exec_Inr [of ?q w2 x w3] inserted(3) r by blast
  have "watches (tables w') = watches (tables w3)"
    using v sameD [OF view_still, of x ev ?w] sameD [OF same_watches(4), of "e_ID ev" w3] by simp
  then have "book_of u (tables w') = book_of u (tables w3)" by (simp add: book_of_def)
  moreover have "book_of u (tables w2) = book_of u (tables w)" using w2 by (simp add: book_of_def)
  moreover have "wv_ID v = w_ID x" using v by (simp add: watchViewFromEvent_def letM_run Let_def)
  moreover have ins: "fst (?q t (tables w2)) = Inr x" "snd (?q t (tables w2)) = tables w3"
    using t by simp_all
  ultimately show ?thesis
    using book_CreateWatch [OF ok ins(1)] unfolding ins(2) by auto
qed

lemma row_views_ids: "map wv_ID (fst (row_views rows w)) = map (\<lambda>(x, e). w_ID x) rows"
  by (induction rows arbitrary: w)
    (auto simp: letM_run watchViewFromRow_def watchViewFromEvent_def Let_def)

lemma List_book:
  assumes "fst (watches_List u w) = Inr vs" and "db_ok (tables w)"
  shows "set (map wv_ID vs) = dom (book_of u (tables w))"
proof -
  obtain rows w1 where e: "exec (ListWatchesWithEvent u) w = (Inr rows, w1)"
    and vs: "vs = fst (row_views rows w1)"
    using assms(1) by (auto simp: watches_List_def orRet_def orElse_run letM_run split: prod.splits sum.splits)
  have rows: "set rows = {(x, e). x \<in> set (watches (tables w)) \<and> e \<in> set (events (tables w)) \<and>
      e_ID e = w_EventID x \<and> w_UserID x = u}"
    using exec_Inr [OF e] by (auto simp: ListWatchesWithEvent_def)
  have fk: "\<exists>e\<in>set (events (tables w)). e_ID e = w_EventID x" if "x \<in> set (watches (tables w))" for x
  proof -
    have "w_EventID ` set (watches (tables w)) \<subseteq> e_ID ` set (events (tables w))"
      using assms(2) by (simp add: db_ok_def refers_def)
    then have "w_EventID x \<in> e_ID ` set (events (tables w))" using that by blast
    then show ?thesis by auto
  qed
  have "set (map wv_ID vs) = (\<lambda>(x, e). w_ID x) ` set rows" by (simp add: vs row_views_ids flip: set_map)
  also have "\<dots> = w_ID ` {x \<in> set (watches (tables w)). w_UserID x = u}"
  proof (intro equalityI subsetI)
    fix k
    assume "k \<in> w_ID ` {x \<in> set (watches (tables w)). w_UserID x = u}"
    then obtain x where x: "x \<in> set (watches (tables w))" "w_UserID x = u" "k = w_ID x" by blast
    then obtain e where "(x, e) \<in> set rows" using fk [OF x(1)] rows by blast
    then show "k \<in> (\<lambda>(x, e). w_ID x) ` set rows" using x(3) by force
  qed (auto simp: rows)
  also have "\<dots> = dom (book_of u (tables w))"
    by (auto simp: book_of_def dom_map_of_conv_image_fst image_image)
  finally show ?thesis .
qed

section \<open>Other users\<close>

lemma spares_watches:
  assumes "v \<noteq> u" and "quiet_fetch s"
  shows "steps (spares_rel u) (Create s v inp)" and "steps (spares_rel u) (watches_List v)"
    and "steps (spares_rel u) (History v i)" and "steps (spares_rel u) (watches_Update v i inp')"
    and "steps (spares_rel u) (watches_Delete v i)"
proof -
  have read: "steps (spares_rel u) (exec q)" if "\<And>t d. snd (q t d) = d" for q :: "'a query"
    by (rule spares_exec) (simp add: that spares_def)
  have still: "steps (spares_rel u) m" if "steps still m" for m :: "(world, 'a) prog"
    by (rule spares_tables) (use sameD [OF that] in simp)
  have fetch: "steps (spares_rel u) (ws_GetEvent s tm)" for tm
    using assms(2) by (intro still) (simp add: quiet_fetch_def)
  note reads = read [OF read_only(1)] read [OF read_only(2)] read [OF read_only(6)] read [OF read_only(7)]
    read [OF read_only(9)] read [OF read_only(10)]
  note writes = spares_exec [OF spares_UpsertEvent] spares_exec [OF spares_MarkEventDue]
    spares_exec [OF spares_CreateWatch [OF assms(1)]] spares_exec [OF spares_UpdateWatch [OF assms(1)]]
    spares_exec [OF spares_DeleteWatch [OF assms(1)]]
  note all = reads writes fetch still [OF view_still] still [OF row_views_still]
  show "steps (spares_rel u) (Create s v inp)"
    unfolding Create_def checkCap_def resolveEvent_def Let_def by (intro steps_intros all)
  show "steps (spares_rel u) (watches_List v)"
    unfolding watches_List_def by (intro steps_intros all)
  show "steps (spares_rel u) (History v i)"
    unfolding History_def by (intro steps_intros all)
  show "steps (spares_rel u) (watches_Update v i inp')"
    unfolding watches_Update_def by (intro steps_intros all)
  show "steps (spares_rel u) (watches_Delete v i)"
    unfolding watches_Delete_def by (intro steps_intros all)
qed

text \<open>The label does not look at the event's date: an event that is over, of which the evaluator
  reports nothing but that its watches are to be closed, can still be labelled as on sale.\<close>

lemma label_misses_event_date:
  "let ob = \<lparr>ob_Now = 9, ob_Availability = ''onsale'', ob_PublicStart = None, ob_PublicEnd = None,
         ob_OnsaleTBD = False, ob_EarliestPresale = None, ob_EventDate = Some 5\<rparr>
   in label_of ob = ''on_sale'' \<and> res_Kinds (Evaluate ob p) = [] \<and> res_CloseWatch (Evaluate ob p)"
  by (simp add: label_defs Evaluate_def)

section \<open>Properties\<close>

text \<open>The cap is checked by one statement and the watch inserted by another: two requests that both
  counted before either inserted leave the user two watches above the count.\<close>

lemma cap_race:
  assumes "x \<in> set (users d)" and "e \<in> set (events d)"
  shows "watch_count (u_ID x) (snd (CreateWatch (u_ID x) (e_ID e) c' n' l' t'
     (snd (CreateWatch (u_ID x) (e_ID e) c n l t d)))) = watch_count (u_ID x) d + 2"
  using assms by (auto simp: CreateWatch_def watch_count_def Let_def)

definition ex_watches :: "int \<Rightarrow> watch_service" where
  "ex_watches m = NewWatchService (Client_GetEvent (world_client ''https://tm'' ''k'' (\<lambda>_. Inr ()) (\<lambda>_. Inr [])
     (\<lambda>_. Inr (ex_tm ''onsale'')))) m"

definition ex_create :: "string \<Rightarrow> CreateWatchInput" where
  "ex_create tm = \<lparr>cw_TMEventID = tm, cw_ConditionType = ''becomes_available'', cw_PollIntervalS = 0\<rparr>"

lemma ex_watches_quiet: "quiet_fetch (ex_watches m)"
  unfolding ex_watches_def by (rule quiet_fetch_main)

lemma ex_world_count: "watch_count 1 (tables ex_world) = 1"
  by (simp add: watch_count_def ex_world_def ex_db_def ex_watch_def)

text \<open>(C13) With a cap, a creation never leaves the user with more watches than the cap, unless there
  were more before; at the cap it is refused and sends no request, spends no quota and no token,
  and changes no table.\<close>
theorem watch_cap_holds:
  assumes "quiet_fetch s" and "ws_maxPerUser s > 0"
  shows "watch_count u (tables (snd (Create s u inp w))) \<le> max (watch_count u (tables w)) (ws_maxPerUser s) \<and>
    (watch_count u (tables w) \<ge> ws_maxPerUser s \<longrightarrow>
      (\<exists>e. fst (Create s u inp w) = Inl e) \<and> tables (snd (Create s u inp w)) = tables w \<and>
      wire (snd (Create s u inp w)) = wire w \<and> tokens (snd (Create s u inp w)) = tokens w \<and>
      quota (snd (Create s u inp w)) = quota w)"
  using Create_watches [OF assms(1), of u inp w] adds_watch_count [of u inp "tables w"] assms(2)
    Create_over_limit [OF assms(2), of u w inp]
  by (auto simp: watch_count_def max_def)

theorem watch_cap_holds_witness:
  "wire (snd (Create (ex_watches 1) 1 (ex_create ''G6'') ex_world)) = [] \<and>
   watch_count 1 (tables (snd (Create (ex_watches 1) 1 (ex_create ''G6'') ex_world))) = 1"
  using watch_cap_holds [of "ex_watches 1" 1 "ex_create ''G6''" ex_world, OF ex_watches_quiet] ex_world_count
  by (auto simp: ex_watches_def NewWatchService_def) (simp add: ex_world_def)





text \<open>(C11) The service implements a book of watches per user: each operation acts on the tables as the
  operation of the book does, answers "not found" exactly for an id that is not in it, gives a new
  watch an id that was not in it, and lists exactly its ids.\<close>
theorem service_refines_book:
  assumes "reachable_db (tables w)" and "outcomes w = []" and "quiet_fetch s"
  shows "book_of u (tables (snd (watches_Delete u i w))) = book_delete i (book_of u (tables w)) \<and>
    fst (watches_Delete u i w) =
      (if book_of u (tables w) i = None then Inl (Sentinel ErrWatchNotFound) else Inr ()) \<and>
    book_of u (tables (snd (watches_Update u i inp w))) =
      (if status_ok inp then book_update (uw_Status inp) i (book_of u (tables w)) else book_of u (tables w)) \<and>
    (case fst (watches_Update u i inp w) of
        Inl e \<Rightarrow> if status_ok inp then e = Sentinel ErrWatchNotFound \<and> book_of u (tables w) i = None
                 else e = Sentinel ErrInvalidStatus
      | Inr v \<Rightarrow> status_ok inp \<and> wv_ID v = i \<and> book_of u (tables w) i \<noteq> None) \<and>
    (case Create s u inp' w of (Inl e, w') \<Rightarrow> True
      | (Inr v, w') \<Rightarrow> book_of u (tables w) (wv_ID v) = None \<and>
          (\<exists>e. book_of u (tables w') = book_create (wv_ID v) e (book_of u (tables w)))) \<and>
    (case fst (watches_List u w) of Inl e \<Rightarrow> True
      | Inr vs \<Rightarrow> set (map wv_ID vs) = dom (book_of u (tables w)))"
proof -
  have ok: "db_ok (tables w)" using assms(1) by (rule reachable_db_ok)
  have c: "case Create s u inp' w of (Inl e, w') \<Rightarrow> True
      | (Inr v, w') \<Rightarrow> book_of u (tables w) (wv_ID v) = None \<and>
          (\<exists>e. book_of u (tables w') = book_create (wv_ID v) e (book_of u (tables w)))"
    using Create_book [OF _ ok assms(3)] by (auto split: prod.split sum.split)
  have l: "case fst (watches_List u w) of Inl e \<Rightarrow> True
      | Inr vs \<Rightarrow> set (map wv_ID vs) = dom (book_of u (tables w))"
    using List_book [OF _ ok] by (auto split: sum.split)
  show ?thesis
    using Delete_book [OF assms(2), of u i] Update_book [OF assms(2) ok, of u i inp] c l
    by (intro conjI) (elim conjE, assumption)+
qed

theorem service_refines_book_witness:
  "fst (watches_Delete 1 1 ex_world) = Inr () \<and>
   fst (watches_Delete 1 2 ex_world) = Inl (Sentinel ErrWatchNotFound)"
proof -
  have w: "reachable_db (tables ex_world)" "outcomes ex_world = []"
    using ex_db_reachable by (simp_all add: ex_world_def)
  have b: "book_of 1 (tables ex_world) 1 \<noteq> None" "book_of 1 (tables ex_world) 2 = None"
    by (simp_all add: book_none ex_world_def ex_db_def ex_watch_def)
  show ?thesis
    using service_refines_book [where u = 1 and i = 1, OF w ex_watches_quiet]
      service_refines_book [where u = 1 and i = 2, OF w ex_watches_quiet] b by simp
qed

end
