(* ===== verification/Crypto.thy ===== *)
theory Crypto
  imports GoStd
begin

text \<open>
  \<open>crypto/sha256\<close> and \<open>crypto/hmac\<close> of Go's standard library (FIPS 180-4 and RFC 2104), on byte
  strings and 32-bit words, as \<open>internal/auth\<close> uses them.
\<close>

unbundle bit_operations_syntax

type_synonym word32 = "32 word"

definition rotr :: "nat \<Rightarrow> word32 \<Rightarrow> word32" where
  "rotr n x = drop_bit n x OR push_bit (32 - n) x"

text \<open>The constants: the first 32 bits of the fractional parts of the cube roots of the first 64
  primes, and of the square roots of the first eight. \<open>root_bits\<close> finds a root bit by bit.\<close>

definition small_primes :: "int list" where
  "small_primes = [p. p \<leftarrow> [2..311], \<forall>d\<in>set [2..p - 1]. p mod d \<noteq> 0]"

fun root_bits :: "nat \<Rightarrow> nat \<Rightarrow> int \<Rightarrow> int \<Rightarrow> int" where
  "root_bits 0 k n r = r"
| "root_bits (Suc b) k n r = root_bits b k n (if (r + 2 ^ b) ^ k \<le> n then r + 2 ^ b else r)"

definition frac_root :: "nat \<Rightarrow> int \<Rightarrow> word32" where
  "frac_root k p = word_of_int (root_bits 37 k (p * 2 ^ (32 * k)) 0)"

definition sha_K :: "word32 list" where
  "sha_K = map (frac_root 3) small_primes"

definition sha_init :: "word32 list" where
  "sha_init = map (frac_root 2) (take 8 small_primes)"

text \<open>Big-endian bytes of a number, and the words of a block.\<close>

fun be_bytes :: "nat \<Rightarrow> int \<Rightarrow> string" where
  "be_bytes 0 n = []"
| "be_bytes (Suc k) n = be_bytes k (n div 256) @ [char_of (n mod 256)]"

definition be_value :: "string \<Rightarrow> int" where
  "be_value bs = foldl (\<lambda>a c. a * 256 + of_char c) 0 bs"

function chunks :: "nat \<Rightarrow> 'a list \<Rightarrow> 'a list list" where
  "chunks n xs = (if xs = [] \<or> n = 0 then [] else take n xs # chunks n (drop n xs))"
  by pat_completeness auto
termination
  by (relation "measure (\<lambda>(n, xs). length xs)") (auto simp: length_greater_0_conv)

declare chunks.simps [simp del]

definition sha_pad :: "string \<Rightarrow> string" where
  "sha_pad m =
     (let l = length m
      in m @ [CHR 0x80] @ replicate ((119 - l mod 64) mod 64) (CHR 0x00) @ be_bytes 8 (8 * int l))"

text \<open>The message schedule: word \<open>t\<close> from the sixteen before it, newest first.\<close>

fun sha_extend :: "nat \<Rightarrow> word32 list \<Rightarrow> word32 list" where
  "sha_extend 0 ws = ws"
| "sha_extend (Suc k) ws =
     (let w2 = ws ! 1; w7 = ws ! 6; w15 = ws ! 14; w16 = ws ! 15;
          s0 = (rotr 7 w15 XOR rotr 18 w15) XOR drop_bit 3 w15;
          s1 = (rotr 17 w2 XOR rotr 19 w2) XOR drop_bit 10 w2
      in sha_extend k ((w16 + s0 + w7 + s1) # ws))"

fun sha_round :: "word32 list \<Rightarrow> word32 \<times> word32 \<Rightarrow> word32 list" where
  "sha_round [a, b, c, d, e, f, g, h] (k, w) =
     (let s1 = (rotr 6 e XOR rotr 11 e) XOR rotr 25 e;
          ch = (e AND f) XOR (NOT e AND g);
          t1 = h + s1 + ch + k + w;
          s0 = (rotr 2 a XOR rotr 13 a) XOR rotr 22 a;
          maj = ((a AND b) XOR (a AND c)) XOR (b AND c);
          t2 = s0 + maj
      in [t1 + t2, a, b, c, d + t1, e, f, g])"
| "sha_round s _ = s"

definition sha_block :: "word32 list \<Rightarrow> string \<Rightarrow> word32 list" where
  "sha_block h block =
     (let ws = map (\<lambda>b. word_of_int (be_value b)) (chunks 4 block);
          schedule = rev (sha_extend 48 (rev ws))
      in map2 (+) h (foldl sha_round h (zip sha_K schedule)))"

definition Sum256 :: "string \<Rightarrow> string" where
  "Sum256 m =
     concat (map (\<lambda>w. be_bytes 4 (uint w)) (foldl sha_block sha_init (chunks 64 (sha_pad m))))"

definition xor_bytes :: "int \<Rightarrow> string \<Rightarrow> string" where
  "xor_bytes v s = map (\<lambda>c. char_of ((of_char c :: int) XOR v)) s"

definition HMAC_SHA256 :: "string \<Rightarrow> string \<Rightarrow> string" where
  "HMAC_SHA256 key m =
     (let key = (if length key > 64 then Sum256 key else key);
          key = key @ replicate (64 - length key) (CHR 0x00)
      in Sum256 (xor_bytes 0x5c key @ Sum256 (xor_bytes 0x36 key @ m)))"

end
