(* ===== verification/Auth.thy ===== *)
theory Auth
  imports Crypto World
begin

text \<open>
  \<open>internal/auth\<close>: password hashing and session tokens (\<open>auth.go\<close>), the opaque tokens behind
  emailed links (\<open>token.go\<close>) and the stateless unsubscribe tokens (\<open>unsubscribe.go\<close>). bcrypt and the
  JWT library are not in the repository: they are the record \<open>auth_lib\<close>. What the code relies on
  of them is the predicate \<open>sound_auth_lib\<close>, a hypothesis of the theorems that need it.
\<close>

section \<open>The libraries\<close>

record Claims =
  cl_UserID :: int
  cl_ExpiresAt :: time
  cl_IssuedAt :: time

text \<open>\<open>jwt.NewNumericDate\<close>; \<open>bcrypt.GenerateFromPassword\<close> at the default cost, with its random salt as first argument;
  \<open>CompareHashAndPassword(hash, pw) == nil\<close>; \<open>SignedString\<close> under HS256; and \<open>ParseWithClaims\<close>, which
  calls back for the key, telling it whether the token's method is an HMAC.\<close>

record auth_lib =
  bc_Generate :: "string \<Rightarrow> string \<Rightarrow> string result"
  bc_Compare :: "string \<Rightarrow> string \<Rightarrow> bool"
  jwt_NewNumericDate :: "time \<Rightarrow> time"
  jwt_Sign :: "string \<Rightarrow> Claims \<Rightarrow> string result"
  jwt_ParseWithClaims :: "string \<Rightarrow> time \<Rightarrow> (bool \<Rightarrow> string result) \<Rightarrow> (Claims \<times> bool) result"

section \<open>auth.go\<close>

definition HashPassword :: "auth_lib \<Rightarrow> string \<Rightarrow> (world, string result) prog" where
  "HashPassword lib pw = orRet (rand_Read 16) (\<lambda>salt. ret (bc_Generate lib salt pw))"

definition CheckPassword :: "auth_lib \<Rightarrow> string \<Rightarrow> string \<Rightarrow> bool" where
  "CheckPassword lib hash pw = bc_Compare lib hash pw"

text \<open>The claims of a session issued at \<open>now\<close>.\<close>

definition session_claims :: "auth_lib \<Rightarrow> int \<Rightarrow> duration \<Rightarrow> time \<Rightarrow> Claims" where
  "session_claims lib userID ttl now =
     \<lparr>cl_UserID = userID, cl_ExpiresAt = jwt_NewNumericDate lib (now + ttl), cl_IssuedAt = jwt_NewNumericDate lib now\<rparr>"

definition NewToken :: "auth_lib \<Rightarrow> string \<Rightarrow> int \<Rightarrow> duration \<Rightarrow> (world, string result) prog" where
  "NewToken lib secret userID ttl =
     letM time_Now (\<lambda>t1. letM time_Now (\<lambda>t2.
       ret (jwt_Sign lib secret
              \<lparr>cl_UserID = userID, cl_ExpiresAt = jwt_NewNumericDate lib (t1 + ttl),
               cl_IssuedAt = jwt_NewNumericDate lib t2\<rparr>)))"

definition ParseToken :: "auth_lib \<Rightarrow> string \<Rightarrow> string \<Rightarrow> (world, int result) prog" where
  "ParseToken lib secret tokenStr =
     letM time_Now (\<lambda>now.
     ret (case jwt_ParseWithClaims lib tokenStr now
            (\<lambda>isHMAC. if \<not> isHMAC then Inl (Opaque ''unexpected signing method'') else Inr secret) of
          Inl _ \<Rightarrow> Inl (Opaque ''invalid token'')
        | Inr (claims, isValid) \<Rightarrow>
            if \<not> isValid then Inl (Opaque ''invalid token'') else Inr (cl_UserID claims)))"

section \<open>token.go\<close>

definition opaqueTokenBytes :: nat where "opaqueTokenBytes = 32"

definition HashToken :: "string \<Rightarrow> string" where
  "HashToken token = hex_EncodeToString (Sum256 token)"

definition NewOpaqueToken :: "(world, (string \<times> string) result) prog" where
  "NewOpaqueToken =
     orRet (rand_Read opaqueTokenBytes) (\<lambda>b.
     let token = RawURL_EncodeToString b in ret (Inr (token, HashToken token)))"

section \<open>unsubscribe.go\<close>

definition unsubscribeMAC :: "string \<Rightarrow> string \<Rightarrow> string" where
  "unsubscribeMAC secret ident = RawURL_EncodeToString (HMAC_SHA256 secret (''unsubscribe:'' @ ident))"

definition NewUnsubscribeToken :: "string \<Rightarrow> int \<Rightarrow> string" where
  "NewUnsubscribeToken secret userID =
     (let ident = FormatInt userID in ident @ ''.'' @ unsubscribeMAC secret ident)"

text \<open>\<open>hmac.Equal\<close> compares the bytes; that it takes constant time is not modelled.\<close>

definition ParseUnsubscribeToken :: "string \<Rightarrow> string \<Rightarrow> int result" where
  "ParseUnsubscribeToken secret token =
     (let (ident, mac, ok) = Cut token (CHR ''.'')
      in if \<not> ok then Inl (Sentinel ErrInvalidUnsubscribeToken)
         else if mac \<noteq> unsubscribeMAC secret ident then Inl (Sentinel ErrInvalidUnsubscribeToken)
         else case ParseInt ident of
           None \<Rightarrow> Inl (Sentinel ErrInvalidUnsubscribeToken)
         | Some userID \<Rightarrow> Inr userID)"

section \<open>What the code relies on\<close>

text \<open>
  A hash bcrypt returns is matched by the password it was made from. A numeric date is a whole
  second, the fraction cut off. HS256 signs under any key; a token it signed with whole seconds parses, until it expires and
  not after, to the claims signed, when the callback gives the signing key for an HMAC.
\<close>

definition whole_seconds :: "Claims \<Rightarrow> bool" where
  "whole_seconds c \<longleftrightarrow> cl_ExpiresAt c mod Second = 0 \<and> cl_IssuedAt c mod Second = 0"

definition sound_auth_lib :: "auth_lib \<Rightarrow> bool" where
  "sound_auth_lib lib \<longleftrightarrow>
     (\<forall>salt pw h. bc_Generate lib salt pw = Inr h \<longrightarrow> bc_Compare lib h pw) \<and>
     (\<forall>t. jwt_NewNumericDate lib t = t - t mod Second) \<and>
     (\<forall>k c. \<exists>t. jwt_Sign lib k c = Inr t) \<and>
     (\<forall>k c t now key. jwt_Sign lib k c = Inr t \<longrightarrow> whole_seconds c \<longrightarrow> now < cl_ExpiresAt c \<longrightarrow> key True = Inr k \<longrightarrow>
        jwt_ParseWithClaims lib t now key = Inr (c, True)) \<and>
     (\<forall>k c t now key. jwt_Sign lib k c = Inr t \<longrightarrow> whole_seconds c \<longrightarrow> cl_ExpiresAt c \<le> now \<longrightarrow>
        (\<exists>e. jwt_ParseWithClaims lib t now key = Inl e))"

lemma bcrypt_match: "sound_auth_lib lib \<Longrightarrow> bc_Generate lib salt pw = Inr h \<Longrightarrow> bc_Compare lib h pw"
  by (simp only: sound_auth_lib_def)

lemma numeric_date: "sound_auth_lib lib \<Longrightarrow> jwt_NewNumericDate lib t = t - t mod Second"
  by (simp only: sound_auth_lib_def)

lemma jwt_signs: "sound_auth_lib lib \<Longrightarrow> \<exists>t. jwt_Sign lib k c = Inr t"
  by (simp only: sound_auth_lib_def)

lemma jwt_roundtrip:
  "sound_auth_lib lib \<Longrightarrow> jwt_Sign lib k c = Inr t \<Longrightarrow> whole_seconds c \<Longrightarrow> now < cl_ExpiresAt c \<Longrightarrow>
    key True = Inr k \<Longrightarrow> jwt_ParseWithClaims lib t now key = Inr (c, True)"
  by (simp only: sound_auth_lib_def)

lemma jwt_expired:
  "sound_auth_lib lib \<Longrightarrow> jwt_Sign lib k c = Inr t \<Longrightarrow> whole_seconds c \<Longrightarrow> cl_ExpiresAt c \<le> now \<Longrightarrow>
    \<exists>e. jwt_ParseWithClaims lib t now key = Inl e"
  by (simp only: sound_auth_lib_def)

text \<open>When a session that is given for \<open>ttl\<close> at \<open>t\<close> ends: at the last whole second within it.\<close>

definition session_end :: "time \<Rightarrow> duration \<Rightarrow> time" where
  "session_end t ttl = (t + ttl) - (t + ttl) mod Second"

lemma session_end_bounds: "t + ttl - Second < session_end t ttl \<and> session_end t ttl \<le> t + ttl"
  by (simp add: session_end_def Second_def)

lemma NewToken_run: "NewToken lib secret userID ttl w = (jwt_Sign lib secret (session_claims lib userID ttl (clock w)), w)"
  by (simp add: NewToken_def session_claims_def letM_run)

lemma session_parses:
  assumes lib: "sound_auth_lib lib"
    and s: "jwt_Sign lib secret (session_claims lib userID ttl t) = Inr tok"
  shows "fst (ParseToken lib secret tok w) =
    (if clock w < session_end t ttl then Inr userID else Inl (Opaque ''invalid token''))"
proof -
  let ?c = "session_claims lib userID ttl t"
  let ?key = "\<lambda>isHMAC. if \<not> isHMAC then Inl (Opaque ''unexpected signing method'') else Inr secret"
  have x: "cl_ExpiresAt ?c = session_end t ttl" "cl_UserID ?c = userID"
    by (simp_all add: session_claims_def session_end_def numeric_date [OF lib])
  have c: "whole_seconds ?c"
    by (simp add: whole_seconds_def session_claims_def numeric_date [OF lib] Second_def flip: mult_div_mod_eq)
  show ?thesis
  proof (cases "clock w < session_end t ttl")
    case True
    then have "jwt_ParseWithClaims lib tok (clock w) ?key = Inr (?c, True)"
      by (intro jwt_roundtrip [OF lib s c]) (simp_all add: x)
    then show ?thesis using True by (simp add: ParseToken_def prog_defs x)
  next
    case False
    then obtain e where "jwt_ParseWithClaims lib tok (clock w) ?key = Inl e"
      using jwt_expired [OF lib s c, of "clock w" ?key] by (auto simp: x)
    then show ?thesis using False by (simp add: ParseToken_def prog_defs)
  qed
qed

section \<open>Unsubscribe tokens\<close>

lemma b64_char_unreserved: "unreserved (b64_char d)"
proof -
  have c: "(of_char (char_of n :: char) :: nat) = n" if "n < 256" for n using that by simp
  consider "d < 26" | "26 \<le> d" "d < 52" | "52 \<le> d" "d < 62" | "d = 62" | "62 < d" by linarith
  then show ?thesis
  proof cases
    case 1
    then show ?thesis using c [of "65 + d"] by (simp only: unreserved_def b64_char_def Let_def if_True) simp
  next
    case 2
    then show ?thesis using c [of "71 + d"] by (simp add: unreserved_def b64_char_def Let_def)
  next
    case 3
    then have "48 \<le> d - 4" "d - 4 \<le> 57" by linarith+
    then show ?thesis using c [of "d - 4"] 3 by (simp add: unreserved_def b64_char_def Let_def)
  qed (simp_all add: unreserved_def b64_char_def Let_def)
qed

lemma RawURL_unreserved: "c \<in> set (RawURL_EncodeToString s) \<Longrightarrow> unreserved c"
  by (induction s rule: RawURL_EncodeToString.induct) (auto simp: Let_def b64_char_unreserved)

lemma FormatInt_unreserved: "c \<in> set (FormatInt n) \<Longrightarrow> unreserved c"
  using show_nat_digits [of c] by (auto simp: FormatInt_def unreserved_def is_digit_def Let_def split: if_splits)

lemma unsubscribe_token_unreserved: "c \<in> set (NewUnsubscribeToken secret u) \<Longrightarrow> unreserved c"
  using FormatInt_unreserved RawURL_unreserved
  by (auto simp: NewUnsubscribeToken_def unsubscribeMAC_def Let_def unreserved_def)

lemma ParseUnsubscribeToken_iff:
  "ParseUnsubscribeToken secret token = Inr u \<longleftrightarrow>
    (\<exists>ident. CHR ''.'' \<notin> set ident \<and> ParseInt ident = Some u \<and>
       token = ident @ ''.'' @ unsubscribeMAC secret ident)"
proof
  assume *: "ParseUnsubscribeToken secret token = Inr u"
  obtain ident mac ok where c: "Cut token (CHR ''.'') = (ident, mac, ok)" by (metis prod_cases3)
  then have "ok" "mac = unsubscribeMAC secret ident" "ParseInt ident = Some u"
    using * by (auto simp: ParseUnsubscribeToken_def Let_def split: if_splits option.splits)
  then show "\<exists>ident. CHR ''.'' \<notin> set ident \<and> ParseInt ident = Some u \<and>
       token = ident @ ''.'' @ unsubscribeMAC secret ident"
    using Cut_found [of token "CHR ''.''" ident mac] c by auto
next
  assume "\<exists>ident. CHR ''.'' \<notin> set ident \<and> ParseInt ident = Some u \<and>
       token = ident @ ''.'' @ unsubscribeMAC secret ident"
  then show "ParseUnsubscribeToken secret token = Inr u"
    using Cut_append by (auto simp: ParseUnsubscribeToken_def)
qed

lemma ParseUnsubscribeToken_error:
  "ParseUnsubscribeToken secret token = Inl e \<Longrightarrow> e = Sentinel ErrInvalidUnsubscribeToken"
  by (auto simp: ParseUnsubscribeToken_def Let_def split: prod.splits if_splits option.splits)

lemma NewUnsubscribeToken_parses:
  "min_int64 \<le> u \<Longrightarrow> u \<le> max_int64 \<Longrightarrow>
    ParseUnsubscribeToken secret (NewUnsubscribeToken secret u) = Inr u"
  unfolding ParseUnsubscribeToken_iff
  using FormatInt_no_dot ParseInt_FormatInt by (auto simp: NewUnsubscribeToken_def Let_def)

end
