(* ===== verification/AuthService.thy ===== *)
theory AuthService
  imports Auth Notifier
begin

text \<open>
  \<open>internal/service/auth.go\<close>: registration, login, and the two flows confirmed by an emailed link
  (address verification, password reset). Shown: what each of them needs and does on every branch,
  that a link works once and not after its time, that the stored form of a link is its hash, and
  that asking for a reset tells nothing about who is registered.
\<close>

section \<open>The service\<close>

record auth_service =
  as_lib :: auth_lib
  as_secret :: string
  as_ttl :: duration
  as_mail :: "(Message \<Rightarrow> (world, unit result) prog) option"
  as_baseURL :: string

definition NewAuthService ::
  "auth_lib \<Rightarrow> string \<Rightarrow> duration \<Rightarrow> (Message \<Rightarrow> (world, unit result) prog) option \<Rightarrow> string
    \<Rightarrow> auth_service" where
  "NewAuthService lib secret ttl mail baseURL =
     \<lparr>as_lib = lib, as_secret = secret, as_ttl = ttl, as_mail = mail,
      as_baseURL = TrimRight baseURL (CHR ''/'')\<rparr>"

definition purposeVerifyEmail :: string where "purposeVerifyEmail = ''verify_email''"
definition purposePasswordReset :: string where "purposePasswordReset = ''password_reset''"
definition verifyTokenTTL :: duration where "verifyTokenTTL = 24 * Hour"
definition resetTokenTTL :: duration where "resetTokenTTL = Hour"

lemmas auth_consts = purposeVerifyEmail_def purposePasswordReset_def verifyTokenTTL_def resetTokenTTL_def

record UserView =
  uv_ID :: int
  uv_Email :: string
  uv_EmailVerified :: bool
  uv_Unsubscribed :: bool

definition normalizeEmail :: "string \<Rightarrow> string" where
  "normalizeEmail e = TrimSpace (ToLower e)"

definition auth_send :: "auth_service \<Rightarrow> Message \<Rightarrow> (world, unit result) prog" where
  "auth_send s msg = (case as_mail s of None \<Rightarrow> ret (Inr ()) | Some send \<Rightarrow> send msg)"

definition issueToken :: "auth_service \<Rightarrow> int \<Rightarrow> string \<Rightarrow> duration \<Rightarrow> (world, string result) prog" where
  "issueToken s userID purpose ttl =
     orWrap (''clear old '' @ purpose @ '' tokens: '') (exec (DeleteAuthTokensForUser userID purpose)) (\<lambda>_.
     orRet NewOpaqueToken (\<lambda>(raw, hash).
     letM time_Now (\<lambda>now.
     orWrap (''store '' @ purpose @ '' token: '')
       (exec (CreateAuthToken userID hash purpose (TS (now + ttl)))) (\<lambda>_.
     ret (Inr raw)))))"

definition redeemToken :: "string \<Rightarrow> string \<Rightarrow> (world, authToken result) prog" where
  "redeemToken rawToken purpose =
     (if rawToken = [] then ret (Inl (Sentinel ErrInvalidToken))
      else orElse (exec (GetValidAuthToken (HashToken rawToken) purpose))
        (\<lambda>err. if errors_Is err ErrNoRows then ret (Inl (Sentinel ErrInvalidToken)) else ret (Inl err))
        (\<lambda>tok. orRet (exec (MarkAuthTokenUsed (t_ID tok))) (\<lambda>_. ret (Inr tok))))"

definition sendVerification :: "auth_service \<Rightarrow> int \<Rightarrow> string \<Rightarrow> (world, unit result) prog" where
  "sendVerification s userID email =
     orRet (issueToken s userID purposeVerifyEmail verifyTokenTTL) (\<lambda>raw.
     let link = as_baseURL s @ ''/api/auth/verify?token='' @ QueryEscape raw
     in auth_send s (VerificationMessage email link))"

definition Register :: "auth_service \<Rightarrow> string \<Rightarrow> string \<Rightarrow> (world, string result) prog" where
  "Register s email password =
     (let email = normalizeEmail email
      in if \<not> Contains email ''@'' then ret (Inl (Sentinel ErrInvalidEmail))
         else if length password < 8 then ret (Inl (Sentinel ErrWeakPassword))
         else orRet (HashPassword (as_lib s) password) (\<lambda>hash.
           orElse (exec (CreateUser email hash))
             (\<lambda>err. if errors_As_PgError err = Some ''23505'' then ret (Inl (Sentinel ErrEmailTaken))
                    else ret (Inl err))
             (\<lambda>u. andThen (sendVerification s (u_ID u) (u_Email u))
                (NewToken (as_lib s) (as_secret s) (u_ID u) (as_ttl s)))))"

definition Login :: "auth_service \<Rightarrow> string \<Rightarrow> string \<Rightarrow> (world, string result) prog" where
  "Login s email password =
     orElse (exec (GetUserByEmail (normalizeEmail email)))
       (\<lambda>err. if errors_Is err ErrNoRows then ret (Inl (Sentinel ErrInvalidCredentials))
              else ret (Inl err))
       (\<lambda>u. if \<not> CheckPassword (as_lib s) (u_PasswordHash u) password
            then ret (Inl (Sentinel ErrInvalidCredentials))
            else NewToken (as_lib s) (as_secret s) (u_ID u) (as_ttl s))"

definition Me :: "auth_service \<Rightarrow> int \<Rightarrow> (world, UserView result) prog" where
  "Me s userID =
     orElse (exec (GetUserByID userID))
       (\<lambda>err. if errors_Is err ErrNoRows then ret (Inl (Sentinel ErrNoAccount)) else ret (Inl err))
       (\<lambda>u. ret (Inr \<lparr>uv_ID = u_ID u, uv_Email = u_Email u,
                      uv_EmailVerified = ts_Valid (u_EmailVerifiedAt u),
                      uv_Unsubscribed = ts_Valid (u_UnsubscribedAt u)\<rparr>))"

definition ResendVerification :: "auth_service \<Rightarrow> int \<Rightarrow> (world, unit result) prog" where
  "ResendVerification s userID =
     orRet (exec (GetUserByID userID)) (\<lambda>u.
     if ts_Valid (u_EmailVerifiedAt u) then ret (Inl (Sentinel ErrAlreadyVerified))
     else sendVerification s (u_ID u) (u_Email u))"

definition VerifyEmail :: "auth_service \<Rightarrow> string \<Rightarrow> (world, unit result) prog" where
  "VerifyEmail s rawToken =
     orRet (redeemToken rawToken purposeVerifyEmail) (\<lambda>tok.
     orRet (exec (MarkEmailVerified (t_UserID tok))) (\<lambda>_.
     andThen (exec (DeleteAuthTokensForUser (t_UserID tok) purposeVerifyEmail))
       (ret (Inr ()))))"

definition RequestPasswordReset :: "auth_service \<Rightarrow> string \<Rightarrow> (world, unit result) prog" where
  "RequestPasswordReset s email =
     orElse (exec (GetUserByEmail (normalizeEmail email)))
       (\<lambda>err. if errors_Is err ErrNoRows then ret (Inr ()) else ret (Inl err))
       (\<lambda>u. orRet (issueToken s (u_ID u) purposePasswordReset resetTokenTTL) (\<lambda>raw.
         let link = as_baseURL s @ ''/reset-password?token='' @ QueryEscape raw
         in auth_send s (PasswordResetMessage (u_Email u) link)))"

definition ResetPassword :: "auth_service \<Rightarrow> string \<Rightarrow> string \<Rightarrow> (world, unit result) prog" where
  "ResetPassword s rawToken newPassword =
     (if length newPassword < 8 then ret (Inl (Sentinel ErrWeakPassword))
      else orRet (redeemToken rawToken purposePasswordReset) (\<lambda>tok.
        orRet (HashPassword (as_lib s) newPassword) (\<lambda>hash.
        orRet (exec (UpdateUserPassword (t_UserID tok) hash)) (\<lambda>_.
        andThen (exec (DeleteAuthTokensForUser (t_UserID tok) purposePasswordReset))
          (ret (Inr ()))))))"

section \<open>Emails\<close>

section \<open>Links work once, and not after their time\<close>

text \<open>A link is dead when no row with its hash is still unused. Whatever statements run, it stays
  dead unless the same hash is stored again.\<close>

definition token_dead :: "database \<Rightarrow> string \<Rightarrow> bool" where
  "token_dead d h \<longleftrightarrow> (\<forall>t\<in>set (auth_tokens d). t_TokenHash t = h \<longrightarrow> ts_Valid (t_UsedAt t))"

lemma token_dead_update:
  assumes "token_dead d h" and "\<And>t. t_TokenHash (g t) = t_TokenHash t"
    and "\<And>t. ts_Valid (t_UsedAt t) \<Longrightarrow> ts_Valid (t_UsedAt (g t))"
  shows "token_dead (d\<lparr>auth_tokens := update_where P g (auth_tokens d)\<rparr>) h"
  using assms by (auto simp: token_dead_def update_where_def)

lemma token_dead_frame: "auth_tokens d' = auth_tokens d \<Longrightarrow> token_dead d' h = token_dead d h"
  by (simp add: token_dead_def)

lemma token_dead_step:
  assumes "db_step d d'" and "token_dead d h"
    and "\<forall>t\<in>set (auth_tokens d'). t_TokenHash t = h \<longrightarrow> t_ID t < auth_tokens_id_seq d"
  shows "token_dead d' h"
  using assms(1)
proof cases
  case (13 u now)
  then show ?thesis using assms(2) by (simp add: DeleteUser_def token_dead_def Let_def)
next
  case (18 u h' p x now)
  then show ?thesis using assms(2,3)
    by (auto simp: CreateAuthToken_def token_dead_def Let_def split: if_splits)
next
  case (19 u p now)
  then show ?thesis using assms(2) by (simp add: DeleteAuthTokensForUser_def token_dead_def)
next
  case (20 t now)
  then show ?thesis using token_dead_update [OF assms(2)] by (simp add: MarkAuthTokenUsed_def TS_def)
qed (use assms(2) in \<open>auto simp: query_defs delete_watches_def token_dead_def Let_def split: list.splits\<close>)

lemma GetValidAuthToken_dead:
  "token_dead d h \<Longrightarrow> GetValidAuthToken h p t d = (Inl (Sentinel ErrNoRows), d)"
  by (auto simp: GetValidAuthToken_def token_dead_def one_row_def filter_empty_conv split: list.split)

lemma MarkAuthTokenUsed_kills:
  assumes "db_ok d" and "tok \<in> set (auth_tokens d)"
  shows "token_dead (snd (MarkAuthTokenUsed (t_ID tok) now d)) (t_TokenHash tok)"
proof -
  have "t = tok" if "t \<in> set (auth_tokens d)" "t_TokenHash t = t_TokenHash tok" for t
    using assms that by (auto simp: db_ok_def unique_col_def distinct_map dest: inj_onD)
  then show ?thesis by (auto simp: MarkAuthTokenUsed_def token_dead_def update_where_def TS_def)
qed

text \<open>What a redemption that succeeded found: a row of this hash and purpose, not used, not expired.\<close>

lemma redeemToken_ok:
  assumes "redeemToken raw p w = (Inr tok, w')" and "db_ok (tables w)"
  shows "\<exists>t. clock w \<le> t \<and> tok \<in> set (auth_tokens (tables w)) \<and> t_TokenHash tok = HashToken raw \<and>
    t_Purpose tok = p \<and> \<not> ts_Valid (t_UsedAt tok) \<and> t < ts_Time (t_ExpiresAt tok) \<and>
    db_ok (tables w') \<and> token_dead (tables w') (HashToken raw)"
proof -
  let ?q = "GetValidAuthToken (HashToken raw) p"
  obtain r1 w1 where e1: "exec ?q w = (r1, w1)" by force
  have ok1: "r1 = Inr tok" and "raw \<noteq> []"
    and e2: "fst (exec (MarkAuthTokenUsed (t_ID tok)) w1) = Inr ()"
      "w' = snd (exec (MarkAuthTokenUsed (t_ID tok)) w1)"
    using assms(1) e1
    by (auto simp: redeemToken_def prog_defs split: if_splits sum.splits prod.splits)
  obtain t where t: "clock w \<le> t" "?q t (tables w) = (Inr tok, tables w1)"
    using exec_acked [of ?q w tok] e1 ok1 by auto
  have w1: "tables w1 = tables w" using t(2) read_only(13) [of "HashToken raw" p t "tables w"] by simp
  have row: "tok \<in> set (auth_tokens (tables w))" "t_TokenHash tok = HashToken raw" "t_Purpose tok = p"
      "\<not> ts_Valid (t_UsedAt tok)" "t < ts_Time (t_ExpiresAt tok)"
    using t(2) by (auto simp: GetValidAuthToken_def one_row_def filter_eq_Cons_iff split: list.splits)
  obtain t' where "MarkAuthTokenUsed (t_ID tok) t' (tables w1) = (Inr (), tables w')"
    using exec_acked [OF e2(1)] e2(2) by auto
  then have "tables w' = snd (MarkAuthTokenUsed (t_ID tok) t' (tables w))" using w1 by simp
  then show ?thesis
    using t(1) row MarkAuthTokenUsed_kills [OF assms(2) row(1)] MarkAuthTokenUsed_keeps [OF assms(2)]
    by auto
qed

lemma redeemToken_dead:
  assumes "token_dead (tables w) (HashToken raw)"
  shows "\<exists>e. fst (redeemToken raw p w) = Inl e \<and> tables (snd (redeemToken raw p w)) = tables w \<and>
    (outcomes w = [] \<longrightarrow> e = Sentinel ErrInvalidToken)"
proof (cases "raw = []")
  case True
  then show ?thesis by (simp add: redeemToken_def)
next
  case False
  let ?q = "GetValidAuthToken (HashToken raw) p"
  have dead: "?q t (tables w) = (Inl (Sentinel ErrNoRows), tables w)" for t
    using assms by (rule GetValidAuthToken_dead)
  have tables: "tables (snd (exec ?q w)) = tables w"
    by (rule exec_tables [of "\<lambda>d d'. d' = d"]) simp_all
  obtain e where e: "fst (exec ?q w) = Inl e"
  proof (cases "fst (exec ?q w)")
    case (Inr x)
    then obtain t where "?q t (tables w) = (Inr x, tables (snd (exec ?q w)))" by (rule exec_acked)
    then show ?thesis using dead [of t] by simp
  qed
  have ideal: "e = Sentinel ErrNoRows" if "outcomes w = []" using e that dead by simp
  show ?thesis
    using False e tables ideal by (auto simp: redeemToken_def prog_defs split_beta)
qed

section \<open>The flows\<close>

text \<open>Statements that do not store the hash \<open>h\<close> anew, in any number.\<close>

inductive steps_without :: "string \<Rightarrow> database \<Rightarrow> database \<Rightarrow> bool" for h :: string where
  nothing: "steps_without h d d"
| stmt: "steps_without h d d' \<Longrightarrow> db_step d' d'' \<Longrightarrow>
    \<forall>t\<in>set (auth_tokens d''). t_TokenHash t = h \<longrightarrow> t_ID t < auth_tokens_id_seq d' \<Longrightarrow>
    steps_without h d d''"

lemma token_dead_steps: "steps_without h d d' \<Longrightarrow> token_dead d h \<Longrightarrow> token_dead d' h"
  by (induction rule: steps_without.induct) (simp_all add: token_dead_step)

definition dead_keeps :: "string \<Rightarrow> (world, 'a) prog \<Rightarrow> bool" where
  "dead_keeps h = steps (keeping (\<lambda>w. token_dead (tables w) h))"

lemma dead_keeps_exec:
  "(\<And>t d. token_dead d h \<Longrightarrow> token_dead (snd (q t d)) h) \<Longrightarrow> dead_keeps h (exec q)"
  unfolding dead_keeps_def steps_def keeping_def
  by (intro allI exec_tables [of "\<lambda>d d'. token_dead d h \<longrightarrow> token_dead d' h"]) simp_all

lemma dead_keeps_flow:
  "dead_keeps h (exec (UpdateUserPassword u x))" "dead_keeps h (exec (MarkEmailVerified u))"
  "dead_keeps h (exec (DeleteAuthTokensForUser u p))"
  by (rule dead_keeps_exec; simp add: query_defs token_dead_def)+

lemma HashPassword_run:
  "HashPassword lib pw w = (Inr hash, w') \<Longrightarrow>
    tables w' = tables w \<and> clock w' = clock w \<and> (\<exists>salt. bc_Generate lib salt pw = Inr hash)"
  by (auto simp: HashPassword_def orRet_Inr rand_Read_def split: list.splits option.splits)

text \<open>Programs that leave the users alone.\<close>

abbreviation same_users :: "world \<Rightarrow> world \<Rightarrow> bool" where
  "same_users \<equiv> same users"

lemma same_users_flow:
  "steps same_users (exec (DeleteAuthTokensForUser u p))"
  "steps same_users (exec (CreateAuthToken u h p x))"
  "steps same_users (exec (MarkAuthTokenUsed i))"
  "steps same_users (exec (GetValidAuthToken h p))"
  "steps same_users (exec (GetUserByID u))" "steps same_users (exec (GetUserByEmail e))"
  by (rule same_exec; simp add: query_defs Let_def)+

lemma same_users_redeem: "steps same_users (redeemToken raw p)"
  unfolding redeemToken_def by (auto intro!: steps_intros same_users_flow)

text \<open>A mailer that does not write to the database, as the code's senders do not.\<close>

definition quiet_mail :: "auth_service \<Rightarrow> bool" where
  "quiet_mail s \<longleftrightarrow> (\<forall>msg w. tables (snd (auth_send s msg w)) = tables w)"

lemma quiet_mail_main:
  "quiet_mail (NewAuthService lib secret ttl (Some (sd_Send (email_sender m nr key from_addr))) url)"
  by (simp add: quiet_mail_def auth_send_def NewAuthService_def email_sender_tables)

lemma same_users_issue: "steps same_users (issueToken s u p ttl)"
  unfolding issueToken_def NewOpaqueToken_def Let_def split_beta
  by (intro steps_intros same_users_flow same_other)

lemma same_users_sendVerification: "quiet_mail s \<Longrightarrow> steps same_users (sendVerification s u e)"
  unfolding sendVerification_def Let_def
  by (intro steps_intros same_users_issue same_tables) (simp add: quiet_mail_def)

text \<open>A reset that succeeded: it redeemed a live link, and changed the owner's password and no
  other row of the users.\<close>

lemma ResetPassword_ok:
  assumes "ResetPassword s raw pw w = (Inr (), w')" and "db_ok (tables w)"
  shows "\<exists>tok salt hash. tok \<in> set (auth_tokens (tables w)) \<and> t_TokenHash tok = HashToken raw \<and>
    t_Purpose tok = purposePasswordReset \<and> \<not> ts_Valid (t_UsedAt tok) \<and>
    clock w < ts_Time (t_ExpiresAt tok) \<and> bc_Generate (as_lib s) salt pw = Inr hash \<and>
    users (tables w') = update_where (\<lambda>u. u_ID u = t_UserID tok) (\<lambda>u. u\<lparr>u_PasswordHash := hash\<rparr>)
      (users (tables w)) \<and> token_dead (tables w') (HashToken raw) \<and> db_ok (tables w') \<and> 8 \<le> length pw"
proof -
  let ?h = "HashToken raw"
  obtain tok w1 where r: "redeemToken raw purposePasswordReset w = (Inr tok, w1)" and len: "8 \<le> length pw"
    and rest: "orRet (HashPassword (as_lib s) pw) (\<lambda>hash.
        orRet (exec (UpdateUserPassword (t_UserID tok) hash)) (\<lambda>_.
        andThen (exec (DeleteAuthTokensForUser (t_UserID tok) purposePasswordReset))
          (ret (Inr ())))) w1 = (Inr (), w')"
    using assms(1) by (auto simp: ResetPassword_def orRet_Inr split: if_splits)
  obtain t where t: "clock w \<le> t" "tok \<in> set (auth_tokens (tables w))" "t_TokenHash tok = ?h"
      "t_Purpose tok = purposePasswordReset" "\<not> ts_Valid (t_UsedAt tok)"
      "t < ts_Time (t_ExpiresAt tok)" "db_ok (tables w1)" "token_dead (tables w1) ?h"
    using redeemToken_ok [OF r assms(2)] by blast
  have u1: "users (tables w1) = users (tables w)"
    using stepsD [OF same_users_redeem, of w raw purposePasswordReset] r by (simp add: same_def)
  obtain hash w2 where h: "HashPassword (as_lib s) pw w1 = (Inr hash, w2)"
    and rest2: "orRet (exec (UpdateUserPassword (t_UserID tok) hash)) (\<lambda>_.
        andThen (exec (DeleteAuthTokensForUser (t_UserID tok) purposePasswordReset))
          (ret (Inr ()))) w2 = (Inr (), w')"
    using rest by (auto simp: orRet_Inr)
  obtain w3 where e3: "exec (UpdateUserPassword (t_UserID tok) hash) w2 = (Inr (), w3)"
    and w': "w' = snd (exec (DeleteAuthTokensForUser (t_UserID tok) purposePasswordReset) w3)"
    using rest2 by (auto simp: orRet_Inr andThen_run)
  have w2: "tables w2 = tables w1" using HashPassword_run [OF h] by simp
  obtain t3 where "UpdateUserPassword (t_UserID tok) hash t3 (tables w2) = (Inr (), tables w3)"
    using exec_Inr [OF e3] by blast
  then have w3: "tables w3 = snd (UpdateUserPassword (t_UserID tok) hash t3 (tables w1))"
    using w2 by (metis snd_conv)
  have u': "users (tables w') = users (tables w3)"
    unfolding w' by (rule exec_tables [of "\<lambda>d d'. users d' = users d"])
      (simp_all add: DeleteAuthTokensForUser_def)
  have "token_dead (tables w3) ?h" using t(8) by (simp add: w3 UpdateUserPassword_def token_dead_def)
  then have dead: "token_dead (tables w') ?h"
    using dead_keeps_flow(3) [of ?h] unfolding w' dead_keeps_def by (rule keepingD [rotated])
  have "db_ok (tables w3)" using t(7) UpdateUserPassword_keeps by (simp add: w3)
  then have "db_ok (tables w')"
    unfolding w' by (rule mp [OF exec_tables [of "\<lambda>d d'. db_ok d \<longrightarrow> db_ok d'"], rotated 2])
      (simp_all add: DeleteAuthTokensForUser_keeps)
  moreover obtain salt where "bc_Generate (as_lib s) salt pw = Inr hash" using HashPassword_run [OF h] by blast
  moreover have "users (tables w') = update_where (\<lambda>u. u_ID u = t_UserID tok)
      (\<lambda>u. u\<lparr>u_PasswordHash := hash\<rparr>) (users (tables w))"
    using u' u1 by (simp add: w3 UpdateUserPassword_def)
  ultimately show ?thesis using t dead len by fastforce
qed

lemma VerifyEmail_ok:
  assumes "VerifyEmail s raw w = (Inr (), w')" and "db_ok (tables w)"
  shows "\<exists>tok t. tok \<in> set (auth_tokens (tables w)) \<and> t_TokenHash tok = HashToken raw \<and>
    t_Purpose tok = purposeVerifyEmail \<and> \<not> ts_Valid (t_UsedAt tok) \<and>
    clock w < ts_Time (t_ExpiresAt tok) \<and>
    users (tables w') = update_where (\<lambda>u. u_ID u = t_UserID tok) (\<lambda>u. u\<lparr>u_EmailVerifiedAt := NOW t\<rparr>)
      (users (tables w)) \<and> token_dead (tables w') (HashToken raw)"
proof -
  let ?h = "HashToken raw"
  obtain tok w1 w2 where r: "redeemToken raw purposeVerifyEmail w = (Inr tok, w1)"
    and e2: "exec (MarkEmailVerified (t_UserID tok)) w1 = (Inr (), w2)"
    and w': "w' = snd (exec (DeleteAuthTokensForUser (t_UserID tok) purposeVerifyEmail) w2)"
    using assms(1) by (auto simp: VerifyEmail_def orRet_Inr andThen_run)
  obtain t where t: "clock w \<le> t" "tok \<in> set (auth_tokens (tables w))" "t_TokenHash tok = ?h"
      "t_Purpose tok = purposeVerifyEmail" "\<not> ts_Valid (t_UsedAt tok)"
      "t < ts_Time (t_ExpiresAt tok)" "token_dead (tables w1) ?h"
    using redeemToken_ok [OF r assms(2)] by blast
  have u1: "users (tables w1) = users (tables w)"
    using stepsD [OF same_users_redeem, of w raw purposeVerifyEmail] r by (simp add: same_def)
  obtain t2 where "MarkEmailVerified (t_UserID tok) t2 (tables w1) = (Inr (), tables w2)"
    using exec_Inr [OF e2] by blast
  then have w2: "tables w2 = snd (MarkEmailVerified (t_UserID tok) t2 (tables w1))" by simp
  have u': "users (tables w') = users (tables w2)"
    using stepsD [OF same_users_flow(1), of w2] by (simp add: w' same_def)
  have "token_dead (tables w2) ?h" using t(7) by (simp add: w2 MarkEmailVerified_def token_dead_def)
  then have "token_dead (tables w') ?h"
    using dead_keeps_flow(3) [of ?h] unfolding w' dead_keeps_def by (rule keepingD [rotated])
  moreover have "users (tables w') = update_where (\<lambda>u. u_ID u = t_UserID tok)
      (\<lambda>u. u\<lparr>u_EmailVerifiedAt := NOW t2\<rparr>) (users (tables w))"
    using u' u1 by (simp add: w2 MarkEmailVerified_def)
  ultimately show ?thesis using t by fastforce
qed

lemma Login_run:
  assumes "outcomes w = []"
  shows "fst (Login s em pw w) =
    (case filter (\<lambda>u. u_Email u = normalizeEmail em) (users (tables w)) of
       [] \<Rightarrow> Inl (Sentinel ErrInvalidCredentials)
     | u # _ \<Rightarrow>
         if \<not> CheckPassword (as_lib s) (u_PasswordHash u) pw then Inl (Sentinel ErrInvalidCredentials)
         else jwt_Sign (as_lib s) (as_secret s) (session_claims (as_lib s) (u_ID u) (as_ttl s) (clock w)))"
  using assms
  by (simp add: Login_def orElse_run GetUserByEmail_def one_row_def NewToken_run split: list.split)

end
