(* ===== verification/AuthFlows.thy ===== *)
theory AuthFlows
  imports AuthService
begin

text \<open>
  What the account flows of theory AuthService give as a whole: a link works once, what a login
  needs, what a registration adds, and that a reset request for an unknown address does nothing.
\<close>

section \<open>A world to run the examples in\<close>

text \<open>A library: the hash marks the password, a token spells out its claims and its key. The token of
  a day's session of user 1 is called \<open>tok\<close>.\<close>

definition ex_claims :: Claims where
  "ex_claims = \<lparr>cl_UserID = 1, cl_ExpiresAt = 24 * Hour, cl_IssuedAt = 0\<rparr>"

definition read_int :: "string \<Rightarrow> int" where
  "read_int s = (if HasPrefix s ''-'' then - int (the (digits_val 0 (drop 1 s))) else int (the (digits_val 0 s)))"

lemma read_FormatInt: "read_int (FormatInt n) = n"
proof (cases "n < 0")
  case False
  obtain c cs where "show_nat (nat n) = c # cs" "c \<noteq> CHR ''-''" by (rule show_nat_head)
  then have "\<not> HasPrefix (show_nat (nat n)) ''-''" by simp
  then show ?thesis using False by (simp add: read_int_def FormatInt_def digits_val_show_nat)
qed (simp add: read_int_def FormatInt_def digits_val_show_nat)

definition ex_Sign :: "string \<Rightarrow> Claims \<Rightarrow> string" where
  "ex_Sign k c = (if k = ''s'' \<and> c = ex_claims then ''tok''
     else ''t.'' @ FormatInt (cl_UserID c) @ ''.'' @ FormatInt (cl_ExpiresAt c) @ ''.'' @
       FormatInt (cl_IssuedAt c) @ ''.'' @ k)"

definition ex_unsign :: "string \<Rightarrow> string \<times> Claims" where
  "ex_unsign t = (if t = ''tok'' then (''s'', ex_claims)
     else case Cut (drop 2 t) (CHR ''.'') of (u, r, _) \<Rightarrow> case Cut r (CHR ''.'') of (x, r, _) \<Rightarrow>
       case Cut r (CHR ''.'') of (i, k, _) \<Rightarrow>
         (k, \<lparr>cl_UserID = read_int u, cl_ExpiresAt = read_int x, cl_IssuedAt = read_int i\<rparr>))"

lemma ex_unsign_Sign: "ex_unsign (ex_Sign k c) = (k, c)"
  using Cut_append [OF FormatInt_no_dot]
  by (simp add: ex_unsign_def ex_Sign_def read_FormatInt)

definition ex_lib :: auth_lib where
  "ex_lib = \<lparr>bc_Generate = (\<lambda>salt pw. Inr (''h:'' @ pw)), bc_Compare = (\<lambda>h pw. h = ''h:'' @ pw),
     jwt_NewNumericDate = (\<lambda>t. t - t mod Second), jwt_Sign = (\<lambda>k c. Inr (ex_Sign k c)),
     jwt_ParseWithClaims = (\<lambda>t now key. case ex_unsign t of (k, c) \<Rightarrow>
       if key True = Inr k \<and> now < cl_ExpiresAt c then Inr (c, True) else Inl (Opaque []))\<rparr>"

lemma ex_lib_sound: "sound_auth_lib ex_lib"
  by (auto simp: sound_auth_lib_def ex_lib_def ex_unsign_Sign)

definition ex_auth :: auth_service where
  "ex_auth = \<lparr>as_lib = ex_lib, as_secret = ''s'', as_ttl = 24 * Hour, as_mail = None, as_baseURL = []\<rparr>"

text \<open>The example world after a link \<open>r\<close> was mailed to user 1.\<close>

definition ex_link_world :: "string \<Rightarrow> world" where
  "ex_link_world purpose = ex_world\<lparr>tables :=
     snd (CreateAuthToken 1 (HashToken ''r'') purpose (TS 5000) 0 ex_db)\<rparr>"

lemma ex_link_reachable: "reachable_db (tables (ex_link_world p))"
  using reachable_db.step [OF ex_db_reachable db_step.intros(18)] by (simp add: ex_link_world_def)

lemmas ex_db_defs = ex_db_def ex_event_def ex_watch_def migrated_db_def empty_db_def

lemma ex_link_db:
  "purpose \<in> set valid_purposes \<Longrightarrow> tables (ex_link_world purpose) = ex_db\<lparr>auth_tokens :=
     [\<lparr>t_ID = 1, t_UserID = 1, t_TokenHash = HashToken ''r'', t_Purpose = purpose,
       t_ExpiresAt = TS 5000, t_UsedAt = NULL_TS, t_CreatedAt = TS 0\<rparr>], auth_tokens_id_seq := 2\<rparr>"
  by (simp add: ex_link_world_def CreateAuthToken_def ex_db_defs Let_def TS_def NOW_def stored_def Microsecond_def)

lemma ex_link_frame [simp]:
  "clock (ex_link_world p) = 1000" "outcomes (ex_link_world p) = []" "entropy (ex_link_world p) = []"
  by (simp_all add: ex_link_world_def ex_world_def)

lemma ex_reset:
  "\<exists>w. ResetPassword ex_auth ''r'' ''new-secret'' (ex_link_world ''password_reset'') = (Inr (), w) \<and>
    outcomes w = [] \<and> clock w = 1000 \<and> auth_tokens (tables w) = [] \<and>
    map (\<lambda>u. (u_ID u, u_Email u, u_PasswordHash u)) (users (tables w)) =
      [(1, ''demo@example.com'', ''h:new-secret'')]"
  by (simp add: ResetPassword_def redeemToken_def prog_defs HashPassword_def rand_Read_def ex_auth_def
      ex_lib_def auth_consts ex_link_db valid_purposes_def query_defs one_row_def update_where_def
      ex_db_defs TS_def NULL_TS_def)

section \<open>What a dead link, a login, a registration and a reset request do\<close>

lemma dead_link_refused:
  assumes "token_dead (tables w) (HashToken raw)"
  shows "\<exists>e. fst (ResetPassword s raw pw w) = Inl e \<and> tables (snd (ResetPassword s raw pw w)) = tables w"
    and "\<exists>e. fst (VerifyEmail s raw w) = Inl e \<and> tables (snd (VerifyEmail s raw w)) = tables w"
proof -
  have run: "\<exists>e. fst (orRet (redeemToken raw p) k w) = Inl e \<and>
      tables (snd (orRet (redeemToken raw p) k w)) = tables w" for p and k :: "authToken \<Rightarrow> (world, unit result) prog"
  proof -
    obtain e where "fst (redeemToken raw p w) = Inl e" "tables (snd (redeemToken raw p w)) = tables w"
      using redeemToken_dead [OF assms] by blast
    then show ?thesis by (simp add: orRet_def orElse_run split_beta split: sum.split)
  qed
  show "\<exists>e. fst (ResetPassword s raw pw w) = Inl e \<and> tables (snd (ResetPassword s raw pw w)) = tables w"
    using run by (simp add: ResetPassword_def)
  show "\<exists>e. fst (VerifyEmail s raw w) = Inl e \<and> tables (snd (VerifyEmail s raw w)) = tables w"
    using run by (simp add: VerifyEmail_def)
qed

lemma used_link_dead:
  assumes "ResetPassword s raw pw w = (Inr (), w1) \<or> VerifyEmail s raw w = (Inr (), w1)"
    and "reachable_db (tables w)"
  shows "token_dead (tables w1) (HashToken raw)"
proof -
  have ok: "db_ok (tables w)" using assms(2) by (rule reachable_db_ok)
  show ?thesis
    using assms(1) ResetPassword_ok [OF _ ok] VerifyEmail_ok [OF _ ok] by blast
qed

lemma token_owner:
  assumes "db_ok d" and "tok \<in> set (auth_tokens d)"
  obtains u where "u \<in> set (users d)" "u_ID u = t_UserID tok"
  using assms by (auto simp: db_ok_def refers_def)

lemma filter_update_email:
  assumes "db_ok d" and "u \<in> set (users d)"
  shows "filter (\<lambda>v. u_Email v = u_Email u)
      (update_where (\<lambda>v. u_ID v = u_ID u) (\<lambda>v. v\<lparr>u_PasswordHash := h\<rparr>) (users d)) =
    [u\<lparr>u_PasswordHash := h\<rparr>]"
proof -
  have "filter (\<lambda>v. u_Email v = u_Email u) (users d) = [u]"
    using assms by (simp add: db_ok_def unique_col_def filter_key)
  then show ?thesis by (simp add: update_where_def filter_map comp_def if_distrib cong: if_cong)
qed

text \<open>A login reads one row; it runs no other statement.\<close>

lemma Login_reads:
  "tables (snd (Login s em pw w)) = tables w \<and>
   (\<forall>tok. fst (Login s em pw w) = Inr tok \<longrightarrow> (\<exists>u\<in>set (users (tables w)). \<exists>t. clock w \<le> t \<and>
      u_Email u = normalizeEmail em \<and> CheckPassword (as_lib s) (u_PasswordHash u) pw \<and>
      jwt_Sign (as_lib s) (as_secret s)
        (session_claims (as_lib s) (u_ID u) (as_ttl s) t) = Inr tok))"
proof -
  let ?q = "GetUserByEmail (normalizeEmail em)"
  obtain r w1 where e: "exec ?q w = (r, w1)" by force
  have t1: "tables w1 = tables w" using exec_read [of ?q w] e by simp
  show ?thesis
  proof (cases r)
    case (Inl err)
    then show ?thesis using e t1 by (simp add: Login_def orElse_run)
  next
    case (Inr u)
    obtain t where t: "clock w \<le> t" "t \<le> clock w1" "?q t (tables w) = (Inr u, tables w1)"
      using exec_Inr [of ?q w u w1] e Inr by auto
    have u: "u \<in> set (users (tables w))" "u_Email u = normalizeEmail em"
      using t(3) by (auto simp: GetUserByEmail_def one_row_def filter_eq_Cons_iff split: list.splits)
    show ?thesis
      using e Inr t1 u order_trans [OF t(1,2)] by (auto simp: Login_def orElse_run NewToken_run)
  qed
qed

lemma reset_unknown:
  assumes "normalizeEmail em \<notin> u_Email ` set (users (tables w))"
  shows "tables (snd (RequestPasswordReset s em w)) = tables w \<and>
    wire (snd (RequestPasswordReset s em w)) = wire w \<and>
    console (snd (RequestPasswordReset s em w)) = console w \<and>
    (outcomes w = [] \<longrightarrow> fst (RequestPasswordReset s em w) = Inr ())"
proof -
  let ?q = "GetUserByEmail (normalizeEmail em)"
  obtain r w1 where e: "exec ?q w = (r, w1)" by force
  have none: "?q t (tables w) = (Inl (Sentinel ErrNoRows), tables w)" for t
    using assms by (auto simp: GetUserByEmail_def one_row_def filter_eq_Cons_iff split: list.split)
  have t1: "tables w1 = tables w" using exec_read [of ?q w] e by simp
  obtain err where r: "r = Inl err" using exec_Inr [of ?q w _ w1] e none by (cases r) fastforce+
  have "err = Sentinel ErrNoRows" if "outcomes w = []" using e r none that by simp
  moreover have "wire w1 = wire w" "console w1 = console w"
    using exec_frame(3,4) [of ?q w] e by simp_all
  ultimately show ?thesis using e t1 r by (simp add: RequestPasswordReset_def orElse_run)
qed

text \<open>The one user a registration may add.\<close>

definition adds_account :: "auth_service \<Rightarrow> string \<Rightarrow> string \<Rightarrow> user list \<Rightarrow> user list \<Rightarrow> bool" where
  "adds_account s em pw us us' \<longleftrightarrow>
     (\<exists>u salt. us' = us @ [u] \<and> u_Email u = em \<and> em \<notin> u_Email ` set us \<and> Contains em ''@'' \<and>
        8 \<le> length pw \<and> bc_Generate (as_lib s) salt pw = Inr (u_PasswordHash u) \<and>
        \<not> ts_Valid (u_EmailVerifiedAt u) \<and> \<not> ts_Valid (u_UnsubscribedAt u))"

lemma CreateUser_users:
  "users (snd (CreateUser em h t d)) = (case fst (CreateUser em h t d) of
     Inl _ \<Rightarrow> users d | Inr u \<Rightarrow> users d @ [u])"
  and CreateUser_row:
  "fst (CreateUser em h t d) = Inr u \<Longrightarrow> u_Email u = em \<and> em \<notin> u_Email ` set (users d) \<and>
     u_PasswordHash u = h \<and> \<not> ts_Valid (u_EmailVerifiedAt u) \<and> \<not> ts_Valid (u_UnsubscribedAt u)"
  by (auto simp: CreateUser_def Let_def NULL_TS_def split: if_splits)

lemma Register_users:
  fixes w :: world and em pw :: string
  assumes quiet: "quiet_mail s"
  defines "us \<equiv> users (tables w)" and "us' \<equiv> users (tables (snd (Register s em pw w)))"
  shows "(us' = us \<or> adds_account s (normalizeEmail em) pw us us') \<and>
    (\<forall>tok. fst (Register s em pw w) = Inr tok \<longrightarrow> us' \<noteq> us)"
proof -
  let ?em = "normalizeEmail em"
  show ?thesis
  proof (cases "Contains ?em ''@'' \<and> 8 \<le> length pw")
    case False
    then show ?thesis by (auto simp: us_def us'_def Register_def Let_def)
  next
    case True
    obtain r w1 where h: "HashPassword (as_lib s) pw w = (r, w1)" by force
    have w1: "tables w1 = tables w"
      using h by (auto simp: HashPassword_def orRet_def orElse_run rand_Read_def
        split: list.splits option.splits sum.splits)
    show ?thesis
    proof (cases r)
      case (Inl e)
      then show ?thesis using True h w1
        by (simp add: us_def us'_def Register_def Let_def orRet_def orElse_run)
    next
      case (Inr hash)
      then obtain salt where salt: "bc_Generate (as_lib s) salt pw = Inr hash"
        using HashPassword_run [of "as_lib s" pw w hash w1] h by blast
      let ?q = "CreateUser ?em hash"
      obtain r2 w2 where c: "exec ?q w1 = (r2, w2)" by force
      have added: "adds_account s ?em pw us (users (snd (?q t (tables w1))))"
        if "fst (?q t (tables w1)) = Inr u" for t u
        using True salt CreateUser_row [OF that] that CreateUser_users [of ?em hash t "tables w1"]
        by (auto simp: adds_account_def us_def w1)
      have kept: "users (tables w2) = us \<or> adds_account s ?em pw us (users (tables w2))"
        using added CreateUser_users [of ?em hash _ "tables w1"] c w1
        by (cases rule: exec_cases [of w1 ?q]) (auto simp: us_def split: sum.splits)
      show ?thesis
      proof (cases r2)
        case (Inl e)
        have "us' = users (tables w2)" "\<exists>e. fst (Register s em pw w) = Inl e"
          using True h Inr c Inl by (auto simp: us'_def Register_def Let_def orRet_def orElse_run)
        then show ?thesis using kept by auto
      next
        case (Inr u)
        have "us' = users (tables (snd (sendVerification s (u_ID u) (u_Email u) w2)))"
          using True h \<open>r = Inr hash\<close> c Inr
          by (simp add: us'_def Register_def Let_def orRet_def orElse_run andThen_run NewToken_run)
        then have "us' = users (tables w2)"
          using stepsD [OF same_users_sendVerification [OF quiet], of w2] by (simp add: same_def)
        moreover obtain t where "?q t (tables w1) = (Inr u, tables w2)"
          using exec_Inr [of ?q w1 u w2] c Inr by blast
        then have "adds_account s ?em pw us (users (tables w2))" using added [of t u] by simp
        ultimately show ?thesis by (auto simp: adds_account_def)
      qed
    qed
  qed
qed

section \<open>Properties\<close>

text \<open>(C20) A password reset succeeds only with a link that is stored for this purpose, unused and not
  expired; it changes the password of the link's owner and no other field or user, and burns the
  link.\<close>
theorem reset_needs_live_link:
  assumes "ResetPassword s raw pw w = (Inr (), w')" and "reachable_db (tables w)"
  shows "\<exists>tok salt hash. tok \<in> set (auth_tokens (tables w)) \<and> t_TokenHash tok = HashToken raw \<and>
    t_Purpose tok = ''password_reset'' \<and> \<not> ts_Valid (t_UsedAt tok) \<and>
    clock w < ts_Time (t_ExpiresAt tok) \<and> bc_Generate (as_lib s) salt pw = Inr hash \<and>
    users (tables w') = update_where (\<lambda>u. u_ID u = t_UserID tok) (\<lambda>u. u\<lparr>u_PasswordHash := hash\<rparr>)
      (users (tables w)) \<and> token_dead (tables w') (HashToken raw)"
  using ResetPassword_ok [OF assms(1)] reachable_db_ok [OF assms(2)]
  unfolding purposePasswordReset_def by blast

theorem reset_needs_live_link_witness:
  "\<exists>w'. ResetPassword ex_auth ''r'' ''new-secret'' (ex_link_world ''password_reset'') = (Inr (), w') \<and>
     token_dead (tables w') (HashToken ''r'')"
proof -
  obtain w' where r: "ResetPassword ex_auth ''r'' ''new-secret'' (ex_link_world ''password_reset'') = (Inr (), w')"
    using ex_reset by blast
  then show ?thesis using reset_needs_live_link [OF r ex_link_reachable] by blast
qed

text \<open>The statement that marks a link used does not ask whether it was used already: two requests that
  both found the link before either marked it both go on.\<close>

lemma redeem_race:
  assumes "fst (GetValidAuthToken h p now d) = Inr tok"
  shows "fst (GetValidAuthToken h p now (snd (GetValidAuthToken h p now d))) = Inr tok \<and>
    fst (MarkAuthTokenUsed (t_ID tok) now (snd (MarkAuthTokenUsed (t_ID tok) now d))) = Inr ()"
  using assms by (simp add: GetValidAuthToken_def MarkAuthTokenUsed_def)

text \<open>(C14) A link works once: after a reset or a verification with it, and whatever statements run
  since that do not store the same hash again, it is refused by both, and the refusal leaves the
  tables alone.\<close>
theorem link_works_once:
  assumes "ResetPassword s raw pw w = (Inr (), w1) \<or> VerifyEmail s raw w = (Inr (), w1)"
    and "reachable_db (tables w)" and "steps_without (HashToken raw) (tables w1) (tables w2)"
  shows "(\<exists>e. fst (ResetPassword s raw pw' w2) = Inl e) \<and>
    tables (snd (ResetPassword s raw pw' w2)) = tables w2 \<and>
    (\<exists>e. fst (VerifyEmail s raw w2) = Inl e) \<and> tables (snd (VerifyEmail s raw w2)) = tables w2"
  using dead_link_refused [OF token_dead_steps [OF assms(3) used_link_dead [OF assms(1,2)]]] by blast

theorem link_works_once_witness:
  "\<exists>w1. ResetPassword ex_auth ''r'' ''new-secret'' (ex_link_world ''password_reset'') = (Inr (), w1) \<and>
     (\<exists>e. fst (ResetPassword ex_auth ''r'' ''other-secret'' w1) = Inl e)"
proof -
  obtain w1 where r: "ResetPassword ex_auth ''r'' ''new-secret'' (ex_link_world ''password_reset'') = (Inr (), w1)"
    using ex_reset by blast
  then show ?thesis
    using link_works_once [OF disjI1 [OF r] ex_link_reachable steps_without.nothing] by blast
qed

text \<open>(C31) After a reset the new password opens a session for the owner of the link, however the
  address is spelled, as long as the users stay as they are: the login answers with a token, and
  wherever that is presented before it expires, it is accepted as that user's.\<close>
theorem reset_then_login:
  assumes "sound_auth_lib (as_lib s)" and "ResetPassword s raw pw w = (Inr (), w1)"
    and "reachable_db (tables w)" and "users (tables w2) = users (tables w1)" and "outcomes w2 = []"
  shows "\<exists>tok\<in>set (auth_tokens (tables w)). \<exists>u\<in>set (users (tables w)).
    t_TokenHash tok = HashToken raw \<and> u_ID u = t_UserID tok \<and>
    (\<forall>em. normalizeEmail em = u_Email u \<longrightarrow> (\<exists>session. fst (Login s em pw w2) = Inr session \<and>
       (\<forall>w3. clock w3 < session_end (clock w2) (as_ttl s) \<longrightarrow>
          fst (ParseToken (as_lib s) (as_secret s) session w3) = Inr (u_ID u))))"
proof -
  have ok: "db_ok (tables w)" using assms(3) by (rule reachable_db_ok)
  obtain tok salt hash where tok: "tok \<in> set (auth_tokens (tables w))" "t_TokenHash tok = HashToken raw"
      "bc_Generate (as_lib s) salt pw = Inr hash"
    and us: "users (tables w1) = update_where (\<lambda>u. u_ID u = t_UserID tok) (\<lambda>u. u\<lparr>u_PasswordHash := hash\<rparr>)
      (users (tables w))"
    using ResetPassword_ok [OF assms(2) ok] by blast
  obtain u where u: "u \<in> set (users (tables w))" "u_ID u = t_UserID tok"
    using ok tok(1) by (rule token_owner)
  obtain session where session: "jwt_Sign (as_lib s) (as_secret s)
      (session_claims (as_lib s) (u_ID u) (as_ttl s) (clock w2)) = Inr session"
    using jwt_signs [OF assms(1)] by blast
  have "CheckPassword (as_lib s) hash pw"
    using bcrypt_match [OF assms(1) tok(3)] by (simp add: CheckPassword_def)
  then have "fst (Login s em pw w2) = Inr session" if "normalizeEmail em = u_Email u" for em
    using filter_update_email [OF ok u(1), of hash] that u(2) session
    by (simp add: Login_run [OF assms(5)] assms(4) us)
  then show ?thesis using tok u session_parses [OF assms(1) session] by (metis (no_types, lifting))
qed

theorem reset_then_login_witness:
  "\<exists>w1 session. ResetPassword ex_auth ''r'' ''new-secret'' (ex_link_world ''password_reset'') = (Inr (), w1) \<and>
     fst (Login ex_auth '' Demo@Example.com'' ''new-secret'' w1) = Inr session \<and>
     fst (ParseToken (as_lib ex_auth) (as_secret ex_auth) session w1) = Inr 1"
proof -
  obtain w1 where r: "ResetPassword ex_auth ''r'' ''new-secret'' (ex_link_world ''password_reset'') = (Inr (), w1)"
    and o: "outcomes w1 = []" "clock w1 = 1000" using ex_reset by blast
  have lib: "sound_auth_lib (as_lib ex_auth)" by (simp add: ex_auth_def ex_lib_sound)
  have us: "users (tables (ex_link_world ''password_reset'')) = users ex_db"
    by (simp add: ex_link_db valid_purposes_def)
  have em: "normalizeEmail '' Demo@Example.com'' = ''demo@example.com''" by code_simp
  have live: "clock w1 < session_end (clock w1) (as_ttl ex_auth)"
    by (simp add: o(2) session_end_def ex_auth_def Hour_def Second_def)
  obtain u where u: "u \<in> set (users ex_db)" "normalizeEmail '' Demo@Example.com'' = u_Email u \<Longrightarrow>
      \<exists>session. fst (Login ex_auth '' Demo@Example.com'' ''new-secret'' w1) = Inr session \<and>
        fst (ParseToken (as_lib ex_auth) (as_secret ex_auth) session w1) = Inr (u_ID u)"
    using reset_then_login [OF lib r ex_link_reachable refl o(1)] live unfolding us by blast
  have "u_Email u = ''demo@example.com''" "u_ID u = 1" using u(1) by (simp_all add: ex_db_defs)
  then show ?thesis using u(2) r em by auto
qed

text \<open>(C33) A login changes no table. It succeeds only for a user with that address whose stored hash
  the password matches, with a session signed for that user; an unknown address and a wrong
  password get the same error.\<close>
theorem login_answers:
  "tables (snd (Login s em pw w)) = tables w \<and>
   (\<forall>tok. fst (Login s em pw w) = Inr tok \<longrightarrow> (\<exists>u\<in>set (users (tables w)). \<exists>t. clock w \<le> t \<and>
      u_Email u = normalizeEmail em \<and> CheckPassword (as_lib s) (u_PasswordHash u) pw \<and>
      jwt_Sign (as_lib s) (as_secret s)
        (session_claims (as_lib s) (u_ID u) (as_ttl s) t) = Inr tok)) \<and>
   (outcomes w = [] \<and> (\<forall>u\<in>set (users (tables w)). u_Email u = normalizeEmail em \<longrightarrow>
        \<not> CheckPassword (as_lib s) (u_PasswordHash u) pw) \<longrightarrow>
      fst (Login s em pw w) = Inl (Sentinel ErrInvalidCredentials))"
proof (intro conjI impI)
  assume *: "outcomes w = [] \<and> (\<forall>u\<in>set (users (tables w)). u_Email u = normalizeEmail em \<longrightarrow>
        \<not> CheckPassword (as_lib s) (u_PasswordHash u) pw)"
  then have "\<not> CheckPassword (as_lib s) (u_PasswordHash u) pw"
    if "filter (\<lambda>u. u_Email u = normalizeEmail em) (users (tables w)) = u # us" for u us
    using that by (auto simp: filter_eq_Cons_iff)
  then show "fst (Login s em pw w) = Inl (Sentinel ErrInvalidCredentials)"
    using * by (simp add: Login_run split: list.split)
qed (use Login_reads [of s em pw w] in simp_all)

theorem login_answers_witness:
  "fst (Login ex_auth ''nobody@b'' ''x'' ex_world) = Inl (Sentinel ErrInvalidCredentials) \<and>
   fst (Login ex_auth ''demo@example.com'' ''x'' ex_world) = Inl (Sentinel ErrInvalidCredentials)"
proof -
  have "\<forall>u\<in>set (users (tables ex_world)). \<not> CheckPassword (as_lib ex_auth) (u_PasswordHash u) ''x''"
    "outcomes ex_world = []"
    by (simp_all add: ex_world_def ex_db_defs CheckPassword_def ex_auth_def ex_lib_def)
  then show ?thesis
    using login_answers [of ex_auth "''nobody@b''" "''x''" ex_world]
      login_answers [of ex_auth "''demo@example.com''" "''x''" ex_world] by blast
qed

text \<open>Asking to reset the password of an address nobody registered answers as if it had worked,
  and sends, stores and logs nothing.\<close>
lemma unknown_reset_is_silent:
  assumes "normalizeEmail em \<notin> u_Email ` set (users (tables w))" and "outcomes w = []"
  shows "fst (RequestPasswordReset s em w) = Inr () \<and>
    tables (snd (RequestPasswordReset s em w)) = tables w \<and>
    wire (snd (RequestPasswordReset s em w)) = wire w \<and>
    console (snd (RequestPasswordReset s em w)) = console w"
  using reset_unknown [OF assms(1)] assms(2) by simp

text \<open>(C32) A registration adds at most one user and changes none. The one it adds has the normalized
  address, which was free, a hash of the given password of eight characters or more, and neither
  a verified address nor an opt-out; a registration that answers with a session added it.\<close>
theorem registration_adds_one:
  assumes "quiet_mail s"
  shows "let us = users (tables w); us' = users (tables (snd (Register s em pw w))) in
    (us' = us \<or> adds_account s (normalizeEmail em) pw us us') \<and>
    (\<forall>tok. fst (Register s em pw w) = Inr tok \<longrightarrow> us' \<noteq> us)"
  using Register_users [OF assms] by (simp add: Let_def)

theorem registration_adds_one_witness:
  "map u_Email (users (tables (snd (Register ex_auth '' A@b.C '' ''12345678'' ex_world)))) =
     [''demo@example.com'', ''a@b.c''] \<and>
   users (tables (snd (Register ex_auth ''demo@example.com'' ''12345678'' ex_world))) = users ex_db"
proof
  show "map u_Email (users (tables (snd (Register ex_auth '' A@b.C '' ''12345678'' ex_world)))) =
     [''demo@example.com'', ''a@b.c'']"
  proof -
    have em: "normalizeEmail '' A@b.C '' = ''a@b.c''" by code_simp
    show ?thesis
      by (simp add: Register_def em prog_defs HashPassword_def rand_Read_def ex_auth_def ex_lib_def
        sendVerification_def issueToken_def NewOpaqueToken_def auth_send_def NewToken_def
        query_defs ex_world_def ex_db_defs Let_def TS_def auth_consts valid_purposes_def ex_claims_def)
  qed
next
  have q: "quiet_mail ex_auth" by (simp add: quiet_mail_def auth_send_def ex_auth_def)
  have em: "normalizeEmail ''demo@example.com'' = ''demo@example.com''" by code_simp
  have us: "users (tables ex_world) = users ex_db" "u_Email ` set (users ex_db) = {''demo@example.com''}"
    by (simp_all add: ex_world_def ex_db_defs)
  show "users (tables (snd (Register ex_auth ''demo@example.com'' ''12345678'' ex_world))) = users ex_db"
    using registration_adds_one [OF q, of ex_world "''demo@example.com''" "''12345678''"]
    by (auto simp: Let_def em us adds_account_def)
qed

text \<open>(C34) A session token gives back the user it was issued for until it expires, and from then on
  is refused. It expires at the last whole second within its time to live.\<close>
theorem session_token_roundtrip:
  assumes "sound_auth_lib lib" and "NewToken lib secret userID ttl w = (Inr tok, w1)"
  shows "fst (ParseToken lib secret tok w2) =
      (if clock w2 < session_end (clock w) ttl then Inr userID else Inl (Opaque ''invalid token'')) \<and>
    session_end (clock w) ttl mod Second = 0 \<and>
    clock w + ttl - Second < session_end (clock w) ttl \<and> session_end (clock w) ttl \<le> clock w + ttl"
proof -
  have "jwt_Sign lib secret (session_claims lib userID ttl (clock w)) = Inr tok"
    using assms(2) by (auto simp: NewToken_run)
  moreover have "session_end (clock w) ttl mod Second = 0"
    by (simp add: session_end_def flip: minus_mod_eq_mult_div)
  ultimately show ?thesis using session_parses [OF assms(1)] session_end_bounds by simp
qed

text \<open>The session issued a thousand nanoseconds after the epoch ends a whole day after the epoch.\<close>
theorem session_token_roundtrip_witness:
  "fst (ParseToken ex_lib ''s'' ''tok'' ex_world) = Inr 1 \<and>
   fst (ParseToken ex_lib ''s'' ''tok'' (ex_world\<lparr>clock := 24 * Hour\<rparr>)) = Inl (Opaque ''invalid token'')"
proof -
  have "NewToken ex_lib ''s'' 1 (24 * Hour) ex_world = (Inr ''tok'', ex_world)"
    by (simp add: NewToken_run session_claims_def ex_lib_def ex_Sign_def ex_claims_def ex_world_def Hour_def Second_def)
  from session_token_roundtrip [OF ex_lib_sound this]
  show ?thesis by (simp add: ex_world_def session_end_def Hour_def Second_def)
qed

text \<open>(C35) An unsubscribe token is accepted exactly when it is an id and the MAC of that id under the
  secret; the token made for a user is accepted as that user's, and every character of it may
  stand in a URL as it is.\<close>
theorem unsubscribe_token_exact:
  "(ParseUnsubscribeToken secret token = Inr u \<longleftrightarrow>
      (\<exists>ident. CHR ''.'' \<notin> set ident \<and> ParseInt ident = Some u \<and>
         token = ident @ ''.'' @ unsubscribeMAC secret ident)) \<and>
   (min_int64 \<le> v \<and> v \<le> max_int64 \<longrightarrow>
      ParseUnsubscribeToken secret (NewUnsubscribeToken secret v) = Inr v) \<and>
   QueryEscape (NewUnsubscribeToken secret v) = NewUnsubscribeToken secret v"
proof (intro conjI)
  show "QueryEscape (NewUnsubscribeToken secret v) = NewUnsubscribeToken secret v"
    by (intro QueryEscape_unreserved ballI) (rule unsubscribe_token_unreserved)
qed (use ParseUnsubscribeToken_iff NewUnsubscribeToken_parses in blast)+

theorem unsubscribe_token_exact_witness:
  "ParseUnsubscribeToken ''s'' (NewUnsubscribeToken ''s'' 42) = Inr 42"
  using unsubscribe_token_exact [where v = 42 and secret = "''s''"]
  by (simp add: min_int64_def max_int64_def)

end
