(* ===== verification/Services.thy ===== *)
theory Services
  imports WatchBook AuthFlows
begin

text \<open>
  The small services: \<open>account.go\<close> (opt-out and erasure), \<open>notification.go\<close> (the log of alerts)
  and \<open>search.go\<close>. Shown: that an opt-out holds against every poll that runs after it, that an
  erased account leaves no row of the user, and that a page of the log is bounded and the
  caller's own.
\<close>

section \<open>account.go\<close>

definition UnsubscribeURL :: "string \<Rightarrow> string \<Rightarrow> int \<Rightarrow> string" where
  "UnsubscribeURL secret baseURL userID =
     baseURL @ ''/api/unsubscribe?token='' @ NewUnsubscribeToken secret userID"

definition Unsubscribe :: "string \<Rightarrow> string \<Rightarrow> (world, unit result) prog" where
  "Unsubscribe secret token =
     (case ParseUnsubscribeToken secret token of
        Inl err \<Rightarrow> ret (Inl err)
      | Inr userID \<Rightarrow> exec (SetUnsubscribed userID))"

definition Resubscribe :: "int \<Rightarrow> (world, unit result) prog" where
  "Resubscribe userID = exec (SetResubscribed userID)"

definition account_Delete :: "int \<Rightarrow> (world, unit result) prog" where
  "account_Delete userID =
     orRet (exec (DeleteUser userID)) (\<lambda>n.
     if n = 0 then ret (Inl (Sentinel ErrAccountNotFound)) else ret (Inr ()))"

section \<open>notification.go\<close>

record NotificationView =
  nv_ID :: int
  nv_WatchID :: int
  nv_Channel :: string
  nv_SentAt :: time
  nv_Payload :: payload

definition notification_view :: "notification \<Rightarrow> NotificationView" where
  "notification_view n = \<lparr>nv_ID = n_ID n, nv_WatchID = n_WatchID n, nv_Channel = n_Channel n,
     nv_SentAt = ts_Time (n_SentAt n), nv_Payload = n_Payload n\<rparr>"

definition notifications_List :: "int \<Rightarrow> int \<Rightarrow> (world, NotificationView list result) prog" where
  "notifications_List userID limit =
     (let limit = (if limit \<le> 0 \<or> limit > 200 then 50 else limit)
      in orRet (exec (ListNotificationsForUser userID limit)) (\<lambda>rows.
           ret (Inr (map notification_view rows))))"

section \<open>search.go\<close>

definition service_Search :: "world Client \<Rightarrow> string \<Rightarrow> bool \<Rightarrow> (world, EventSnapshot list result) prog" where
  "service_Search tm q upcomingOnsalesOnly =
     (if q = [] then ret (Inl (Sentinel ErrEmptyQuery))
      else Client_Search tm q upcomingOnsalesOnly)"

section \<open>Opting out\<close>

definition opted_out :: "int \<Rightarrow> database \<Rightarrow> bool" where
  "opted_out u d \<longleftrightarrow> u < users_id_seq d \<and>
     (\<forall>x\<in>set (users d). u_ID x = u \<longrightarrow> ts_Valid (u_UnsubscribedAt x))"

text \<open>Only a resubscription of the same user ends an opt-out; an id is never given again.\<close>

lemma opted_out_update:
  "opted_out u d \<Longrightarrow> (\<And>x. u_ID (f x) = u_ID x) \<Longrightarrow>
    (\<And>x. P x \<Longrightarrow> u_ID x = u \<Longrightarrow> ts_Valid (u_UnsubscribedAt x) \<Longrightarrow> ts_Valid (u_UnsubscribedAt (f x))) \<Longrightarrow>
    opted_out u (d\<lparr>users := update_where P f (users d)\<rparr>)"
  by (auto simp: opted_out_def update_where_def)

lemma opted_out_frame:
  "users d' = users d \<Longrightarrow> users_id_seq d' = users_id_seq d \<Longrightarrow> opted_out u d' = opted_out u d"
  by (simp add: opted_out_def)

lemma opted_out_step:
  assumes "db_step d d'" and "opted_out u d" and "\<forall>now. d' \<noteq> snd (SetResubscribed u now d)"
  shows "opted_out u d'"
  using assms(1)
proof cases
  case (12 em h now)
  then show ?thesis using assms(2) by (auto simp: CreateUser_def Let_def opted_out_def)
next
  case (13 v now)
  then show ?thesis using assms(2) by (simp add: DeleteUser_def Let_def delete_watches_def opted_out_def)
next
  case (14 v now)
  then show ?thesis using opted_out_update [OF assms(2)] by (simp add: MarkEmailVerified_def)
next
  case (15 v now)
  then have "v \<noteq> u" using assms(3) by auto
  with 15 show ?thesis by (auto simp: SetResubscribed_def intro!: opted_out_update [OF assms(2)])
next
  case (16 v now)
  then show ?thesis using opted_out_update [OF assms(2)] by (simp add: SetUnsubscribed_def TS_def)
next
  case (17 v h now)
  then show ?thesis using opted_out_update [OF assms(2)] by (simp add: UpdateUserPassword_def)
qed (rule opted_out_frame [THEN iffD2, OF _ _ assms(2)];
     simp add: query_defs delete_watches_def Let_def split: list.split)+

text \<open>Everything else that runs: any statement but the resubscription of this user.\<close>

definition silent_for :: "int \<Rightarrow> world \<Rightarrow> world \<Rightarrow> bool" where
  "silent_for u w w' \<longleftrightarrow>
     (\<lambda>d d'. db_step d d' \<and> (\<forall>now. d' \<noteq> snd (SetResubscribed u now d)))\<^sup>*\<^sup>* (tables w) (tables w')"

lemma silent_keeps: "silent_for u w w' \<Longrightarrow> opted_out u (tables w) \<Longrightarrow> opted_out u (tables w')"
  unfolding silent_for_def by (induction rule: rtranclp_induct) (auto intro: opted_out_step)

definition accounts :: "database \<Rightarrow> user list \<times> int" where
  "accounts d = (users d, users_id_seq d)"

lemma same_accounts_worker:
  "steps (same accounts) (exec (GetEvent i))" "steps (same accounts) (exec (InsertAvailabilitySnapshot i s))"
  "steps (same accounts) (exec (MinPollIntervalForEvent i))" "steps (same accounts) (exec (UpdateEventLatest p))"
  "steps (same accounts) (exec (ListActiveWatchesForEvent i))" "steps (same accounts) (exec (ClaimWatchAlert i k))"
  "steps (same accounts) (exec (MarkNotified i))" "steps (same accounts) (exec (SetLastEvaluation i b))"
  "steps (same accounts) (exec (CloseWatchesForEvent i))" "steps (same accounts) (exec (InsertNotification i c pl))"
  by (rule same_exec; simp add: accounts_def query_defs Let_def)+

lemma same_accounts_notify: "steps (same accounts) (Notify (world_notifier [email_sender m nr key from_addr]) a)"
proof -
  have send: "steps (same accounts) (sd_Send (email_sender m nr key from_addr) msg)" for msg
    by (rule same_tables) (rule email_sender_tables)
  have ins: "nf_InsertNotification (world_notifier ss) w c p = exec (InsertNotification w c p)" for ss w c p
    by (simp add: world_notifier_def)
  have "steps (same accounts) (notify_senders (world_notifier [email_sender m nr key from_addr]) msg a
      [email_sender m nr key from_addr])" for msg
    unfolding notify_senders.simps ins by (intro steps_intros same_accounts_worker send)
  then show ?thesis by (auto simp: Notify_def world_notifier_def intro: same.steps_ret split: option.split)
qed

lemma act_step_accounts:
  "accounts (tables (snd (act_step (main_deps b k nr ds de (email_sender mj nr' key from_addr)) m w))) =
    accounts (tables w)"
proof -
  have call: "accounts (tables (snd (case p w of (r, w) \<Rightarrow> (f r, w)))) = accounts (tables w)"
    if "steps (same accounts) p" for p :: "(world, 'c) prog" and f :: "'c \<Rightarrow> 'd"
    using that by (simp add: steps_def same_def split_beta)
  have fetch: "steps (same accounts) (Client_GetEvent (world_client b k nr ds de) tm)" for tm
    by (rule still_same) (rule still_client)
  show ?thesis
    by (cases m; simp only: act_step.simps main_deps_def world_deps_def Deps.simps snd_conv)
      (rule call same_accounts_worker same_accounts_notify same_other fetch)+
qed

lemma opted_out_accounts: "accounts d' = accounts d \<Longrightarrow> opted_out u d' = opted_out u d"
  by (simp add: accounts_def opted_out_def)

text \<open>Every world a pool passes through, from one where the user has opted out.\<close>

lemma pool_opted_out:
  assumes "pool_reach (main_deps b k nr ds de (email_sender mj nr' key from_addr)) (silent_for u) w0 s"
    and "opted_out u (tables w0)"
  shows "opted_out u (tables (po_world s)) \<and> (\<forall>v\<in>set (po_past s). opted_out u (tables v))"
  using assms(1)
proof (induction rule: pool_reach.induct)
  case init
  then show ?case using assms(2) by simp
next
  case (step s s')
  from step.hyps(2) show ?case
  proof cases
    case (call i t w)
    have "accounts (tables w) = accounts (tables (po_world s))"
      using act_step_accounts [of b k nr ds de mj nr' key from_addr "po_polls s ! i" "po_world s"] call(3) by simp
    then have "opted_out u (tables w)" using opted_out_accounts step.IH by blast
    then show ?thesis using step.IH by (simp add: call(1))
  next
    case (other w)
    then have "opted_out u (tables w)" using step.IH silent_keeps by blast
    then show ?thesis using step.IH by (simp add: other(1))
  qed (use step.IH in simp_all)
qed

lemma update_where_all:
  assumes "\<And>r. P r \<Longrightarrow> Q (f r)" and "\<And>r. \<not> P r \<Longrightarrow> Q r"
  shows "\<forall>x\<in>set (update_where P f rows). Q x"
  using assms by (induction rows) (auto simp: update_where_def)

lemma Unsubscribe_opts_out:
  assumes "Unsubscribe secret token w = (Inr (), w')" and "db_ok (tables w)"
    and "ParseUnsubscribeToken secret token = Inr u" and "u \<in> u_ID ` set (users (tables w))"
  shows "opted_out u (tables w')"
proof -
  have "exec (SetUnsubscribed u) w = (Inr (), w')" using assms(1,3) by (simp add: Unsubscribe_def)
  from exec_Inr [OF this] obtain t where t: "SetUnsubscribed u t (tables w) = (Inr (), tables w')"
    by blast
  then have w': "tables w' = snd (SetUnsubscribed u t (tables w))" by simp
  have "\<forall>x\<in>set (users (tables w)). u_ID x < users_id_seq (tables w)"
    using assms(2) by (simp add: db_ok_def keyed_def)
  then have "u < users_id_seq (tables w)" using assms(4) by blast
  moreover have "\<forall>x\<in>set (update_where (\<lambda>x. u_ID x = u) (\<lambda>x. x\<lparr>u_UnsubscribedAt := NOW t\<rparr>) us).
      u_ID x = u \<longrightarrow> ts_Valid (u_UnsubscribedAt x)" for us
    by (rule update_where_all) (simp_all add: TS_def)
  ultimately show ?thesis by (simp add: w' opted_out_def SetUnsubscribed_def)
qed

section \<open>Erasing an account\<close>

lemma account_Delete_erases:
  assumes "account_Delete u w = (Inr (), w')" and "db_ok (tables w)"
  shows "dossier_of u (tables w') =
      \<lparr>do_users = [], do_watches = [], do_alerts = [], do_notifications = [], do_tokens = []\<rparr> \<and>
    events (tables w') = events (tables w) \<and>
    availability_snapshots (tables w') = availability_snapshots (tables w) \<and>
    (\<forall>v. v \<noteq> u \<longrightarrow> dossier_of v (tables w') = dossier_of v (tables w))"
proof -
  obtain n where e: "exec (DeleteUser u) w = (Inr n, w')"
    using assms(1) by (auto simp: account_Delete_def orRet_Inr split: if_splits)
  from exec_Inr [OF e] obtain t where "DeleteUser u t (tables w) = (Inr n, tables w')" by blast
  then have w': "tables w' = snd (DeleteUser u t (tables w))" by simp
  have "dossier_of v (tables w') = dossier_of v (tables w)" if "v \<noteq> u" for v
    using spares_DeleteUser [of u v "tables w" t] that assms(2) by (simp add: w' spares_def)
  moreover have "dossier_of u (tables w') =
      \<lparr>do_users = [], do_watches = [], do_alerts = [], do_notifications = [], do_tokens = []\<rparr>"
    by (simp add: w' DeleteUser_def Let_def delete_watches_def dossier_of_def mine_def filter_empty_conv)
  moreover have "events (tables w') = events (tables w)"
    "availability_snapshots (tables w') = availability_snapshots (tables w)"
    by (simp_all add: w' DeleteUser_def Let_def delete_watches_def)
  ultimately show ?thesis by blast
qed

section \<open>The log of alerts\<close>

lemma mine_iff: "mine u d i \<longleftrightarrow> (\<exists>x\<in>set (watches d). w_ID x = i \<and> w_UserID x = u)"
  by (auto simp: mine_def)

lemma notifications_page:
  assumes "fst (notifications_List u limit w) = Inr vs"
  shows "length vs \<le> (if limit \<le> 0 \<or> limit > 200 then 50 else nat limit) \<and>
    (\<forall>v\<in>set vs. mine u (tables w) (nv_WatchID v)) \<and>
    sorted_wrt (\<lambda>a b. nv_SentAt a \<ge> nv_SentAt b) vs"
proof -
  let ?l = "if limit \<le> 0 \<or> limit > 200 then 50 else limit"
  let ?ns = "[n. n \<leftarrow> notifications (tables w), x \<leftarrow> watches (tables w), w_ID x = n_WatchID n \<and> w_UserID x = u]"
  let ?rows = "take (nat ?l) (sort_key (\<lambda>n. - ts_Time (n_SentAt n)) ?ns)"
  obtain rows w1 where e: "exec (ListNotificationsForUser u ?l) w = (Inr rows, w1)"
    and vs: "vs = map notification_view rows"
    using assms by (auto simp: notifications_List_def Let_def orRet_def orElse_run split: prod.splits sum.splits)
  have rows: "rows = ?rows"
    using exec_Inr [OF e] by (auto simp: ListNotificationsForUser_def split: if_splits)
  have "mine u (tables w) (n_WatchID n)" if "n \<in> set rows" for n
    using in_set_takeD [OF that [unfolded rows]] by (auto simp: mine_iff)
  moreover have "sorted (map (\<lambda>n. - ts_Time (n_SentAt n)) rows)"
    unfolding rows by (simp flip: take_map add: sorted_wrt_take)
  moreover have "length rows \<le> nat ?l" unfolding rows by simp
  ultimately show ?thesis
    by (auto simp: vs notification_view_def sorted_wrt_map sorted_map)
qed

section \<open>Properties\<close>

text \<open>(C9) Once a user's opt-out is acknowledged, no poll that runs after it, however the polls and the
  other statements interleave, hands the notifier an alert of that user's, until the user
  resubscribes: every alert is for a watch that somebody else owned when it was read.\<close>
theorem opt_out_stops_alerts:
  assumes "Unsubscribe secret token w = (Inr (), w0)" and "ParseUnsubscribeToken secret token = Inr u"
    and "u \<in> u_ID ` set (users (tables w))" and "reachable_db (tables w)"
    and "pool_reach (main_deps b k nr ds de (email_sender mj nr' key from_addr)) (silent_for u) w0 s"
    and "a \<in> set (po_alerts s)"
  shows "\<exists>v\<in>set (po_past s). \<exists>x\<in>set (watches (tables v)). \<exists>own\<in>set (users (tables v)).
    w_ID x = al_WatchID a \<and> w_UserID x = u_ID own \<and> u_Email own = al_ToEmail a \<and> u_ID own \<noteq> u"
proof -
  have "opted_out u (tables w0)"
    using Unsubscribe_opts_out [OF assms(1) reachable_db_ok [OF assms(4)] assms(2,3)] .
  then have past: "\<forall>v\<in>set (po_past s). opted_out u (tables v)" using pool_opted_out [OF assms(5)] by blast
  obtain row v i rows where row: "may_mail row a" "v \<in> set (po_past s)" "row \<in> set rows"
    "fst (exec (ListActiveWatchesForEvent i) v) = Inr rows"
    using alert_was_read [OF assms(5,6)] by (metis Deps.select_convs(7) main_deps_def world_deps_def)
  obtain t where "ListActiveWatchesForEvent i t (tables v) =
      (Inr rows, tables (snd (exec (ListActiveWatchesForEvent i) v)))"
    using row(4) by (rule exec_acked)
  then obtain x own where x: "x \<in> set (watches (tables v))" "own \<in> set (users (tables v))"
    "row = active_row x own" "u_ID own = w_UserID x"
    using row(3) by (auto simp: ListActiveWatchesForEvent_def)
  moreover have "\<not> ts_Valid (u_UnsubscribedAt own)" using row(1) x(3) by (simp add: may_mail_def active_row_def)
  ultimately have "u_ID own \<noteq> u" using past row(2) by (auto simp: opted_out_def)
  then show ?thesis using x row(1,2) by (force simp: may_mail_def active_row_def)
qed

text \<open>A second user, verified and watching the same event; the first opts out, then the event is polled.\<close>

definition ex_db2 :: database where
  "ex_db2 = snd (CreateWatch 2 1 ''becomes_available'' 300 False 0 (snd (MarkEmailVerified 2 0
     (snd (CreateUser ''b@c'' ''h'' 0 ex_db)))))"

definition ex_opt_out :: world where
  "ex_opt_out = ex_world\<lparr>tables := snd (SetUnsubscribed 1 1000 ex_db2)\<rparr>"

definition ex_opt_out_pool :: "world pool" where
  "ex_opt_out_pool = fold (pool_do (ex_deps ''cancelled'')) (Job True None 1 # replicate 12 (Call 0)) (pool_init ex_opt_out)"

lemma ex_opt_out_alerts: "map alert_pair (po_alerts ex_opt_out_pool) = [(2, ''cancelled'')]"
  by code_simp

theorem opt_out_stops_alerts_witness:
  "\<exists>a\<in>set (po_alerts ex_opt_out_pool). \<exists>v\<in>set (po_past ex_opt_out_pool). \<exists>x\<in>set (watches (tables v)).
     w_ID x = al_WatchID a \<and> w_UserID x \<noteq> 1"
proof -
  let ?w = "ex_world\<lparr>tables := ex_db2\<rparr>"
  have p: "ParseUnsubscribeToken ''s'' (NewUnsubscribeToken ''s'' 1) = Inr 1"
    by (rule NewUnsubscribeToken_parses) (simp_all add: min_int64_def max_int64_def)
  have u: "Unsubscribe ''s'' (NewUnsubscribeToken ''s'' 1) ?w = (Inr (), ex_opt_out)"
    by (simp add: Unsubscribe_def p ex_opt_out_def) (simp add: ex_world_def SetUnsubscribed_def)
  have r: "reachable_db (tables ?w)"
    unfolding ex_db2_def by (simp, rule reachable_db.step [OF reachable_db.step [OF reachable_db.step
        [OF ex_db_reachable db_step.intros(12)] db_step.intros(14)] db_step.intros(3)])
  have i: "1 \<in> u_ID ` set (users (tables ?w))" by (simp add: ex_db2_def) code_simp
  have reach: "pool_reach (ex_deps ''cancelled'') (silent_for 1) ex_opt_out ex_opt_out_pool"
    unfolding ex_opt_out_pool_def pool_init_def by (intro pool_run_reach pool_reach.init)
  obtain a where a: "a \<in> set (po_alerts ex_opt_out_pool)"
    using ex_opt_out_alerts by (cases "po_alerts ex_opt_out_pool") auto
  show ?thesis
    using opt_out_stops_alerts [OF u p i r reach [unfolded ex_deps_def] a] a by metis
qed

text \<open>(C24) An account that was deleted leaves no row of the user behind: no user, watch, claimed
  milestone, notification or link. The events and their snapshots stay, and the data of every
  other user is untouched.\<close>
theorem deletion_erases_user:
  assumes "account_Delete u w = (Inr (), w')" and "reachable_db (tables w)"
  shows "dossier_of u (tables w') =
      \<lparr>do_users = [], do_watches = [], do_alerts = [], do_notifications = [], do_tokens = []\<rparr> \<and>
    events (tables w') = events (tables w) \<and>
    availability_snapshots (tables w') = availability_snapshots (tables w) \<and>
    (\<forall>v. v \<noteq> u \<longrightarrow> dossier_of v (tables w') = dossier_of v (tables w))"
  using account_Delete_erases [OF assms(1) reachable_db_ok [OF assms(2)]] .

theorem deletion_erases_user_witness:
  "do_watches (dossier_of 1 (tables (snd (account_Delete 1 ex_world)))) = [] \<and>
   do_watches (dossier_of 1 (tables ex_world)) = [ex_watch]"
proof
  have "fst (account_Delete 1 ex_world) = Inr ()"
    by (simp add: account_Delete_def orRet_def orElse_run ex_world_def ex_db_defs DeleteUser_def Let_def)
  then have "account_Delete 1 ex_world = (Inr (), snd (account_Delete 1 ex_world))" by (simp add: prod_eq_iff)
  moreover have "reachable_db (tables ex_world)" using ex_db_reachable by (simp add: ex_world_def)
  ultimately show "do_watches (dossier_of 1 (tables (snd (account_Delete 1 ex_world)))) = []"
    using deletion_erases_user by fastforce
qed (simp add: dossier_of_def ex_world_def ex_db_def ex_watch_def)

text \<open>A page of the log holds at most 200 entries, 50 where the limit asked for is out of range,
  newest first, and only entries of the caller's watches.\<close>
lemma notifications_are_own:
  assumes "fst (notifications_List u limit w) = Inr vs"
  shows "length vs \<le> 200 \<and> (limit \<le> 0 \<or> limit > 200 \<longrightarrow> length vs \<le> 50) \<and>
    (\<forall>v\<in>set vs. mine u (tables w) (nv_WatchID v)) \<and>
    sorted_wrt (\<lambda>a b. nv_SentAt a \<ge> nv_SentAt b) vs"
  using notifications_page [OF assms] by (auto split: if_splits)

end
