(* ===== verification/Pages.thy ===== *)
theory Pages
  imports GoStd
begin

text \<open>
  \<open>internal/httpapi/pages.go\<close>: the two pages served outside the single-page app, byte for byte.
\<close>

definition page_lines :: "string list \<Rightarrow> string" where
  "page_lines ls = (case ls of [] \<Rightarrow> [] | l # rest \<Rightarrow> l @ concat (map (\<lambda>x. [CHR 0x0A] @ x) rest))"

definition unsubscribedPage :: string where
  "unsubscribedPage = page_lines [
     ''<!doctype html>'',
     ''<html lang='' @ [CHR 0x22] @ ''en'' @ [CHR 0x22] @ ''><head><meta charset='' @ [CHR 0x22] @
      ''utf-8'' @ [CHR 0x22] @ ''>'',
     ''<meta name='' @ [CHR 0x22] @ ''viewport'' @ [CHR 0x22] @ '' content='' @ [CHR 0x22] @
      ''width=device-width,initial-scale=1'' @ [CHR 0x22] @ ''>'',
     ''<title>Unsubscribed '' @ [CHR 0xE2, CHR 0x80, CHR 0x94] @ '' TicketWatcher</title>'',
     ''<style>'',
     ''  body{font:16px/1.5 system-ui,-apple-system,'' @ [CHR 0x22] @ ''Segoe UI'' @ [CHR 0x22] @
      '',sans-serif;background:#0f1115;color:#e6e8eb;'',
     ''       display:grid;place-items:center;min-height:100vh;margin:0;padding:20px}'',
     ''  .card{max-width:440px;background:#171a21;border:1px solid #262b36;border-radius:14px;padding:32px;text-align:center}'',
     ''  h1{font-size:1.25rem;margin:0 0 12px}'',
     ''  p{color:#9aa3ad;margin:0 0 8px}'',
     ''  a{color:#6ea8fe}'',
     ''</style></head>'',
     ''<body><div class='' @ [CHR 0x22] @ ''card'' @ [CHR 0x22] @ ''>'',
     ''  <h1>'' @ [CHR 0xF0, CHR 0x9F, CHR 0x8E, CHR 0x9F] @ [CHR 0xEF, CHR 0xB8, CHR 0x8F] @
      '' You'' @ [CHR 0x27] @ ''ve been unsubscribed</h1>'',
     ''  <p>You won'' @ [CHR 0x27] @ ''t receive any more ticket alerts from TicketWatcher.</p>'',
     ''  <p>Your watches are still saved '' @ [CHR 0xE2, CHR 0x80, CHR 0x94] @
      '' you can turn alerts back on any time from your dashboard.</p>'',
     ''  <p style='' @ [CHR 0x22] @ ''margin-top:20px'' @ [CHR 0x22] @ ''><a href='' @ [CHR 0x22] @
      ''/'' @ [CHR 0x22] @ ''>Back to TicketWatcher</a></p>'',
     ''</div></body></html>'']"

definition unsubscribeFailedPage :: string where
  "unsubscribeFailedPage = page_lines [
     ''<!doctype html>'',
     ''<html lang='' @ [CHR 0x22] @ ''en'' @ [CHR 0x22] @ ''><head><meta charset='' @ [CHR 0x22] @
      ''utf-8'' @ [CHR 0x22] @ ''>'',
     ''<meta name='' @ [CHR 0x22] @ ''viewport'' @ [CHR 0x22] @ '' content='' @ [CHR 0x22] @
      ''width=device-width,initial-scale=1'' @ [CHR 0x22] @ ''>'',
     ''<title>Unsubscribe failed '' @ [CHR 0xE2, CHR 0x80, CHR 0x94] @ '' TicketWatcher</title>'',
     ''<style>'',
     ''  body{font:16px/1.5 system-ui,-apple-system,'' @ [CHR 0x22] @ ''Segoe UI'' @ [CHR 0x22] @
      '',sans-serif;background:#0f1115;color:#e6e8eb;'',
     ''       display:grid;place-items:center;min-height:100vh;margin:0;padding:20px}'',
     ''  .card{max-width:440px;background:#171a21;border:1px solid #262b36;border-radius:14px;padding:32px;text-align:center}'',
     ''  h1{font-size:1.25rem;margin:0 0 12px}'',
     ''  p{color:#9aa3ad;margin:0 0 8px}'',
     ''  a{color:#6ea8fe}'',
     ''</style></head>'',
     ''<body><div class='' @ [CHR 0x22] @ ''card'' @ [CHR 0x22] @ ''>'',
     ''  <h1>That unsubscribe link didn'' @ [CHR 0x27] @ ''t work</h1>'',
     ''  <p>It may have been altered in transit or copied incompletely.</p>'',
     ''  <p>You can turn alerts off from your dashboard, or reply to the email and we'' @
      [CHR 0x27] @ ''ll handle it.</p>'',
     ''  <p style='' @ [CHR 0x22] @ ''margin-top:20px'' @ [CHR 0x22] @ ''><a href='' @ [CHR 0x22] @
      ''/'' @ [CHR 0x22] @ ''>Back to TicketWatcher</a></p>'',
     ''</div></body></html>'']"

end
