(* ===== verification/HttpApi.thy ===== *)
theory HttpApi
  imports Services Pages
begin

text \<open>
  \<open>internal/httpapi\<close>: the routes, the handlers and the two middlewares (\<open>router.go\<close>,
  \<open>ratelimit.go\<close>, and \<open>auth.Middleware\<close>), as a function from a request and the server's state to
  a response and the state after. Requests come parsed by \<open>net/http\<close>: method, path, query, headers
  under their canonical names, and body. Decoding JSON, serving embedded files, chi's matching of a pattern and its answers to requests that
  match no route are parameters; a JSON response is kept as the value it encodes.
\<close>

section \<open>Requests and responses\<close>

record request =
  ir_Method :: string
  ir_Path :: string
  ir_Query :: "(string \<times> string) list"
  ir_Header :: "(string \<times> string) list"
  ir_Body :: string
  ir_RemoteAddr :: string

text \<open>\<open>url.Values.Get\<close> and \<open>http.Header.Get\<close>: the first value, or the empty string.\<close>

definition Get :: "(string \<times> string) list \<Rightarrow> string \<Rightarrow> string" where
  "Get kvs k = (case map_of kvs k of None \<Rightarrow> [] | Some v \<Rightarrow> v)"

datatype body =
    NoBody
  | ErrorJson string \<comment> \<open>\<open>{"error": msg}\<close>\<close>
  | StatusJson string | TokenJson string
  | UserJson UserView
  | WatchJson WatchView | WatchesJson "WatchView list" | SnapshotsJson "SnapshotView list"
  | EventsJson "EventSnapshot list" | NotificationsJson "NotificationView list"
  | Html string | Raw string

record response =
  re_Status :: int
  re_Header :: "(string \<times> string) list"
  re_Body :: body

definition writeJSON :: "int \<Rightarrow> body \<Rightarrow> response" where
  "writeJSON status v =
     \<lparr>re_Status = status, re_Header = [(''Content-Type'', ''application/json'')], re_Body = v\<rparr>"

definition writeError :: "int \<Rightarrow> string \<Rightarrow> response" where
  "writeError status msg = writeJSON status (ErrorJson msg)"

definition WriteHeader :: "int \<Rightarrow> response" where
  "WriteHeader status = \<lparr>re_Status = status, re_Header = [], re_Body = NoBody\<rparr>"

text \<open>\<open>http.Redirect\<close> of a GET, with 303.\<close>

definition Redirect_SeeOther :: "string \<Rightarrow> response" where
  "Redirect_SeeOther dest =
     \<lparr>re_Status = 303, re_Header = [(''Content-Type'', ''text/html; charset=utf-8''), (''Location'', dest)],
      re_Body = Html (''<a href='' @ [CHR 0x22] @ EscapeString dest @ [CHR 0x22] @ ''>See Other</a>.''
        @ [CHR 0x0A, CHR 0x0A])\<rparr>"

definition StatusOK :: int where "StatusOK = 200"
definition StatusCreated :: int where "StatusCreated = 201"
definition StatusNoContent :: int where "StatusNoContent = 204"
definition StatusBadRequest :: int where "StatusBadRequest = 400"
definition StatusUnauthorized :: int where "StatusUnauthorized = 401"
definition StatusForbidden :: int where "StatusForbidden = 403"
definition StatusNotFound :: int where "StatusNotFound = 404"
definition StatusConflict :: int where "StatusConflict = 409"
definition StatusTooManyRequests :: int where "StatusTooManyRequests = 429"
definition StatusInternalServerError :: int where "StatusInternalServerError = 500"
definition StatusBadGateway :: int where "StatusBadGateway = 502"

lemmas status_codes = StatusOK_def StatusCreated_def StatusNoContent_def
  StatusBadRequest_def StatusUnauthorized_def StatusForbidden_def StatusNotFound_def StatusConflict_def
  StatusTooManyRequests_def StatusInternalServerError_def StatusBadGateway_def

text \<open>\<open>err.Error()\<close>, with the texts of the package-level errors. The text of a \<open>PgError\<close> never
  reaches a client; here it is its code.\<close>

fun sentinel_text :: "sentinel \<Rightarrow> string" where
  "sentinel_text ErrNoRows = ''no rows in result set''"
| "sentinel_text ErrDailyBudgetExhausted = ''daily API budget exhausted for this class''"
| "sentinel_text ErrInvalidUnsubscribeToken = ''invalid unsubscribe token''"
| "sentinel_text ErrEmptyQuery = ''search query must not be empty''"
| "sentinel_text ErrInvalidCondition =
     ''condition_type must be '' @ [CHR 0x27] @ ''becomes_available'' @ [CHR 0x27]"
| "sentinel_text ErrMissingEventID = ''tm_event_id is required''"
| "sentinel_text ErrWatchNotFound = ''watch not found''"
| "sentinel_text ErrInvalidStatus = ''status must be '' @ [CHR 0x27] @ ''active'' @ [CHR 0x27] @ '' or ''
     @ [CHR 0x27] @ ''paused'' @ [CHR 0x27]"
| "sentinel_text ErrWatchLimitReached = ''watch limit reached''"
| "sentinel_text ErrEmailTaken = ''email already registered''"
| "sentinel_text ErrInvalidCredentials = ''invalid email or password''"
| "sentinel_text ErrWeakPassword = ''password must be at least 8 characters''"
| "sentinel_text ErrInvalidEmail = ''a valid email is required''"
| "sentinel_text ErrInvalidToken = ''this link is invalid or has expired''"
| "sentinel_text ErrAlreadyVerified = ''email is already verified''"
| "sentinel_text ErrNoAccount = ''this account no longer exists''"
| "sentinel_text ErrAccountNotFound = ''account not found''"

fun Error :: "gerr \<Rightarrow> string" where
  "Error (Sentinel s) = sentinel_text s"
| "Error (PgError c) = c"
| "Error (Opaque t) = t"
| "Error (Wrap t e) = t @ Error e"
| "Error (Annotate e t) = Error e @ t"

section \<open>The server\<close>

record authRequest =
  aq_Email :: string
  aq_Password :: string

record forgotRequest =
  fq_Email :: string

record resetRequest =
  rr_Token :: string
  rr_Password :: string

record createWatchRequest =
  cq_TMEventID :: string
  cq_ConditionType :: string
  cq_PollIntervalS :: int

record updateWatchRequest =
  uq_Status :: "string option"

text \<open>\<open>json.NewDecoder(r.Body).Decode(&req)\<close> for each of the request types.\<close>

record json_lib =
  js_auth :: "string \<Rightarrow> authRequest result"
  js_forgot :: "string \<Rightarrow> forgotRequest result"
  js_reset :: "string \<Rightarrow> resetRequest result"
  js_createWatch :: "string \<Rightarrow> createWatchRequest result"
  js_updateWatch :: "string \<Rightarrow> updateWatchRequest result"

record static_fs =
  fs_Open :: "string \<Rightarrow> bool"
  fs_index :: "string option"
  fs_ServeHTTP :: "request \<Rightarrow> response"

text \<open>What \<open>NewRouter\<close> is given; \<open>ap_limited\<close> says whether there is an inbound limiter.\<close>

record api =
  ap_auth :: auth_service
  ap_search :: "world Client"
  ap_watches :: watch_service
  ap_accountSecret :: string
  ap_jwtSecret :: string
  ap_limited :: bool
  ap_static :: "static_fs option"
  ap_json :: json_lib
  ap_Match :: "string \<Rightarrow> string \<Rightarrow> request \<Rightarrow> string option" \<comment> \<open>chi: does a method and pattern
    match a request, and what did \<open>{id}\<close> match\<close>
  ap_unrouted :: "request \<Rightarrow> response" \<comment> \<open>chi's own 404 and 405\<close>

record 'l server =
  se_world :: world
  se_limiter :: "'l ipLimiter"

definition on_world :: "(world, 'a) prog \<Rightarrow> ('l server, 'a) prog" where
  "on_world m s = (case m (se_world s) of (x, w) \<Rightarrow> (x, s\<lparr>se_world := w\<rparr>))"

section \<open>Handlers: accounts and sessions\<close>

definition healthHandler :: "(world, response) prog" where
  "healthHandler = ret (writeJSON StatusOK (StatusJson ''ok''))"

definition handleAuthError :: "gerr \<Rightarrow> response" where
  "handleAuthError err =
     (if errors_Is err ErrEmailTaken then writeError StatusConflict (Error err)
      else if errors_Is err ErrInvalidCredentials then writeError StatusUnauthorized (Error err)
      else if errors_Is err ErrWeakPassword \<or> errors_Is err ErrInvalidEmail \<or>
              errors_Is err ErrInvalidToken \<or> errors_Is err ErrAlreadyVerified
      then writeError StatusBadRequest (Error err)
      else writeError StatusInternalServerError ''internal error'')"

definition decoded :: "'a result \<Rightarrow> ('a \<Rightarrow> ('w, response) prog) \<Rightarrow> ('w, response) prog" where
  "decoded r k = (case r of Inl _ \<Rightarrow> ret (writeError StatusBadRequest ''invalid JSON body'') | Inr req \<Rightarrow> k req)"

definition registerHandler :: "api \<Rightarrow> request \<Rightarrow> (world, response) prog" where
  "registerHandler a r = decoded (js_auth (ap_json a) (ir_Body r)) (\<lambda>req.
     orElse (Register (ap_auth a) (aq_Email req) (aq_Password req))
       (\<lambda>err. ret (handleAuthError err))
       (\<lambda>token. ret (writeJSON StatusCreated (TokenJson token))))"

definition loginHandler :: "api \<Rightarrow> request \<Rightarrow> (world, response) prog" where
  "loginHandler a r = decoded (js_auth (ap_json a) (ir_Body r)) (\<lambda>req.
     orElse (Login (ap_auth a) (aq_Email req) (aq_Password req))
       (\<lambda>err. ret (handleAuthError err))
       (\<lambda>token. ret (writeJSON StatusOK (TokenJson token))))"

definition meHandler :: "api \<Rightarrow> int \<Rightarrow> (world, response) prog" where
  "meHandler a userID =
     orElse (Me (ap_auth a) userID)
       (\<lambda>err. ret (if errors_Is err ErrNoAccount then writeError StatusUnauthorized (Error err)
                   else writeError StatusInternalServerError ''internal error''))
       (\<lambda>me. ret (writeJSON StatusOK (UserJson me)))"

definition verifyEmailHandler :: "api \<Rightarrow> request \<Rightarrow> (world, response) prog" where
  "verifyEmailHandler a r =
     orElse (VerifyEmail (ap_auth a) (Get (ir_Query r) ''token''))
       (\<lambda>err. ret (Redirect_SeeOther ''/?verify_error=1''))
       (\<lambda>_. ret (Redirect_SeeOther ''/?verified=1''))"

definition resendVerificationHandler :: "api \<Rightarrow> int \<Rightarrow> (world, response) prog" where
  "resendVerificationHandler a userID =
     orElse (ResendVerification (ap_auth a) userID)
       (\<lambda>err. ret (handleAuthError err))
       (\<lambda>_. ret (WriteHeader StatusNoContent))"

definition forgotPasswordHandler :: "api \<Rightarrow> request \<Rightarrow> (world, response) prog" where
  "forgotPasswordHandler a r = decoded (js_forgot (ap_json a) (ir_Body r)) (\<lambda>req.
     orElse (RequestPasswordReset (ap_auth a) (fq_Email req))
       (\<lambda>err. ret (WriteHeader StatusNoContent))
       (\<lambda>_. ret (WriteHeader StatusNoContent)))"

definition resetPasswordHandler :: "api \<Rightarrow> request \<Rightarrow> (world, response) prog" where
  "resetPasswordHandler a r = decoded (js_reset (ap_json a) (ir_Body r)) (\<lambda>req.
     orElse (ResetPassword (ap_auth a) (rr_Token req) (rr_Password req))
       (\<lambda>err. ret (handleAuthError err))
       (\<lambda>_. ret (WriteHeader StatusNoContent)))"

definition unsubscribeHandler :: "api \<Rightarrow> bool \<Rightarrow> request \<Rightarrow> (world, response) prog" where
  "unsubscribeHandler a oneClick r =
     letM (Unsubscribe (ap_accountSecret a) (Get (ir_Query r) ''token'')) (\<lambda>res. ret (
       let failed = (case res of Inl _ \<Rightarrow> True | Inr _ \<Rightarrow> False)
       in if oneClick
          then if failed then writeError StatusBadRequest ''invalid unsubscribe link''
               else WriteHeader StatusOK
          else let (status, page) = (if failed then (StatusBadRequest, unsubscribeFailedPage)
                                     else (StatusOK, unsubscribedPage))
               in \<lparr>re_Status = status, re_Header = [(''Content-Type'', ''text/html; charset=utf-8'')],
                   re_Body = Html page\<rparr>))"

definition resubscribeHandler :: "api \<Rightarrow> int \<Rightarrow> (world, response) prog" where
  "resubscribeHandler a userID =
     orElse (Resubscribe userID)
       (\<lambda>err. ret (writeError StatusInternalServerError ''could not re-enable alerts''))
       (\<lambda>_. ret (WriteHeader StatusNoContent))"

definition deleteAccountHandler :: "api \<Rightarrow> int \<Rightarrow> (world, response) prog" where
  "deleteAccountHandler a userID =
     orElse (account_Delete userID)
       (\<lambda>err. ret (if errors_Is err ErrAccountNotFound then writeError StatusNotFound ''account not found''
                   else writeError StatusInternalServerError ''could not delete account''))
       (\<lambda>_. ret (WriteHeader StatusNoContent))"

section \<open>Handlers: search, watches, notifications\<close>

definition searchHandler :: "api \<Rightarrow> request \<Rightarrow> (world, response) prog" where
  "searchHandler a r =
     (let upcoming = (Get (ir_Query r) ''upcoming'' = ''1'')
      in orElse (service_Search (ap_search a) (Get (ir_Query r) ''q'') upcoming)
        (\<lambda>err. ret (if errors_Is err ErrEmptyQuery
                    then writeError StatusBadRequest
                      (''query parameter '' @ [CHR 0x27] @ ''q'' @ [CHR 0x27] @ '' is required'')
                    else writeError StatusBadGateway ''upstream search failed''))
        (\<lambda>results. ret (writeJSON StatusOK (EventsJson results))))"

definition createWatchHandler :: "api \<Rightarrow> int \<Rightarrow> request \<Rightarrow> (world, response) prog" where
  "createWatchHandler a userID r = decoded (js_createWatch (ap_json a) (ir_Body r)) (\<lambda>req.
     orElse (Create (ap_watches a) userID
               \<lparr>cw_TMEventID = cq_TMEventID req, cw_ConditionType = cq_ConditionType req,
                cw_PollIntervalS = cq_PollIntervalS req\<rparr>)
       (\<lambda>err. ret (if errors_Is err ErrInvalidCondition \<or> errors_Is err ErrMissingEventID
                   then writeError StatusBadRequest (Error err)
                   else if errors_Is err ErrWatchLimitReached
                   then writeError StatusForbidden (Error err)
                   else writeError StatusBadGateway ''could not create watch (event lookup failed?)''))
       (\<lambda>view. ret (writeJSON StatusCreated (WatchJson view))))"

definition listWatchesHandler :: "api \<Rightarrow> int \<Rightarrow> (world, response) prog" where
  "listWatchesHandler a userID =
     orElse (watches_List userID)
       (\<lambda>err. ret (writeError StatusInternalServerError ''could not list watches''))
       (\<lambda>views. ret (writeJSON StatusOK (WatchesJson views)))"

definition handleWatchError :: "gerr \<Rightarrow> response" where
  "handleWatchError err =
     (if errors_Is err ErrWatchNotFound then writeError StatusNotFound ''watch not found''
      else writeError StatusInternalServerError ''internal error'')"

text \<open>\<open>watchIDParam\<close>: the route's \<open>{id}\<close>.\<close>

definition withWatchID :: "string \<Rightarrow> (int \<Rightarrow> ('w, response) prog) \<Rightarrow> ('w, response) prog" where
  "withWatchID param k =
     (case ParseInt param of
        None \<Rightarrow> ret (writeError StatusBadRequest ''invalid watch id'')
      | Some ident \<Rightarrow> k ident)"

definition watchHistoryHandler :: "api \<Rightarrow> int \<Rightarrow> string \<Rightarrow> (world, response) prog" where
  "watchHistoryHandler a userID param = withWatchID param (\<lambda>ident.
     orElse (History userID ident)
       (\<lambda>err. ret (handleWatchError err))
       (\<lambda>hist. ret (writeJSON StatusOK (SnapshotsJson hist))))"

definition updateWatchHandler :: "api \<Rightarrow> int \<Rightarrow> string \<Rightarrow> request \<Rightarrow> (world, response) prog" where
  "updateWatchHandler a userID param r = withWatchID param (\<lambda>ident.
     decoded (js_updateWatch (ap_json a) (ir_Body r)) (\<lambda>req.
     orElse (watches_Update userID ident \<lparr>uw_Status = uq_Status req\<rparr>)
       (\<lambda>err. ret (if errors_Is err ErrInvalidStatus then writeError StatusBadRequest (Error err)
                   else handleWatchError err))
       (\<lambda>view. ret (writeJSON StatusOK (WatchJson view)))))"

definition deleteWatchHandler :: "api \<Rightarrow> int \<Rightarrow> string \<Rightarrow> (world, response) prog" where
  "deleteWatchHandler a userID param = withWatchID param (\<lambda>ident.
     orElse (watches_Delete userID ident)
       (\<lambda>err. ret (handleWatchError err))
       (\<lambda>_. ret (WriteHeader StatusNoContent)))"

definition listNotificationsHandler :: "api \<Rightarrow> int \<Rightarrow> request \<Rightarrow> (world, response) prog" where
  "listNotificationsHandler a userID r =
     (let l = Get (ir_Query r) ''limit'';
          limit = (if l \<noteq> [] then case Atoi l of Some n \<Rightarrow> n | None \<Rightarrow> 50 else 50)
      in orElse (notifications_List userID (to_int32 limit))
        (\<lambda>err. ret (writeError StatusInternalServerError ''could not list notifications''))
        (\<lambda>views. ret (writeJSON StatusOK (NotificationsJson views))))"

section \<open>Middleware\<close>

text \<open>\<open>net.SplitHostPort\<close>: the host, or None for its error.\<close>

definition last_index :: "char \<Rightarrow> string \<Rightarrow> nat option" where
  "last_index c s = (if c \<in> set s then Some (length s - 1 - length (takeWhile (\<lambda>x. x \<noteq> c) (rev s))) else None)"

definition SplitHostPort :: "string \<Rightarrow> string option" where
  "SplitHostPort hostport =
     (case last_index (CHR '':'') hostport of
        None \<Rightarrow> None
      | Some i \<Rightarrow>
          if hd hostport = CHR ''[''
          then if CHR '']'' \<notin> set hostport then None
               else let close = length (takeWhile (\<lambda>x. x \<noteq> CHR '']'') hostport);
                        host = take (close - 1) (drop 1 hostport)
                    in if close + 1 \<noteq> i then None
                       else if CHR ''['' \<in> set (drop 1 hostport) \<or> CHR '']'' \<in> set (drop (close + 1) hostport)
                       then None else Some host
          else let host = take i hostport
               in if CHR '':'' \<in> set host then None
                  else if CHR ''['' \<in> set hostport \<or> CHR '']'' \<in> set hostport then None
                  else Some host)"

definition clientIP :: "request \<Rightarrow> string" where
  "clientIP r =
     (let ip = TrimSpace (Get (ir_Header r) ''Fly-Client-Ip'');
          xff = Get (ir_Header r) ''X-Forwarded-For''
      in if ip \<noteq> [] then ip
         else if xff \<noteq> []
         then case Cut xff (CHR '','') of
                (first, _, ok) \<Rightarrow> if ok then TrimSpace first else TrimSpace xff
         else case SplitHostPort (ir_RemoteAddr r) of
                None \<Rightarrow> ir_RemoteAddr r
              | Some host \<Rightarrow> host)"

text \<open>\<open>math.Ceil(d.Seconds())\<close>, exact.\<close>

definition ceil_seconds :: "duration \<Rightarrow> int" where
  "ceil_seconds d = - ((- d) div Second)"

definition too_many_text :: string where
  "too_many_text = ''too many requests '' @ [CHR 0xE2, CHR 0x80, CHR 0x94]
     @ '' please slow down and try again shortly''"

definition rateLimit ::
  "('l, 'r) rate_lib \<Rightarrow> (request \<Rightarrow> ('l server, response) prog) \<Rightarrow> request \<Rightarrow> ('l server, response) prog" where
  "rateLimit lib handler r s =
     (case Allow lib (clientIP r) (clock (se_world s)) (se_limiter s) of
        ((ok, retryAfter), l) \<Rightarrow>
          let s = s\<lparr>se_limiter := l\<rparr>
          in if \<not> ok
             then let secs = ceil_seconds retryAfter;
                      secs = (if secs < 1 then 1 else secs);
                      res = writeError StatusTooManyRequests too_many_text
                  in (res\<lparr>re_Header := (''Retry-After'', FormatInt secs) # re_Header res\<rparr>, s)
             else handler r s)"

definition unauthorized :: "string \<Rightarrow> response" where
  "unauthorized msg =
     \<lparr>re_Status = StatusUnauthorized, re_Header = [(''Content-Type'', ''application/json'')],
      re_Body = Raw (''{'' @ [CHR 0x22] @ ''error'' @ [CHR 0x22] @ '':'' @ [CHR 0x22] @ msg
                     @ [CHR 0x22] @ ''}'')\<rparr>"

definition Middleware :: "api \<Rightarrow> (int \<Rightarrow> (world, response) prog) \<Rightarrow> request \<Rightarrow> (world, response) prog" where
  "Middleware a handler r =
     (let h = Get (ir_Header r) ''Authorization''
      in if \<not> HasPrefix h ''Bearer '' then ret (unauthorized ''missing bearer token'')
         else orElse (ParseToken (as_lib (ap_auth a)) (ap_jwtSecret a) (TrimPrefix h ''Bearer ''))
                (\<lambda>err. ret (unauthorized ''invalid or expired token''))
                (\<lambda>uid. handler uid))"

section \<open>Routes\<close>

datatype public_route = PRegister | PLogin | PForgot | PReset | PVerify
datatype open_route = OUnsubscribeGet | OUnsubscribePost
datatype user_route =
    UMe | UResend | USearch | UCreateWatch | UListWatches | UHistory string | UUpdateWatch string
  | UDeleteWatch string | UNotifications | UResubscribe | UDeleteAccount

datatype route = RHealth | RPublic public_route | ROpen open_route | RUser user_route

text \<open>The routes of \<open>NewRouter\<close>, under the path they are mounted at; a route is given what its
  \<open>{id}\<close> matched.\<close>

definition route_table :: "(string \<times> string \<times> (string \<Rightarrow> route)) list" where
  "route_table =
     [(''GET'', ''/healthz'', \<lambda>_. RHealth),
      (''POST'', ''/api/auth/register'', \<lambda>_. RPublic PRegister),
      (''POST'', ''/api/auth/login'', \<lambda>_. RPublic PLogin),
      (''POST'', ''/api/auth/forgot'', \<lambda>_. RPublic PForgot),
      (''POST'', ''/api/auth/reset'', \<lambda>_. RPublic PReset),
      (''GET'', ''/api/auth/verify'', \<lambda>_. RPublic PVerify),
      (''GET'', ''/api/unsubscribe'', \<lambda>_. ROpen OUnsubscribeGet),
      (''POST'', ''/api/unsubscribe'', \<lambda>_. ROpen OUnsubscribePost),
      (''GET'', ''/api/me'', \<lambda>_. RUser UMe),
      (''POST'', ''/api/auth/verify/resend'', \<lambda>_. RUser UResend),
      (''GET'', ''/api/search'', \<lambda>_. RUser USearch),
      (''POST'', ''/api/watches'', \<lambda>_. RUser UCreateWatch),
      (''GET'', ''/api/watches'', \<lambda>_. RUser UListWatches),
      (''GET'', ''/api/watches/{id}/history'', \<lambda>i. RUser (UHistory i)),
      (''PATCH'', ''/api/watches/{id}'', \<lambda>i. RUser (UUpdateWatch i)),
      (''DELETE'', ''/api/watches/{id}'', \<lambda>i. RUser (UDeleteWatch i)),
      (''GET'', ''/api/notifications'', \<lambda>_. RUser UNotifications),
      (''POST'', ''/api/account/resubscribe'', \<lambda>_. RUser UResubscribe),
      (''DELETE'', ''/api/account'', \<lambda>_. RUser UDeleteAccount)]"

fun find_route :: "(string \<Rightarrow> string \<Rightarrow> string option) \<Rightarrow> (string \<times> string \<times> (string \<Rightarrow> route)) list \<Rightarrow> route option" where
  "find_route mt [] = None"
| "find_route mt ((m, pat, rt) # rest) =
     (case mt m pat of Some i \<Rightarrow> Some (rt i) | None \<Rightarrow> find_route mt rest)"

definition route_of :: "api \<Rightarrow> request \<Rightarrow> route option" where
  "route_of a r = find_route (\<lambda>m pat. ap_Match a m pat r) route_table"

section \<open>Static files\<close>

text \<open>\<open>path.Clean\<close>.\<close>

fun split_path :: "string \<Rightarrow> string list" where
  "split_path [] = [[]]"
| "split_path (c # cs) =
     (if c = CHR ''/'' then [] # split_path cs
      else case split_path cs of [] \<Rightarrow> [[c]] | s # ss \<Rightarrow> (c # s) # ss)"

fun clean_segs :: "string list \<Rightarrow> string list \<Rightarrow> string list" where
  "clean_segs [] out = rev out"
| "clean_segs (s # ss) out =
     (if s = [] \<or> s = ''.'' then clean_segs ss out
      else if s = ''..''
      then case out of
             [] \<Rightarrow> clean_segs ss [''..'']
           | o1 # os \<Rightarrow> if o1 = ''..'' then clean_segs ss (''..'' # out) else clean_segs ss os
      else clean_segs ss (s # out))"

fun join_segs :: "string list \<Rightarrow> string" where
  "join_segs [] = ''.''"
| "join_segs [s] = s"
| "join_segs (s # ss) = s @ ''/'' @ join_segs ss"

definition rooted :: "string \<Rightarrow> bool" where
  "rooted p \<longleftrightarrow> HasPrefix p ''/''"

definition path_Clean :: "string \<Rightarrow> string" where
  "path_Clean p =
     (if rooted p
      then let ss = clean_segs (split_path p) []
           in ''/'' @ (case dropWhile (\<lambda>s. s = ''..'') ss of [] \<Rightarrow> [] | t # ts \<Rightarrow> join_segs (t # ts))
      else join_segs (clean_segs (split_path p) []))"

definition spaHandler :: "static_fs \<Rightarrow> request \<Rightarrow> (world, response) prog" where
  "spaHandler fsys r =
     (let name = path_Clean (TrimPrefix (ir_Path r) ''/'')
      in if name \<noteq> ''.'' \<and> fs_Open fsys name then ret (fs_ServeHTTP fsys r)
         else case fs_index fsys of
           None \<Rightarrow> ret \<lparr>re_Status = StatusNotFound,
                       re_Header = [(''Content-Type'', ''text/plain; charset=utf-8''),
                                    (''X-Content-Type-Options'', ''nosniff'')],
                       re_Body = Raw (''404 page not found'' @ [CHR 0x0A])\<rparr>
         | Some index \<Rightarrow> ret \<lparr>re_Status = StatusOK,
                             re_Header = [(''Content-Type'', ''text/html; charset=utf-8'')],
                             re_Body = Html index\<rparr>)"

section \<open>The router\<close>

fun public_handler :: "api \<Rightarrow> public_route \<Rightarrow> request \<Rightarrow> (world, response) prog" where
  "public_handler a PRegister r = registerHandler a r"
| "public_handler a PLogin r = loginHandler a r"
| "public_handler a PForgot r = forgotPasswordHandler a r"
| "public_handler a PReset r = resetPasswordHandler a r"
| "public_handler a PVerify r = verifyEmailHandler a r"

fun open_handler :: "api \<Rightarrow> open_route \<Rightarrow> request \<Rightarrow> (world, response) prog" where
  "open_handler a OUnsubscribeGet r = unsubscribeHandler a False r"
| "open_handler a OUnsubscribePost r = unsubscribeHandler a True r"

fun user_handler :: "api \<Rightarrow> user_route \<Rightarrow> request \<Rightarrow> int \<Rightarrow> (world, response) prog" where
  "user_handler a UMe r uid = meHandler a uid"
| "user_handler a UResend r uid = resendVerificationHandler a uid"
| "user_handler a USearch r uid = searchHandler a r"
| "user_handler a UCreateWatch r uid = createWatchHandler a uid r"
| "user_handler a UListWatches r uid = listWatchesHandler a uid"
| "user_handler a (UHistory p) r uid = watchHistoryHandler a uid p"
| "user_handler a (UUpdateWatch p) r uid = updateWatchHandler a uid p r"
| "user_handler a (UDeleteWatch p) r uid = deleteWatchHandler a uid p"
| "user_handler a UNotifications r uid = listNotificationsHandler a uid r"
| "user_handler a UResubscribe r uid = resubscribeHandler a uid"
| "user_handler a UDeleteAccount r uid = deleteAccountHandler a uid"

definition under_api :: "request \<Rightarrow> bool" where
  "under_api r \<longleftrightarrow> ir_Path r = ''/api'' \<or> HasPrefix (ir_Path r) ''/api/''"

definition serve :: "('l, 'r) rate_lib \<Rightarrow> api \<Rightarrow> request \<Rightarrow> ('l server, response) prog" where
  "serve lib a r =
     (case route_of a r of
        Some RHealth \<Rightarrow> on_world healthHandler
      | Some (RPublic p) \<Rightarrow>
          if ap_limited a then rateLimit lib (\<lambda>r. on_world (public_handler a p r)) r
          else on_world (public_handler a p r)
      | Some (ROpen p) \<Rightarrow> on_world (open_handler a p r)
      | Some (RUser u) \<Rightarrow> on_world (Middleware a (user_handler a u r) r)
      | None \<Rightarrow>
          if under_api r then ret (ap_unrouted a r)
          else case ap_static a of
                 None \<Rightarrow> ret (ap_unrouted a r)
               | Some fsys \<Rightarrow> on_world (spaHandler fsys r))"

end
