(* ===== verification/HttpProps.thy ===== *)
theory HttpProps
  imports HttpApi
begin

text \<open>
  What the HTTP interface gives: no session, no effect; a session acts on its own user only; a
  throttled request does nothing; the answer to a reset request depends on no row; every request
  is a sequence of the program's statements, so that the results on the tables and on the polls
  hold with requests in between.
\<close>

section \<open>The collaborators of the server\<close>

text \<open>Mail and Ticketmaster do not write to the database.\<close>

definition quiet_api :: "api \<Rightarrow> bool" where
  "quiet_api a \<longleftrightarrow> quiet_mail (ap_auth a) \<and> quiet_fetch (ap_watches a) \<and>
     (\<forall>kw up. steps still (Client_Search (ap_search a) kw up))"

text \<open>The user a request is authenticated as.\<close>

definition caller :: "api \<Rightarrow> request \<Rightarrow> world \<Rightarrow> int option" where
  "caller a r w =
     (let h = Get (ir_Header r) ''Authorization''
      in if \<not> HasPrefix h ''Bearer '' then None
         else case fst (ParseToken (as_lib (ap_auth a)) (ap_jwtSecret a) (TrimPrefix h ''Bearer '') w) of
                Inl _ \<Rightarrow> None | Inr uid \<Rightarrow> Some uid)"

lemma ParseToken_world [simp]: "snd (ParseToken lib secret tok w) = w"
  by (simp add: ParseToken_def letM_run)

lemma Middleware_caller:
  "Middleware a h r w = (case caller a r w of
     None \<Rightarrow> (unauthorized (if HasPrefix (Get (ir_Header r) ''Authorization'') ''Bearer ''
        then ''invalid or expired token'' else ''missing bearer token''), w)
   | Some uid \<Rightarrow> h uid w)"
  by (simp add: Middleware_def caller_def orElse_run Let_def split_beta split: sum.split)

lemma on_world_run:
  "fst (on_world m s) = fst (m (se_world s))" "se_world (snd (on_world m s)) = snd (m (se_world s))"
  "se_limiter (snd (on_world m s)) = se_limiter s"
  by (simp_all add: on_world_def split_beta)

section \<open>The programs of the server\<close>

context step_preorder begin

lemma steps_decoded: "(\<And>x. steps R (k x)) \<Longrightarrow> steps R (decoded d k)"
  unfolding decoded_def by (auto intro: steps_ret split: sum.split)

lemma steps_withWatchID: "(\<And>i. steps R (k i)) \<Longrightarrow> steps R (withWatchID p k)"
  unfolding withWatchID_def by (auto intro: steps_ret split: option.split)

lemmas steps_progs = steps_ret steps_letM steps_orElse steps_orRet steps_orWrap steps_andThen steps_if
  steps_decoded steps_withWatchID

end

text \<open>Every flow is made of statements and of what it is given to send mail and to fetch with.\<close>

context statement_programs begin

lemma auth_in:
  assumes send: "\<And>msg. steps R (auth_send s msg)"
  shows "steps R (Register s em pw)" "steps R (Login s em pw)" "steps R (Me s u)"
    "steps R (ResendVerification s u)" "steps R (VerifyEmail s raw)" "steps R (RequestPasswordReset s em)"
    "steps R (ResetPassword s raw pw)"
proof -
  have issue: "steps R (issueToken s u p ttl)" for u p ttl
    unfolding issueToken_def NewOpaqueToken_def Let_def split_beta
    by (intro steps_progs queries_in prims_in)
  have redeem: "steps R (redeemToken raw p)" for raw p
    unfolding redeemToken_def by (intro steps_progs queries_in)
  have verif: "steps R (sendVerification s u e)" for u e
    unfolding sendVerification_def Let_def by (intro steps_progs issue send)
  have tok: "steps R (NewToken lib secret u ttl)" for lib secret u ttl
    unfolding NewToken_def by (intro steps_progs prims_in)
  have pw: "steps R (HashPassword lib pw)" for lib pw
    unfolding HashPassword_def by (intro steps_progs prims_in)
  note all = queries_in issue redeem verif tok pw send
  show "steps R (Register s em pw)" unfolding Register_def Let_def by (intro steps_progs all)
  show "steps R (Login s em pw)" unfolding Login_def by (intro steps_progs all)
  show "steps R (Me s u)" unfolding Me_def by (intro steps_progs all)
  show "steps R (ResendVerification s u)" unfolding ResendVerification_def by (intro steps_progs all)
  show "steps R (VerifyEmail s raw)" unfolding VerifyEmail_def by (intro steps_progs all)
  show "steps R (RequestPasswordReset s em)"
    unfolding RequestPasswordReset_def Let_def by (intro steps_progs all)
  show "steps R (ResetPassword s raw pw)" unfolding ResetPassword_def by (intro steps_progs all)
qed

lemma view_in: "steps R (watchViewFromEvent w ev)" "steps R (row_views rows)"
proof -
  show v: "steps R (watchViewFromEvent w ev)" for w ev
    unfolding watchViewFromEvent_def Let_def by (intro steps_progs prims_in)
  show "steps R (row_views rows)"
  proof (induction rows)
    case Nil
    show ?case unfolding row_views.simps by (rule steps_ret)
  next
    case (Cons r rows)
    then show ?case
      unfolding row_views.simps watchViewFromRow_def split_beta by (intro steps_progs v)
  qed
qed

lemma services_in:
  assumes fetch: "\<And>tm. steps R (ws_GetEvent s tm)"
  shows "steps R (Create s u inp)" "steps R (watches_List u)" "steps R (History u i)"
    "steps R (watches_Update u i inp')" "steps R (watches_Delete u i)" "steps R (Resubscribe u)"
    "steps R (account_Delete u)" "steps R (notifications_List u n)" "steps R (Unsubscribe secret token)"
proof -
  note all = queries_in fetch view_in
  show "steps R (Create s u inp)"
    unfolding Create_def checkCap_def resolveEvent_def Let_def by (intro steps_progs all)
  show "steps R (watches_List u)" unfolding watches_List_def by (intro steps_progs all)
  show "steps R (History u i)" unfolding History_def by (intro steps_progs all)
  show "steps R (watches_Update u i inp')" unfolding watches_Update_def by (intro steps_progs all)
  show "steps R (watches_Delete u i)" unfolding watches_Delete_def by (intro steps_progs all)
  show "steps R (Resubscribe u)" unfolding Resubscribe_def by (intro all)
  show "steps R (account_Delete u)" unfolding account_Delete_def by (intro steps_progs all)
  show "steps R (notifications_List u n)" unfolding notifications_List_def Let_def by (intro steps_progs all)
  show "steps R (Unsubscribe secret token)"
    unfolding Unsubscribe_def by (auto intro!: queries_in steps_ret split: sum.split)
qed

lemma handlers_in:
  assumes send: "\<And>msg. steps R (auth_send (ap_auth a) msg)"
    and fetch: "\<And>tm. steps R (ws_GetEvent (ap_watches a) tm)"
    and search: "\<And>kw up. steps R (Client_Search (ap_search a) kw up)"
  shows "steps R (public_handler a p r)" and "steps R (open_handler a q r)"
    and "steps R (user_handler a u r uid)"
proof -
  have find: "steps R (service_Search (ap_search a) kw up)" for kw up
    unfolding service_Search_def by (intro steps_progs search)
  note all = auth_in [OF send] services_in [OF fetch] find
  show "steps R (public_handler a p r)"
    by (cases p; simp only: public_handler.simps registerHandler_def loginHandler_def
        forgotPasswordHandler_def resetPasswordHandler_def verifyEmailHandler_def;
        intro steps_progs all)
  show "steps R (open_handler a q r)"
    by (cases q; simp only: open_handler.simps unsubscribeHandler_def; intro steps_progs all)
  show "steps R (user_handler a u r uid)"
    by (cases u; simp only: user_handler.simps meHandler_def resendVerificationHandler_def
        searchHandler_def createWatchHandler_def listWatchesHandler_def watchHistoryHandler_def
        updateWatchHandler_def deleteWatchHandler_def listNotificationsHandler_def
        resubscribeHandler_def deleteAccountHandler_def Let_def;
        intro steps_progs all)
qed

lemma serve_in:
  assumes "\<And>msg. steps R (auth_send (ap_auth a) msg)" and "\<And>tm. steps R (ws_GetEvent (ap_watches a) tm)"
    and "\<And>kw up. steps R (Client_Search (ap_search a) kw up)"
  shows "R (se_world s) (se_world (snd (serve lib a r s)))"
proof (cases "route_of a r")
  case None
  then show ?thesis
    by (auto simp: serve_def on_world_run spaHandler_def Let_def step_refl split: option.split)
next
  case (Some rt)
  note run = handlers_in [OF assms, THEN stepsD, of "se_world s"]
  show ?thesis
  proof (cases rt)
    case RHealth
    then show ?thesis using Some by (simp add: serve_def on_world_run healthHandler_def step_refl)
  next
    case (RPublic p)
    show ?thesis
      using Some RPublic run(1) [of p r]
      by (auto simp: serve_def rateLimit_def on_world_run Let_def split_beta step_refl)
  next
    case (ROpen p)
    then show ?thesis using Some run(2) [of p r] by (simp add: serve_def on_world_run)
  next
    case (RUser u)
    then show ?thesis using Some run(3) [of u r]
      by (simp add: serve_def on_world_run Middleware_caller step_refl split: option.split)
  qed
qed

end

lemma stmts_still: "steps still m \<Longrightarrow> stmts m"
  by (rule stmts_tables) (rule sameD)

lemma serve_stmts:
  assumes "quiet_api a"
  shows "stmt_rel (se_world s) (se_world (snd (serve lib a r s)))"
  using assms unfolding quiet_api_def quiet_mail_def quiet_fetch_def
  by (intro stmts.serve_in) (auto intro: stmts_tables stmts_still)

section \<open>One user's requests and another user's data\<close>

lemma spares_ResendVerification:
  assumes "v \<noteq> u" and "quiet_mail s"
  shows "spares_rel u w (snd (ResendVerification s v w))"
proof -
  have read: "steps (spares_rel u) (exec q)" if "\<And>t d. snd (q t d) = d" for q :: "'a query"
    by (rule spares_exec) (simp add: that spares_def)
  have send: "steps (spares_rel u) (auth_send s msg)" for msg
    using assms(2) by (intro spares_tables) (simp add: quiet_mail_def)
  have other: "steps (spares_rel u) (rand_Read n)" "steps (spares_rel u) time_Now" for n
    by (rule spares_tables; simp)+
  have verif: "steps (spares_rel u) (sendVerification s v e)" for e
    unfolding sendVerification_def issueToken_def NewOpaqueToken_def Let_def split_beta
    by (intro steps_intros send other spares_exec spares_DeleteAuthTokens spares_CreateAuthToken assms(1))
  obtain r w1 where e: "exec (GetUserByID v) w = (r, w1)" by force
  have "steps (spares_rel u) (exec (GetUserByID v))" by (rule read) simp
  from stepsD [OF this, of w] have w1: "spares_rel u w w1" using e by simp
  show ?thesis
  proof (cases r)
    case (Inl err)
    then show ?thesis using e w1 by (simp add: ResendVerification_def orRet_def orElse_run)
  next
    case (Inr x)
    then have "u_ID x = v"
      using exec_Inr [of "GetUserByID v" w x w1] e
      by (auto simp: GetUserByID_def one_row_def filter_eq_Cons_iff split: list.splits)
    then have "ResendVerification s v w =
        (if ts_Valid (u_EmailVerifiedAt x) then (Inl (Sentinel ErrAlreadyVerified), w1)
         else sendVerification s v (u_Email x) w1)"
      using e Inr by (simp add: ResendVerification_def orRet_def orElse_run)
    then show ?thesis
      using w1 spares.step_trans [OF w1 stepsD [OF verif]] by simp
  qed
qed

lemma spares_handlers:
  assumes "quiet_api a" and "v \<noteq> u"
  shows "steps (spares_rel u) (user_handler a rt r v)"
proof -
  have quiet: "quiet_mail (ap_auth a)" "quiet_fetch (ap_watches a)"
    "\<And>kw up. steps still (Client_Search (ap_search a) kw up)"
    using assms(1) by (simp_all add: quiet_api_def)
  have read: "steps (spares_rel u) (exec q)" if "\<And>t d. snd (q t d) = d" for q :: "'a query"
    by (rule spares_exec) (simp add: that spares_def)
  have me: "steps (spares_rel u) (Me (ap_auth a) v)"
    unfolding Me_def by (intro steps_intros read read_only)
  have resend: "steps (spares_rel u) (ResendVerification (ap_auth a) v)"
    by (rule stepsI) (rule spares_ResendVerification [OF assms(2) quiet(1)])
  have search: "steps (spares_rel u) (service_Search (ap_search a) q up)" for q up
    unfolding service_Search_def by (intro steps_intros spares_tables sameD quiet(3))
  have log: "steps (spares_rel u) (notifications_List v n)" for n
    unfolding notifications_List_def Let_def by (intro steps_intros read read_only)
  have resub: "steps (spares_rel u) (Resubscribe v)"
    unfolding Resubscribe_def by (intro spares_exec spares_SetResubscribed assms(2))
  have del: "steps (spares_rel u) (account_Delete v)"
    unfolding account_Delete_def by (intro steps_intros spares_exec spares_DeleteUser assms(2))
  note all = spares_watches [OF assms(2) quiet(2)] me resend search log resub del
    spares.steps_decoded spares.steps_withWatchID
  show ?thesis
    by (cases rt; simp only: user_handler.simps meHandler_def resendVerificationHandler_def
        searchHandler_def createWatchHandler_def listWatchesHandler_def watchHistoryHandler_def
        updateWatchHandler_def deleteWatchHandler_def listNotificationsHandler_def
        resubscribeHandler_def deleteAccountHandler_def Let_def;
        intro steps_intros all)
qed

section \<open>Answers\<close>

text \<open>Every response of a handler: one of twelve statuses, an error body with an error status only,
  and no body with 204.\<close>

definition answers :: "response \<Rightarrow> bool" where
  "answers res \<longleftrightarrow>
     re_Status res \<in> {200, 201, 204, 303, 400, 401, 403, 404, 409, 429, 500, 502} \<and>
     ((\<exists>m. re_Body res = ErrorJson m) \<longrightarrow> 400 \<le> re_Status res) \<and>
     (re_Status res = 204 \<longrightarrow> re_Body res = NoBody)"

definition always :: "(response \<Rightarrow> bool) \<Rightarrow> ('w, response) prog \<Rightarrow> bool" where
  "always P m \<longleftrightarrow> (\<forall>w. P (fst (m w)))"

lemma always_ret: "P x \<Longrightarrow> always P (ret x)"
  by (simp add: always_def)

lemma always_orElse: "(\<And>e. always P (h e)) \<Longrightarrow> (\<And>x. always P (k x)) \<Longrightarrow> always P (orElse m h k)"
  by (auto simp: always_def orElse_run split_beta split: sum.split)

lemma always_letM: "(\<And>x. always P (k x)) \<Longrightarrow> always P (letM m k)"
  by (simp add: always_def letM_run)

lemma always_decoded:
  "P (writeError StatusBadRequest ''invalid JSON body'') \<Longrightarrow> (\<And>x. always P (k x)) \<Longrightarrow> always P (decoded d k)"
  by (auto simp: decoded_def always_def split: sum.split)

lemma always_withWatchID:
  "P (writeError StatusBadRequest ''invalid watch id'') \<Longrightarrow> (\<And>i. always P (k i)) \<Longrightarrow> always P (withWatchID p k)"
  by (auto simp: withWatchID_def always_def split: option.split)

lemmas always_intros = always_ret always_orElse always_letM always_decoded always_withWatchID

lemmas answer_defs = answers_def writeError_def writeJSON_def WriteHeader_def Redirect_SeeOther_def
  unauthorized_def status_codes handleAuthError_def handleWatchError_def

lemma handlers_answer:
  "always answers (public_handler a p r)" "always answers (open_handler a q r)"
  "always answers (user_handler a u r uid)" "always answers healthHandler"
proof -
  show "always answers (public_handler a p r)"
    by (cases p; simp only: public_handler.simps registerHandler_def loginHandler_def
        forgotPasswordHandler_def resetPasswordHandler_def verifyEmailHandler_def;
        intro always_intros; simp add: answer_defs)
  show "always answers (open_handler a q r)"
    by (cases q; simp only: open_handler.simps unsubscribeHandler_def;
        intro always_intros; simp add: answer_defs Let_def)
  show "always answers (user_handler a u r uid)"
    by (cases u; simp only: user_handler.simps meHandler_def resendVerificationHandler_def
        searchHandler_def createWatchHandler_def listWatchesHandler_def watchHistoryHandler_def
        updateWatchHandler_def deleteWatchHandler_def listNotificationsHandler_def
        resubscribeHandler_def deleteAccountHandler_def Let_def;
        intro always_intros; simp add: answer_defs)
  show "always answers healthHandler"
    unfolding healthHandler_def by (intro always_intros) (simp add: answer_defs)
qed

lemma serve_answers: "route_of a r \<noteq> None \<Longrightarrow> answers (fst (serve lib a r s))"
proof -
  assume "route_of a r \<noteq> None"
  then obtain rt where rt: "route_of a r = Some rt" by blast
  have run: "answers (fst (m w))" if "always answers m" for m :: "(world, response) prog" and w
    using that by (simp add: always_def)
  have no: "answers (unauthorized m)" for m by (simp add: answer_defs)
  show ?thesis
    using rt run [OF handlers_answer(1)] run [OF handlers_answer(2)] run [OF handlers_answer(3)]
      run [OF handlers_answer(4)] no
    by (cases rt) (auto simp: serve_def rateLimit_def on_world_run Let_def split_beta Middleware_caller
        answers_def writeError_def writeJSON_def status_codes split: option.split)
qed

section \<open>An example server\<close>

definition ex_json :: json_lib where
  "ex_json = \<lparr>js_auth = (\<lambda>s. Inr \<lparr>aq_Email = s, aq_Password = s\<rparr>), js_forgot = (\<lambda>s. Inr \<lparr>fq_Email = s\<rparr>),
     js_reset = (\<lambda>s. Inr \<lparr>rr_Token = s, rr_Password = s\<rparr>),
     js_createWatch = (\<lambda>s. Inr \<lparr>cq_TMEventID = s, cq_ConditionType = ''becomes_available'', cq_PollIntervalS = 0\<rparr>),
     js_updateWatch = (\<lambda>s. Inr \<lparr>uq_Status = Some s\<rparr>)\<rparr>"

text \<open>How chi matches: segment by segment, \<open>{id}\<close> matches one that is not empty.\<close>

fun segs_match :: "string list \<Rightarrow> string list \<Rightarrow> string \<Rightarrow> string option" where
  "segs_match [] [] i = Some i"
| "segs_match (p # ps) (s # ss) i =
     (if p = ''{id}'' then (if s = [] then None else segs_match ps ss s)
      else if p = s then segs_match ps ss i else None)"
| "segs_match _ _ i = None"

definition ex_match :: "string \<Rightarrow> string \<Rightarrow> request \<Rightarrow> string option" where
  "ex_match m pat r = (if ir_Method r = m then segs_match (split_path pat) (split_path (ir_Path r)) [] else None)"

definition ex_api :: api where
  "ex_api = \<lparr>ap_auth = ex_auth,
     ap_search = world_client ''https://tm'' ''k'' (\<lambda>_. Inr ()) (\<lambda>_. Inr []) (\<lambda>_. Inr (ex_tm ''onsale'')),
     ap_watches = ex_watches 2, ap_accountSecret = ''s'', ap_jwtSecret = ''s'', ap_limited = True,
     ap_static = None, ap_json = ex_json, ap_Match = ex_match,
     ap_unrouted = (\<lambda>_. WriteHeader 404)\<rparr>"

lemma ex_api_quiet: "quiet_api ex_api"
  by (simp add: quiet_api_def ex_api_def ex_watches_quiet still_client)
    (simp add: quiet_mail_def auth_send_def ex_auth_def)

definition ex_server :: "unit server" where
  "ex_server = \<lparr>se_world = ex_world, se_limiter = NewIPLimiter 10 5\<rparr>"

definition ex_request :: "string \<Rightarrow> string \<Rightarrow> string \<Rightarrow> request" where
  "ex_request m p token = \<lparr>ir_Method = m, ir_Path = p, ir_Query = [],
     ir_Header = [(''Authorization'', ''Bearer '' @ token)], ir_Body = [], ir_RemoteAddr = ''1.2.3.4:5''\<rparr>"

text \<open>A bucket that never has a token.\<close>

definition ex_dry_lib :: "(unit, unit) rate_lib" where
  "ex_dry_lib = ex_rate_lib\<lparr>rl_DelayFrom := (\<lambda>_ _. 1500000000)\<rparr>"

lemma ex_routes:
  "route_of ex_api (ex_request ''DELETE'' ''/api/account'' t) = Some (RUser UDeleteAccount)"
  "route_of ex_api (ex_request ''POST'' ''/api/auth/forgot'' t) = Some (RPublic PForgot)"
  "route_of ex_api (ex_request ''GET'' ''/api/watches'' t) = Some (RUser UListWatches)"
  by (simp_all add: route_of_def ex_request_def route_table_def ex_api_def ex_match_def)

lemma ex_caller:
  "caller ex_api (ex_request m p ''tok'') ex_world = Some 1"
  "caller ex_api (ex_request m p ''bad'') ex_world = None"
  by (simp_all add: caller_def ex_request_def Get_def ParseToken_def letM_run ex_api_def ex_auth_def
      ex_lib_def ex_unsign_def Cut_def ex_claims_def ex_world_def Hour_def TrimPrefix_def)

section \<open>Properties\<close>

text \<open>(C8) A request for a user's route without a session that is valid now gets 401 and has no effect
  whatsoever: no table, no clock, no limiter, no request to anyone changes.\<close>
theorem unauthenticated_has_no_effect:
  assumes "route_of a r = Some (RUser u)" and "caller a r (se_world s) = None"
  shows "\<exists>msg. serve lib a r s = (unauthorized msg, s) \<and> re_Status (unauthorized msg) = 401"
  using assms by (simp add: serve_def on_world_def Middleware_caller unauthorized_def StatusUnauthorized_def)

theorem unauthenticated_has_no_effect_witness:
  "snd (serve ex_rate_lib ex_api (ex_request ''DELETE'' ''/api/account'' ''bad'') ex_server) = ex_server"
proof -
  have "caller ex_api (ex_request ''DELETE'' ''/api/account'' ''bad'') (se_world ex_server) = None"
    by (simp add: ex_server_def ex_caller)
  from unauthenticated_has_no_effect [OF ex_routes(1) this, of ex_rate_lib] show ?thesis by auto
qed

text \<open>(C7) A request with the session of one user leaves the data of every other user as it is: row,
  watches, claimed milestones, notifications and links, whatever the route, the parameters, the
  connection and the network do.\<close>
theorem requests_spare_other_users:
  assumes "reachable_db (tables (se_world s))" and "quiet_api a"
    and "route_of a r = Some (RUser rt)" and "caller a r (se_world s) = Some v" and "v \<noteq> u"
  shows "dossier_of u (tables (se_world (snd (serve lib a r s)))) = dossier_of u (tables (se_world s))"
proof -
  have "spares_rel u (se_world s) (snd (user_handler a rt r v (se_world s)))"
    by (rule stepsD) (rule spares_handlers [OF assms(2,5)])
  then show ?thesis
    using assms(3,4) reachable_db_ok [OF assms(1)]
    by (simp add: serve_def on_world_run Middleware_caller spares_rel_def spares_def)
qed

theorem requests_spare_other_users_witness:
  "dossier_of 2 (tables (se_world (snd (serve ex_rate_lib ex_api
       (ex_request ''DELETE'' ''/api/account'' ''tok'') ex_server)))) = dossier_of 2 ex_db"
proof -
  have r: "reachable_db (tables (se_world ex_server))" "tables (se_world ex_server) = ex_db"
    using ex_db_reachable by (simp_all add: ex_server_def ex_world_def)
  have c: "caller ex_api (ex_request ''DELETE'' ''/api/account'' ''tok'') (se_world ex_server) = Some 1"
    by (simp add: ex_server_def ex_caller)
  show ?thesis
    using requests_spare_other_users [OF r(1) ex_api_quiet ex_routes(1) c, of 2 ex_rate_lib] r(2) by simp
qed

text \<open>Every request is a sequence of the program's statements: it keeps the tables reachable, and
  the pool's results hold with any requests between the calls of the polls.\<close>
lemma requests_are_statements:
  assumes "quiet_api a" and "reachable_db (tables (se_world s))"
  shows "stmt_rel (se_world s) (se_world (snd (serve lib a r s))) \<and>
    reachable_db (tables (se_world (snd (serve lib a r s))))"
proof -
  have steps: "db_step\<^sup>*\<^sup>* (tables (se_world s)) (tables (se_world (snd (serve lib a r s))))"
    using serve_stmts [OF assms(1)] by (simp add: stmt_rel_def)
  then have "reachable_db (tables (se_world (snd (serve lib a r s))))"
    using assms(2) by (induction rule: rtranclp_induct) (auto intro: reachable_db.step)
  then show ?thesis using steps by (simp add: stmt_rel_def)
qed

text \<open>(C36) A request that the inbound limiter turns away gets 429 with a wait of at least one second
  and does nothing but be noted by the limiter.\<close>
theorem throttled_does_nothing:
  assumes "route_of a r = Some (RPublic p)" and "ap_limited a"
    and "Allow lib (clientIP r) (clock (se_world s)) (se_limiter s) = ((False, d), l)"
  shows "\<exists>secs\<ge>1. serve lib a r s =
    (\<lparr>re_Status = 429, re_Header = [(''Retry-After'', FormatInt secs), (''Content-Type'', ''application/json'')],
      re_Body = ErrorJson too_many_text\<rparr>, s\<lparr>se_limiter := l\<rparr>) \<and> d \<le> secs * Second"
proof -
  define secs where "secs = (if ceil_seconds d < 1 then 1 else ceil_seconds d)"
  have "(- d) div Second * Second + (- d) mod Second = - d" "0 \<le> (- d) mod Second"
    by (simp_all only: div_mult_mod_eq) (simp add: Second_def)
  then have "d \<le> ceil_seconds d * Second" unfolding ceil_seconds_def by (simp only: mult_minus_left)
  then have "d \<le> secs * Second" by (auto simp: secs_def Second_def)
  moreover have "1 \<le> secs" by (simp add: secs_def)
  ultimately show ?thesis
    using assms by (intro exI [of _ secs]) (simp add: serve_def rateLimit_def Let_def writeError_def writeJSON_def StatusTooManyRequests_def secs_def)
qed

theorem throttled_does_nothing_witness:
  "re_Status (fst (serve ex_dry_lib ex_api (ex_request ''POST'' ''/api/auth/forgot'' []) ex_server)) = 429"
proof -
  have l: "ap_limited ex_api" by (simp add: ex_api_def)
  obtain l where "Allow ex_dry_lib (clientIP (ex_request ''POST'' ''/api/auth/forgot'' []))
      (clock (se_world ex_server)) (se_limiter ex_server) = ((False, 1500000000), l)"
    by (simp add: Allow_def ex_dry_lib_def ex_rate_lib_def Let_def)
  from throttled_does_nothing [OF ex_routes(2) l this] show ?thesis by auto
qed

text \<open>(C37) The answer to a reset request depends on no row of the database, on no statement's outcome
  and on no mail: two servers whose limiters and clocks agree answer it alike.\<close>
theorem forgot_tells_nothing:
  assumes "route_of a r = Some (RPublic PForgot)" and "se_limiter s = se_limiter s'"
    and "clock (se_world s) = clock (se_world s')"
  shows "fst (serve lib a r s) = fst (serve lib a r s')"
proof -
  have "fst (forgotPasswordHandler a r w) = fst (forgotPasswordHandler a r w')" for w w'
    by (simp add: forgotPasswordHandler_def decoded_def orElse_run split_beta split: sum.split)
  then show ?thesis
    using assms by (auto simp: serve_def rateLimit_def on_world_run Let_def split_beta)
qed

theorem forgot_tells_nothing_witness:
  "fst (serve ex_rate_lib ex_api (ex_request ''POST'' ''/api/auth/forgot'' []) ex_server) =
   fst (serve ex_rate_lib ex_api (ex_request ''POST'' ''/api/auth/forgot'' [])
     (ex_server\<lparr>se_world := ex_world\<lparr>tables := empty_db\<rparr>\<rparr>))"
  by (rule forgot_tells_nothing [OF ex_routes(2)]) (simp_all add: ex_server_def)



end
