(* ===== verification/Wiring.thy ===== *)
theory Wiring
  imports PoolWorld Scheduler HttpProps Config
begin

text \<open>
  \<open>cmd/api/main.go\<close>, first half: from the environment to the assembled server. The order is the
  code's: configuration, migrations (\<open>store/migrate.go\<close>), connection pool, quota and limiter,
  sender, services, the jobs channel with its workers, the scheduler, the static files, the router.
  Every step that can fail ends the process with its error. Parameters are goose, pgx, the JSON and
  HTTP libraries, and the embedded file system. Shown: how the parts are wired, and that main's
  services are the quiet ones the results on the HTTP interface ask for.
\<close>

section \<open>Migrations (store/migrate.go)\<close>

record migration_lib =
  sql_Open :: "string \<Rightarrow> unit result"
  goose_SetDialect :: "string \<Rightarrow> unit result"
  goose_Up :: "string \<Rightarrow> string \<Rightarrow> unit result"

definition Migrate :: "migration_lib \<Rightarrow> string \<Rightarrow> unit result" where
  "Migrate lib databaseURL =
     (case sql_Open lib databaseURL of
        Inl err \<Rightarrow> Inl (Wrap ''open db for migration: '' err)
      | Inr _ \<Rightarrow> (case goose_SetDialect lib ''postgres'' of
          Inl err \<Rightarrow> Inl (Wrap ''set dialect: '' err)
        | Inr _ \<Rightarrow> (case goose_Up lib databaseURL ''migrations'' of
            Inl err \<Rightarrow> Inl (Wrap ''goose up: '' err)
          | Inr _ \<Rightarrow> Inr ())))"

section \<open>The wiring (main.go)\<close>

record ('l, 'r) main_libs =
  ml_env :: environment
  ml_migration :: migration_lib
  ml_pgxpool :: "string \<Rightarrow> unit result" \<comment> \<open>\<open>pgxpool.New\<close>\<close>
  ml_auth :: auth_lib
  ml_NewRequest :: "string \<Rightarrow> unit result"
  ml_decodeSearch :: "string \<Rightarrow> tmEvent list result"
  ml_decodeEvent :: "string \<Rightarrow> tmEvent result"
  ml_Marshal :: "(string \<times> json_value) list \<Rightarrow> string"
  ml_json :: json_lib
  ml_Match :: "string \<Rightarrow> string \<Rightarrow> request \<Rightarrow> string option"
  ml_unrouted :: "request \<Rightarrow> response"
  ml_Dist :: "static_fs result" \<comment> \<open>\<open>web.Dist\<close>\<close>
  ml_rate :: "('l, 'r) rate_lib"
  ml_loc :: duration \<comment> \<open>the offset of the local time zone\<close>

definition main_sender :: "('l, 'r) main_libs \<Rightarrow> Config \<Rightarrow> world Sender" where
  "main_sender libs cfg =
     email_sender (ml_Marshal libs) (ml_NewRequest libs) (cf_ResendAPIKey cfg) (cf_NotifyFrom cfg)"

definition main_tm :: "('l, 'r) main_libs \<Rightarrow> Config \<Rightarrow> world Client" where
  "main_tm libs cfg = world_client (cf_TMBaseURL cfg) (cf_TMAPIKey cfg) (ml_NewRequest libs)
     (ml_decodeSearch libs) (ml_decodeEvent libs)"

definition main_api :: "('l, 'r) main_libs \<Rightarrow> Config \<Rightarrow> static_fs \<Rightarrow> api" where
  "main_api libs cfg staticFS =
     \<lparr>ap_auth = NewAuthService (ml_auth libs) (cf_JWTSecret cfg) (cf_JWTTTL cfg)
        (Some (sd_Send (main_sender libs cfg))) (cf_AppBaseURL cfg),
      ap_search = main_tm libs cfg,
      ap_watches = NewWatchService (Client_GetEvent (main_tm libs cfg)) (cf_MaxWatchesPerUser cfg),
      ap_accountSecret = cf_JWTSecret cfg, ap_jwtSecret = cf_JWTSecret cfg,
      ap_limited = True, ap_static = Some staticFS,
      ap_json = ml_json libs, ap_Match = ml_Match libs, ap_unrouted = ml_unrouted libs\<rparr>"

definition main_worker_deps :: "('l, 'r) main_libs \<Rightarrow> Config \<Rightarrow> world Deps" where
  "main_worker_deps libs cfg =
     main_deps (cf_TMBaseURL cfg) (cf_TMAPIKey cfg) (ml_NewRequest libs) (ml_decodeSearch libs)
       (ml_decodeEvent libs) (main_sender libs cfg)"

definition main_unsubscribe :: "Config \<Rightarrow> unsubscriber" where
  "main_unsubscribe cfg =
     Some (\<lambda>userID. UnsubscribeURL (cf_JWTSecret cfg) (cf_AppBaseURL cfg) userID)"

text \<open>What main has built when it starts to listen. \<open>mp_world\<close> is the world it found, with the
  quota and the jobs channel it made.\<close>

record ('l, 'r) main_program =
  mp_api :: api
  mp_deps :: "world Deps"
  mp_unsubscribe :: unsubscriber
  mp_scheduler :: "world Scheduler"
  mp_workers :: nat
  mp_rate :: "('l, 'r) rate_lib"
  mp_world :: world
  mp_limiter :: "'l ipLimiter"

definition main_build ::
  "('l, 'r) main_libs \<Rightarrow> Config \<Rightarrow> static_fs \<Rightarrow> world \<Rightarrow> ('l, 'r) main_program" where
  "main_build libs cfg staticFS w =
     \<lparr>mp_api = main_api libs cfg staticFS,
      mp_deps = main_worker_deps libs cfg,
      mp_unsubscribe = main_unsubscribe cfg,
      mp_scheduler = world_scheduler (cf_MaxEventsPerTick cfg),
      mp_workers = nat (cf_WorkerCount cfg),
      mp_rate = ml_rate libs,
      mp_world = w\<lparr>quota := NewDailyQuota (ml_loc libs) (cf_DailyBudgetPoll cfg)
          (cf_DailyBudgetSearch cfg) (clock w),
        jobs := [], jobs_cap := nat (cf_WorkerCount cfg), enqueued := []\<rparr>,
      mp_limiter = NewIPLimiter (cf_AuthRatePerMin cfg) (cf_AuthRateBurst cfg)\<rparr>"

definition main_start :: "('l, 'r) main_libs \<Rightarrow> world \<Rightarrow> ('l, 'r) main_program result" where
  "main_start libs w =
     (case Load (ml_env libs) of
        Inl err \<Rightarrow> Inl (Wrap ''config: '' err)
      | Inr cfg \<Rightarrow> (case Migrate (ml_migration libs) (cf_DatabaseURL cfg) of
          Inl err \<Rightarrow> Inl (Wrap ''migrate: '' err)
        | Inr _ \<Rightarrow> (case ml_pgxpool libs (cf_DatabaseURL cfg) of
            Inl err \<Rightarrow> Inl (Wrap ''db pool: '' err)
          | Inr _ \<Rightarrow>
              if cf_WorkerCount cfg < 0 then Inl (Opaque ''makechan: size out of range'')
              else (case ml_Dist libs of
                Inl err \<Rightarrow> Inl (Wrap ''static assets: '' err)
              | Inr staticFS \<Rightarrow> Inr (main_build libs cfg staticFS w)))))"

lemma main_startE:
  assumes "main_start libs w = Inr m"
  obtains cfg staticFS where "Load (ml_env libs) = Inr cfg" "ml_Dist libs = Inr staticFS"
    "0 \<le> cf_WorkerCount cfg" "m = main_build libs cfg staticFS w"
  using assms by (auto simp: main_start_def split: sum.splits if_splits)

section \<open>Main's services\<close>

lemma main_api_quiet: "quiet_api (main_api libs cfg fsys)"
  unfolding quiet_api_def main_api_def
  by (auto simp: quiet_mail_def quiet_fetch_def auth_send_def NewAuthService_def NewWatchService_def
      main_sender_def main_tm_def email_sender_tables still_client)

text \<open>The links in alerts lead to this server's own opt-out handler.\<close>

lemma main_links: "main_unsubscribe cfg = Some f \<Longrightarrow>
    f u = cf_AppBaseURL cfg @ ''/api/unsubscribe?token='' @
      NewUnsubscribeToken (ap_accountSecret (main_api libs cfg fsys)) u"
  by (auto simp: main_unsubscribe_def UnsubscribeURL_def main_api_def)

context statement_programs begin

lemma main_serve_in: "R (se_world s) (se_world (snd (serve lib (main_api libs cfg fsys) r s)))"
  unfolding main_api_def
  by (rule serve_in)
    (auto simp: auth_send_def NewAuthService_def NewWatchService_def main_sender_def main_tm_def
       intro: send_in client_in)

lemma main_call_in: "R w (snd (act_step (main_worker_deps libs cfg) m w))"
  unfolding main_worker_deps_def main_deps_def main_sender_def
  by (rule act_in) (auto intro!: client_in notify_in send_in)

end

end
