(* ===== verification/Polls.thy ===== *)
theory Polls
  imports PoolWorld
begin

text \<open>
  How long a poll can take: a bound on the calls it makes, by the number of watches it reads.
  Hence a poll that keeps being called returns, whatever its collaborators answer.
\<close>

section \<open>Counting calls\<close>

text \<open>\<open>ends_within m l n\<close>: \<open>m\<close> lists watches at most \<open>l\<close> times, and returns after at most \<open>n\<close> calls
  and seven for each watch it reads.\<close>

definition rows_read :: "activeWatchRow list result \<Rightarrow> activeWatchRow list" where
  "rows_read r = (case r of Inl _ \<Rightarrow> [] | Inr rows \<Rightarrow> rows)"

primrec ends_within :: "'a act \<Rightarrow> nat \<Rightarrow> nat \<Rightarrow> bool" where
  "ends_within (Return x) l n = True"
| "ends_within (DoGetEvent i k) l n = (0 < n \<and> (\<forall>r. ends_within (k r) l (n - 1)))"
| "ends_within (DoFetch i k) l n = (0 < n \<and> (\<forall>r. ends_within (k r) l (n - 1)))"
| "ends_within (DoInsertSnapshot i s k) l n = (0 < n \<and> (\<forall>r. ends_within (k r) l (n - 1)))"
| "ends_within (DoMinPollInterval i k) l n = (0 < n \<and> (\<forall>r. ends_within (k r) l (n - 1)))"
| "ends_within (DoNow k) l n = (0 < n \<and> (\<forall>r. ends_within (k r) l (n - 1)))"
| "ends_within (DoUpdateEventLatest p k) l n = (0 < n \<and> (\<forall>r. ends_within (k r) l (n - 1)))"
| "ends_within (DoListActiveWatches i k) l n = (0 < l \<and> 0 < n \<and>
     (\<forall>r. ends_within (k r) (l - 1) (n + 7 * length (rows_read r) - 1)))"
| "ends_within (DoClaimWatchAlert i s k) l n = (0 < n \<and> (\<forall>r. ends_within (k r) l (n - 1)))"
| "ends_within (DoNotify a k) l n = (0 < n \<and> (\<forall>r. ends_within (k r) l (n - 1)))"
| "ends_within (DoMarkNotified i k) l n = (0 < n \<and> (\<forall>r. ends_within (k r) l (n - 1)))"
| "ends_within (DoSetLastEvaluation i b k) l n = (0 < n \<and> (\<forall>r. ends_within (k r) l (n - 1)))"
| "ends_within (DoCloseWatches i k) l n = (0 < n \<and> (\<forall>r. ends_within (k r) l (n - 1)))"

lemma ends_after_mono:
  assumes "\<And>x l l' n n'. x \<in> range k \<Longrightarrow> ends_within x l n \<Longrightarrow> l \<le> l' \<Longrightarrow> n \<le> n' \<Longrightarrow> ends_within x l' n'"
    and "0 < n \<and> (\<forall>r. ends_within (k r) l (n - 1))" and "l \<le> l'" and "n \<le> n'"
  shows "0 < n' \<and> (\<forall>r. ends_within (k r) l' (n' - 1))"
proof -
  have "ends_within (k r) l' (n' - 1)" for r
    using assms(2) by (intro assms(1) [OF rangeI _ assms(3) diff_le_mono [OF assms(4)]]) simp
  then show ?thesis using assms(2,4) by simp
qed

lemma ends_within_mono: "ends_within m l n \<Longrightarrow> l \<le> l' \<Longrightarrow> n \<le> n' \<Longrightarrow> ends_within m l' n'"
proof (induction m arbitrary: l l' n n')
  case (DoListActiveWatches i k)
  have "ends_within (k r) (l' - 1) (n' + 7 * length (rows_read r) - 1)" for r
    by (rule DoListActiveWatches.IH [where l = "l - 1" and n = "n + 7 * length (rows_read r) - 1"])
      (use DoListActiveWatches.prems in auto)
  then show ?case using DoListActiveWatches.prems by simp
qed (simp, unfold ends_within.simps, (erule (3) ends_after_mono)+)

lemma ends_within_bind:
  "ends_within m l a \<Longrightarrow> (\<And>x. ends_within (f x) l' b) \<Longrightarrow> ends_within (act_bind m f) (l + l') (a + b)"
proof (induction m arbitrary: l a)
  case (Return x)
  have "ends_within (f x) l' b" by (rule Return.prems)
  then show ?case by (simp add: ends_within_mono)
next
  case (DoListActiveWatches i k)
  have "ends_within (act_bind (k r) f) (l - 1 + l') (a + 7 * length (rows_read r) - 1 + b)" for r
    by (rule DoListActiveWatches.IH) (use DoListActiveWatches.prems in auto)
  then show ?case using DoListActiveWatches.prems(1) by (simp add: algebra_simps)
qed (auto dest!: gr0_implies_Suc)

text \<open>At most two milestones are reported at once, and each costs at most three calls.\<close>

lemma Evaluate_two: "length (res_Kinds (Evaluate ob p)) \<le> 2"
  by (cases "ob_PublicStart ob") (simp_all add: Evaluate_def Let_def opt_time_defs)

lemma ends_alert_kinds: "ends_within (alert_kinds hn mk w kinds) 0 (3 * length kinds)"
proof (induction kinds)
  case Nil
  then show ?case by simp
next
  case (Cons kind kinds)
  then have "ends_within (alert_kinds hn mk w kinds) 0 (3 * length kinds + n)" for n
    by (rule ends_within_mono) simp_all
  from this [of 0] this [of 1] this [of 2] this [of 3] show ?case
    by (auto simp: Let_def numeral_3_eq_3 split: sum.split)
qed

lemma ends_alert_watches: "ends_within (alert_watches hn mk obs knew ws close) 0 (7 * length ws)"
proof (induction ws arbitrary: close)
  case Nil
  then show ?case by simp
next
  case (Cons w ws)
  have kinds: "ends_within (alert_kinds hn (mk w) w (res_Kinds (Evaluate obs p))) 0 6" for p
    using ends_alert_kinds by (rule ends_within_mono) (use Evaluate_two [of obs p] in linarith)+
  have "ends_within (alert_watches hn mk obs knew (w # ws) close) (0 + 0) (6 + Suc (7 * length ws))"
    unfolding alert_watches.simps Let_def
    by (rule ends_within_bind [OF kinds]) (simp add: Cons.IH split: sum.split)
  then show ?case by simp
qed

lemma ends_evaluateWatches: "ends_within (evaluateWatches hn unsub ev snap obs knew) 1 2"
proof -
  have "ends_within (act_bind (alert_watches hn mk obs knew rows False) f) 0 (7 * length rows + 1)"
    if "\<And>r. ends_within (f r) 0 1" for mk rows and f :: "bool result \<Rightarrow> unit result act"
    using ends_within_bind [OF ends_alert_watches that] by simp
  then show ?thesis
    unfolding evaluateWatches_def by (auto simp: rows_read_def split: sum.split)
qed

lemma ends_ProcessEvent: "ends_within (ProcessEvent hn unsub i) 1 9"
proof -
  have "ends_within (reschedule hn unsub i ev snap) 1 6" for ev snap
    using ends_evaluateWatches [of hn unsub]
    by (simp add: reschedule_def Let_def numeral_eq_Suc split: sum.split)
  then have "ends_within (reschedule hn unsub i ev snap) 1 (6 + n)" for ev snap n
    by (rule ends_within_mono) simp_all
  from this [where n = 0] this [where n = 1] show ?thesis
    by (simp add: ProcessEvent_def numeral_eq_Suc split: sum.split)
qed

section \<open>Running a poll\<close>

text \<open>Calls one after the other, with anything happening to the world in between; \<open>reads\<close> are the
  lists of watches the store answered with on the way.\<close>

fun act_reads :: "'w Deps \<Rightarrow> 'a act \<Rightarrow> 'w \<Rightarrow> activeWatchRow list list" where
  "act_reads d (DoListActiveWatches i k) w = [rows_read (fst (d_ListActiveWatches d i w))]"
| "act_reads d _ w = []"

inductive act_calls ::
  "'w Deps \<Rightarrow> 'a act \<Rightarrow> nat \<Rightarrow> activeWatchRow list list \<Rightarrow> 'a act \<Rightarrow> bool" for d :: "'w Deps"
where
  none: "act_calls d p 0 [] p"
| one: "\<not> finished p \<Longrightarrow> act_step d p w = (p', w') \<Longrightarrow> act_calls d p' n reads p'' \<Longrightarrow>
    act_calls d p (Suc n) (act_reads d p w @ reads) p''"

lemma ends_within_step:
  assumes "ends_within p l n" and "\<not> finished p"
  shows "0 < n \<and> length (act_reads d p w) \<le> l \<and>
    ends_within (fst (act_step d p w)) (l - length (act_reads d p w))
      (n + 7 * length (concat (act_reads d p w)) - 1)"
  using assms by (cases p) (auto simp: split_beta)

text \<open>What is left of a bound after some calls.\<close>

lemma left_after:
  fixes a b c l n s x :: nat
  assumes "0 < b" "a \<le> l" "s \<le> l - a" "n \<le> b + 7 * c - 1 + 7 * x"
  shows "a + s \<le> l" "Suc n \<le> b + 7 * (c + x)" "l - a - s = l - (a + s)"
    "b + 7 * c - 1 + 7 * x - n = b + 7 * (c + x) - Suc n"
  using assms by simp_all

lemma whole_bound:
  fixes c c' n n' s s' :: nat
  assumes "s \<le> 1" "n \<le> 9 + 7 * c" "s' \<le> 1 - s" "n' \<le> 9 + 7 * c - n + 7 * c'"
  shows "s + s' \<le> 1 \<and> n + n' \<le> 9 + 7 * (c + c')"
  using assms by arith

lemma ends_within_calls:
  assumes "act_calls d p n reads p'" and "ends_within p l b"
  shows "length reads \<le> l \<and> n \<le> b + 7 * length (concat reads) \<and>
    ends_within p' (l - length reads) (b + 7 * length (concat reads) - n)"
  using assms
proof (induction arbitrary: l b)
  case (one p w p1 w1 n reads p2)
  let ?l = "length (act_reads d p w)" and ?c = "length (concat (act_reads d p w))"
  have s: "0 < b" "?l \<le> l" "ends_within p1 (l - ?l) (b + 7 * ?c - 1)"
    using ends_within_step [OF one.prems one.hyps(1), of d w] one.hyps(2) by simp_all
  have "length reads \<le> l - ?l" "n \<le> b + 7 * ?c - 1 + 7 * length (concat reads)"
      "ends_within p2 (l - ?l - length reads) (b + 7 * ?c - 1 + 7 * length (concat reads) - n)"
    using one.IH [OF s(3)] by blast+
  note left = this left_after [OF s(1,2) this(1,2)]
  show ?case using left(3-5) unfolding left(6,7) length_append concat_append by blast
qed simp

text \<open>The induction a poll's calls give.\<close>

lemma call_induct:
  fixes d :: "'w Deps"
  assumes "\<And>p. (\<And>w. \<not> finished p \<Longrightarrow> P (fst (act_step d p w))) \<Longrightarrow> P p"
  shows "P p"
  by (induction p; rule assms; simp add: split_beta)

lemma calls_to_the_end:
  fixes d :: "'w Deps"
  shows "\<exists>n reads p'. act_calls d p n reads p' \<and> finished p'"
proof (induction p rule: call_induct [where d = d])
  case (1 p)
  show ?case
  proof (cases "finished p")
    case True
    then show ?thesis using act_calls.none by blast
  next
    case False
    obtain p1 w1 where p1: "act_step d p (undefined :: 'w) = (p1, w1)" by force
    then obtain n reads p' where "act_calls d p1 n reads p'" "finished p'"
      using 1 [OF False, of undefined] by auto
    then show ?thesis using act_calls.one [OF False p1] by blast
  qed
qed

text \<open>The calls of a poll that runs alone: the first \<open>fuel\<close> of them.\<close>

primrec alone :: "nat \<Rightarrow> 'w Deps \<Rightarrow> 'a act \<Rightarrow> 'w \<Rightarrow> nat \<times> activeWatchRow list list \<times> 'a act" where
  "alone 0 d p w = (0, [], p)"
| "alone (Suc fuel) d p w =
     (if finished p then (0, [], p)
      else case act_step d p w of (p', w') \<Rightarrow> case alone fuel d p' w' of (n, reads, p'') \<Rightarrow>
        (Suc n, act_reads d p w @ reads, p''))"

lemma alone_calls: "alone fuel d p w = (n, reads, p') \<Longrightarrow> act_calls d p n reads p'"
  by (induction fuel arbitrary: p w n reads)
    (auto simp: act_calls.none intro: act_calls.one split: if_splits prod.splits)

section \<open>Property\<close>

text \<open>(C19) A poll lists the watches of its event at most once, and makes at most nine calls and seven for
  each watch it read. It gets stuck nowhere and cannot go on for ever: from wherever it is, more
  calls bring it to its end, and all that it can still make are within that bound. Anything may
  happen to the world between two calls, any call may fail, and the lists may be of any length.\<close>
theorem poll_terminates:
  fixes d :: "'w Deps"
  assumes "act_calls d (ProcessEvent hn unsub i) n reads p"
  shows "length reads \<le> 1 \<and> n \<le> 9 + 7 * length (concat reads) \<and>
    (\<exists>n' reads' p'. act_calls d p n' reads' p' \<and> finished p') \<and>
    (\<forall>n' reads' p'. act_calls d p n' reads' p' \<longrightarrow> length (reads @ reads') \<le> 1 \<and>
       n + n' \<le> 9 + 7 * length (concat (reads @ reads')))"
proof -
  note p = ends_within_calls [OF assms ends_ProcessEvent]
  have "length (reads @ reads') \<le> 1 \<and> n + n' \<le> 9 + 7 * length (concat (reads @ reads'))"
    if "act_calls d p n' reads' p'" for n' reads' p'
  proof -
    have "length reads' \<le> 1 - length reads"
        "n' \<le> 9 + 7 * length (concat reads) - n + 7 * length (concat reads')"
      using ends_within_calls [OF that] p by blast+
    moreover have "length reads \<le> 1" "n \<le> 9 + 7 * length (concat reads)" using p by blast+
    ultimately show ?thesis using whole_bound unfolding length_append concat_append by blast
  qed
  then show ?thesis using p calls_to_the_end [of d p] by blast
qed

text \<open>The program's own collaborators and store: the poll of the example world reads one watch and
  ends after NN calls.\<close>
theorem poll_terminates_witness:
  "\<exists>n reads p. act_calls (ex_deps ''cancelled'') (ProcessEvent True None 1) n reads p \<and> finished p \<and>
     map (map r_ID) reads = [[1]] \<and> 9 < n \<and> n \<le> 9 + 7 * 1"
proof -
  obtain n reads p where run:
    "alone 20 (ex_deps ''cancelled'') (ProcessEvent True None 1) ex_world = (n, reads, p)"
    by (metis prod_cases3)
  have "(case alone 20 (ex_deps ''cancelled'') (ProcessEvent True None 1) ex_world of (n, reads, p) \<Rightarrow>
      (finished p, map (map r_ID) reads, 9 < n)) = (True, [[1]], True)"
    by code_simp
  then have c: "finished p" "map (map r_ID) reads = [[1]]" "9 < n" by (simp_all add: run)
  have "length (concat reads) = length (concat (map (map r_ID) reads))" by (simp flip: map_concat)
  then have "length (concat reads) = 1" using c(2) by simp
  then have "n \<le> 9 + 7 * 1" using poll_terminates [OF alone_calls [OF run]] by simp
  then show ?thesis using alone_calls [OF run] c by (intro exI conjI)
qed

end
