(* ===== verification/System.thy ===== *)
theory System
  imports Wiring Polls
begin

text \<open>
  \<open>cmd/api/main.go\<close>, second half: the process from the first request to the end of the shutdown, as
  a step relation. A step is a request served by one handler, a statement of a handler or of
  another process, time passing, a piece of the scheduler's loop, a worker taking a job, one call
  of a running poll, the cancellation of the context, or a stage of the shutdown. Shown for every
  order of these: the invariant of the process, that the process refines the pool of theory Pool,
  and that the shutdown neither sends on the closed channel nor loses a job.
\<close>

section \<open>The scheduler in pieces\<close>

text \<open>A tick is: decide and list; then one send after the other.\<close>

definition tick_list :: "'w Scheduler \<Rightarrow> ('w, event list) prog" where
  "tick_list s =
     letM (sc_Remaining s) (\<lambda>budget.
     let budget = (if budget > sc_maxTick s then sc_maxTick s else budget)
     in if budget \<le> 0 then ret []
        else orElse (sc_ListDueEvents s (to_int32 budget)) (\<lambda>_. ret []) ret)"

definition enqueue_one :: "'w Scheduler \<Rightarrow> event list \<Rightarrow> ('w, event list) prog" where
  "enqueue_one s es =
     (case es of
        [] \<Rightarrow> ret []
      | e # rest \<Rightarrow> letM (sc_send s (e_ID e)) (\<lambda>r. ret (case r of Sent \<Rightarrow> rest | _ \<Rightarrow> [])))"

lemma enqueue_pieces: "enqueue s es = (case es of [] \<Rightarrow> ret () | e # rest \<Rightarrow> letM (enqueue_one s es) (enqueue s))"
  by (cases es) (auto simp: enqueue_one_def letM_def ret_def fun_eq_iff split: prod.split send_result.split)

lemma tick_pieces: "scheduler_tick s = letM (tick_list s) (enqueue s)"
  by (auto simp: scheduler_tick_def tick_list_def letM_def ret_def orElse_def Let_def fun_eq_iff
      split: prod.split sum.split)

section \<open>The process\<close>

record 'l process =
  pc_pool :: "world pool"
  pc_limiter :: "'l ipLimiter"
  pc_ticking :: "event list" \<comment> \<open>rows of the current tick not sent yet\<close>
  pc_started :: "int list" \<comment> \<open>jobs the workers have taken so far, oldest first\<close>
  pc_done :: bool \<comment> \<open>the context is cancelled\<close>
  pc_scheduling :: bool \<comment> \<open>\<open>Run\<close> has not returned\<close>
  pc_closed :: bool \<comment> \<open>the jobs channel is closed\<close>
  pc_exited :: bool

abbreviation pc_world :: "'l process \<Rightarrow> world" where
  "pc_world s \<equiv> po_world (pc_pool s)"

definition set_world :: "world \<Rightarrow> 'l process \<Rightarrow> 'l process" where
  "set_world w s = s\<lparr>pc_pool := (pc_pool s)\<lparr>po_world := w\<rparr>\<rparr>"

definition busy :: "'l process \<Rightarrow> nat" where
  "busy s = length (filter (\<lambda>m. \<not> finished m) (po_polls (pc_pool s)))"

definition process_init :: "('l, 'r) main_program \<Rightarrow> 'l process" where
  "process_init m = \<lparr>pc_pool = pool_init (mp_world m), pc_limiter = mp_limiter m, pc_ticking = [],
     pc_started = [], pc_done = False, pc_scheduling = True, pc_closed = False, pc_exited = False\<rparr>"

definition pool_call :: "'w Deps \<Rightarrow> nat \<Rightarrow> 'w pool \<Rightarrow> 'w pool" where
  "pool_call d i s =
     (case act_step d (po_polls s ! i) (po_world s) of (t, w) \<Rightarrow>
        \<lparr>po_polls = (po_polls s)[i := t], po_world = w,
         po_alerts = po_alerts s @ act_alerts (po_polls s ! i),
         po_listed = po_listed s @ act_listed d (po_polls s ! i) (po_world s),
         po_past = po_past s @ [po_world s]\<rparr>)"

text \<open>
  The select of a send sees a full channel, a cancelled context, or both; what it takes of them is
  \<open>coin\<close>. Workers take jobs in steps of their own.
\<close>

inductive process_step :: "('l, 'r) main_program \<Rightarrow> 'l process \<Rightarrow> 'l process \<Rightarrow> bool"
  for m :: "('l, 'r) main_program"
where
  request: "\<not> pc_exited s \<Longrightarrow>
    serve (mp_rate m) (mp_api m) r \<lparr>se_world = pc_world s, se_limiter = pc_limiter s\<rparr> = (res, sv) \<Longrightarrow>
    process_step m s (set_world (se_world sv) (s\<lparr>pc_limiter := se_limiter sv\<rparr>))"
| statement: "db_step (tables (pc_world s)) d \<Longrightarrow>
    process_step m s (set_world ((pc_world s)\<lparr>tables := d\<rparr>) s)"
| time: "process_step m s (set_world (tick n (pc_world s)) s)"
| due: "pc_scheduling s \<Longrightarrow> pc_ticking s = [] \<Longrightarrow>
    tick_list (mp_scheduler m) (pc_world s) = (rows, w) \<Longrightarrow>
    process_step m s (set_world w (s\<lparr>pc_ticking := rows\<rparr>))"
| send: "pc_ticking s \<noteq> [] \<Longrightarrow>
    enqueue_one (mp_scheduler m) (pc_ticking s)
      ((pc_world s)\<lparr>selects := [(0, pc_done s, coin)]\<rparr>) = (rows, w) \<Longrightarrow>
    process_step m s (set_world w (s\<lparr>pc_ticking := rows\<rparr>))"
| take: "jobs (pc_world s) = j # js \<Longrightarrow> busy s < mp_workers m \<Longrightarrow>
    process_step m s (s\<lparr>pc_started := pc_started s @ [j],
      pc_pool := (pc_pool s)\<lparr>po_polls := po_polls (pc_pool s) @ [ProcessEvent True (mp_unsubscribe m) j],
        po_world := (pc_world s)\<lparr>jobs := js\<rparr>\<rparr>\<rparr>)"
| call: "i < length (po_polls (pc_pool s)) \<Longrightarrow>
    process_step m s (s\<lparr>pc_pool := pool_call (mp_deps m) i (pc_pool s)\<rparr>)"
| cancel: "process_step m s (s\<lparr>pc_done := True\<rparr>)"
| stop: "pc_done s \<Longrightarrow> pc_ticking s = [] \<Longrightarrow> process_step m s (s\<lparr>pc_scheduling := False\<rparr>)"
| close: "pc_done s \<Longrightarrow> \<not> pc_scheduling s \<Longrightarrow> process_step m s (s\<lparr>pc_closed := True\<rparr>)"
| exit: "pc_closed s \<Longrightarrow> jobs (pc_world s) = [] \<Longrightarrow> busy s = 0 \<Longrightarrow>
    process_step m s (s\<lparr>pc_exited := True\<rparr>)"

inductive process_reach :: "('l, 'r) main_program \<Rightarrow> 'l process \<Rightarrow> bool"
  for m :: "('l, 'r) main_program"
where
  start: "process_reach m (process_init m)"
| step: "process_reach m s \<Longrightarrow> process_step m s s' \<Longrightarrow> process_reach m s'"

lemma set_world_simps [simp]:
  "pc_pool (set_world w s) = (pc_pool s)\<lparr>po_world := w\<rparr>" "pc_limiter (set_world w s) = pc_limiter s"
  "pc_ticking (set_world w s) = pc_ticking s" "pc_started (set_world w s) = pc_started s"
  "pc_done (set_world w s) = pc_done s" "pc_scheduling (set_world w s) = pc_scheduling s"
  "pc_closed (set_world w s) = pc_closed s" "pc_exited (set_world w s) = pc_exited s"
  by (simp_all add: set_world_def)

lemma busy_world [simp]: "busy (set_world w s) = busy s"
  by (simp add: busy_def)

section \<open>What no step touches\<close>

definition frame_rel :: "world \<Rightarrow> world \<Rightarrow> bool" where
  "frame_rel w w' \<longleftrightarrow> clock w \<le> clock w' \<and> (quota_ok (quota w) \<longrightarrow> quota_ok (quota w')) \<and>
     dq_budget (quota w') = dq_budget (quota w) \<and>
     jobs w' = jobs w \<and> jobs_cap w' = jobs_cap w \<and> enqueued w' = enqueued w"

lemma Reserve_step: "snd (Reserve c t q) = quota_step t (OpReserve c) q"
  and Release_step: "Release c q = quota_step 0 (OpRelease c) q"
  and Remaining_step: "snd (Remaining c t q) = quota_step t (OpRemaining c) q"
  by simp_all

lemma Acquire_frame: "frame_rel w (snd (Acquire world_limiter c w))"
proof -
  let ?q = "quota_step (clock w) (OpReserve c) (quota w)"
  have "quota (snd (Acquire world_limiter c w)) \<in> {?q, quota_step 0 (OpRelease c) ?q}"
    and "clock w \<le> clock (snd (Acquire world_limiter c w))"
    and "jobs (snd (Acquire world_limiter c w)) = jobs w"
    and "jobs_cap (snd (Acquire world_limiter c w)) = jobs_cap w"
    and "enqueued (snd (Acquire world_limiter c w)) = enqueued w"
    by (auto simp: Acquire_def world_limiter_def prog_defs bucket_Wait_def sleep_def tick_def
        split: prod.split sum.split list.split option.split)
  then show ?thesis by (auto simp: frame_rel_def quota_step_ok simp del: quota_step.simps)
qed

interpretation framed: statement_programs frame_rel
proof unfold_locales
  show "frame_rel w (snd (Acquire world_limiter c w))" for w c by (rule Acquire_frame)
qed (auto simp: frame_rel_def effect_def)

text \<open>The pieces of the scheduler.\<close>

lemma tick_list_frame: "frame_rel w (snd (tick_list (world_scheduler k) w))"
proof -
  have "steps frame_rel (sc_Remaining (world_scheduler k))"
    using quota_step_ok [of _ _ "OpRemaining ClassPoll"] quota_step_budget [of _ "OpRemaining ClassPoll"]
    by (simp add: steps_def world_scheduler_def frame_rel_def split_beta)
  then have "steps frame_rel (tick_list (world_scheduler k))"
    unfolding tick_list_def Let_def
    by (intro framed.steps_progs) (simp_all add: world_scheduler_def framed.queries_in)
  then show ?thesis by (rule stepsD)
qed

lemma tick_list_tables: "tables (snd (tick_list (world_scheduler k) w)) = tables w"
  using exec_read [of "ListDueEvents (to_int32 _)"]
  by (auto simp: tick_list_def prog_defs world_scheduler_def Let_def split: prod.split sum.split
      dest!: arg_cong [where f = snd])

lemma enqueue_one_world:
  assumes "enqueue_one (world_scheduler k) es (w\<lparr>selects := [(0, d, coin)]\<rparr>) = (rows, w')"
  shows "tables w' = tables w \<and> quota w' = quota w \<and> clock w' = clock w \<and> jobs_cap w' = jobs_cap w \<and>
    (\<exists>is. jobs w' = jobs w @ is \<and> enqueued w' = enqueued w @ is) \<and>
    (length (jobs w) \<le> jobs_cap w \<longrightarrow> length (jobs w') \<le> jobs_cap w)"
  using assms
  by (cases es) (auto simp: enqueue_one_def prog_defs world_scheduler_def select_send_def Let_def
      split: if_splits)

text \<open>The inbound limiter.\<close>

lemma limiter_ok_later: "limiter_ok t l \<Longrightarrow> t \<le> u \<Longrightarrow> limiter_ok u l"
  by (fastforce simp: limiter_ok_def)

lemma rateLimit_limiter:
  assumes "\<And>r s. se_limiter (snd (h r s)) = se_limiter s"
  shows "se_limiter (snd (rateLimit lib h r s)) =
    snd (Allow lib (clientIP r) (clock (se_world s)) (se_limiter s))"
  using assms by (auto simp: rateLimit_def Let_def split_beta)

lemma serve_limiter:
  "se_limiter (snd (serve lib a r s)) \<in>
     {se_limiter s, snd (Allow lib (clientIP r) (clock (se_world s)) (se_limiter s))}"
  by (simp add: serve_def on_world_run rateLimit_limiter split: option.split route.split)

section \<open>The invariant of the process\<close>

text \<open>The data: tables some program can have produced, counters within the budgets, a tidy limiter.\<close>

definition data_ok :: "dailyQuota \<Rightarrow> world \<Rightarrow> 'l ipLimiter \<Rightarrow> bool" where
  "data_ok q0 w l \<longleftrightarrow> reachable_db (tables w) \<and> quota_ok (quota w) \<and>
     dq_budget (quota w) = dq_budget q0 \<and> limiter_ok (clock w) l \<and> 0 \<le> clock w"

text \<open>The channel: what was put on it is what was taken, in order, and what it holds; it holds no
  more than its capacity, and no more polls run than there are workers.\<close>

definition channel_ok :: "('l, 'r) main_program \<Rightarrow> 'l process \<Rightarrow> bool" where
  "channel_ok m s \<longleftrightarrow> enqueued (pc_world s) = pc_started s @ jobs (pc_world s) \<and>
     length (jobs (pc_world s)) \<le> jobs_cap (pc_world s) \<and> jobs_cap (pc_world s) = mp_workers m \<and>
     length (po_polls (pc_pool s)) = length (pc_started s) \<and> busy s \<le> mp_workers m"

text \<open>The shutdown: its stages come in order.\<close>

definition stages_ok :: "'l process \<Rightarrow> bool" where
  "stages_ok s \<longleftrightarrow> (\<not> pc_scheduling s \<longrightarrow> pc_ticking s = [] \<and> pc_done s) \<and>
     (pc_closed s \<longrightarrow> \<not> pc_scheduling s) \<and>
     (pc_exited s \<longrightarrow> pc_closed s \<and> jobs (pc_world s) = [] \<and> busy s = 0)"

text \<open>A program that main built.\<close>

definition built :: "('l, 'r) main_program \<Rightarrow> bool" where
  "built m \<longleftrightarrow> (\<exists>libs cfg fsys w. m = main_build libs cfg fsys w \<and> reachable_db (tables w) \<and> 0 \<le> clock w)"

lemma built_fields:
  assumes "built m"
  shows "reachable_db (tables (mp_world m))" "0 \<le> clock (mp_world m)" "quota_ok (quota (mp_world m))"
    "limiter_ok (clock (mp_world m)) (mp_limiter m)" "jobs (mp_world m) = []" "enqueued (mp_world m) = []"
    "jobs_cap (mp_world m) = mp_workers m" "\<exists>k. mp_scheduler m = world_scheduler k"
    "frame_rel (se_world sv) (se_world (snd (serve lib (mp_api m) r sv)))"
    "stmt_rel (se_world sv) (se_world (snd (serve lib (mp_api m) r sv)))"
    "frame_rel w (snd (act_step (mp_deps m) x w))" "stmt_rel w (snd (act_step (mp_deps m) x w))"
  using assms
  by (auto simp: built_def main_build_def quota_ok_new limiter_ok_new framed.main_serve_in
      stmts.main_serve_in framed.main_call_in stmts.main_call_in)

lemma stmt_rel_reachable: "stmt_rel w w' \<Longrightarrow> reachable_db (tables w) \<Longrightarrow> reachable_db (tables w')"
  unfolding stmt_rel_def
  by (induction rule: rtranclp_induct) (auto intro: reachable_db.step)

lemma data_ok_later:
  assumes "data_ok q0 w l" and "stmt_rel w w'" and "frame_rel w w'"
  shows "data_ok q0 w' l"
  using assms limiter_ok_later stmt_rel_reachable unfolding data_ok_def frame_rel_def by fastforce

lemma data_ok_frame:
  assumes "data_ok q0 w l" and "tables w' = tables w" and "quota w' = quota w" and "clock w' = clock w"
  shows "data_ok q0 w' l"
  using assms by (simp add: data_ok_def)

lemma busy_snoc: "busy s = k \<Longrightarrow> length (filter (\<lambda>m. \<not> finished m) (po_polls (pc_pool s) @ [p])) \<le> Suc k"
  by (simp add: busy_def)

lemma finished_stays: "finished p \<Longrightarrow> act_step d p w = (t, w') \<Longrightarrow> finished t"
  by (cases p) auto

lemma filter_update_length:
  "i < length xs \<Longrightarrow> (P y \<Longrightarrow> P (xs ! i)) \<Longrightarrow> length (filter P (xs[i := y])) \<le> length (filter P xs)"
proof (induction xs arbitrary: i)
  case (Cons x xs)
  then show ?case by (cases i) auto
qed simp

lemma busy_call:
  assumes "i < length (po_polls (pc_pool s))"
  shows "busy (s\<lparr>pc_pool := pool_call d i (pc_pool s)\<rparr>) \<le> busy s"
proof -
  obtain t w where t: "act_step d (po_polls (pc_pool s) ! i) (pc_world s) = (t, w)" by force
  show ?thesis
    using filter_update_length [OF assms, of "\<lambda>m. \<not> finished m" t] finished_stays [OF _ t]
    by (auto simp: busy_def pool_call_def t)
qed

lemma pool_call_world: "po_world (pool_call d i s) = snd (act_step d (po_polls s ! i) (po_world s))"
  "length (po_polls (pool_call d i s)) = length (po_polls s)"
  by (simp_all add: pool_call_def split_beta)

lemma request_step:
  assumes "built m" and "serve lib (mp_api m) r \<lparr>se_world = w, se_limiter = l\<rparr> = (res, sv)"
  shows "frame_rel w (se_world sv)" "stmt_rel w (se_world sv)"
    "se_limiter sv \<in> {l, snd (Allow lib (clientIP r) (clock w) l)}"
  using built_fields(9,10) [OF assms(1), of "\<lparr>se_world = w, se_limiter = l\<rparr>" lib r]
    serve_limiter [of lib "mp_api m" r "\<lparr>se_world = w, se_limiter = l\<rparr>"] assms(2)
  by simp_all

lemma call_channel:
  assumes "built m"
  shows "jobs (po_world (pool_call (mp_deps m) i p)) = jobs (po_world p)"
    "jobs_cap (po_world (pool_call (mp_deps m) i p)) = jobs_cap (po_world p)"
    "enqueued (po_world (pool_call (mp_deps m) i p)) = enqueued (po_world p)"
  using built_fields(11) [OF assms, of "po_world p" "po_polls p ! i"]
  by (simp_all add: frame_rel_def pool_call_world)

lemma data_ok_step:
  assumes "process_step m s s'" and "built m" and "data_ok q0 (pc_world s) (pc_limiter s)"
  shows "data_ok q0 (pc_world s') (pc_limiter s')"
  using assms(1)
proof cases
  case (request r res sv)
  note req = request_step [OF assms(2) request(3)]
  have "limiter_ok (clock (pc_world s)) (se_limiter sv)"
    using req(3) assms(3) by (auto simp: data_ok_def intro: Allow_ok)
  then have "data_ok q0 (pc_world s) (se_limiter sv)" using assms(3) by (simp add: data_ok_def)
  from data_ok_later [OF this req(2,1)] show ?thesis by (simp add: request(1))
next
  case (statement d)
  then show ?thesis using assms(3) reachable_db.step by (auto simp: data_ok_def)
next
  case (time n)
  then show ?thesis using assms(3) by (auto simp: data_ok_def tick_def intro: limiter_ok_later)
next
  case (due rows w)
  obtain k where k: "mp_scheduler m = world_scheduler k" using built_fields(8) [OF assms(2)] by blast
  have w: "w = snd (tick_list (world_scheduler k) (pc_world s))" using due(4) by (simp add: k)
  have "stmt_rel (pc_world s) w" by (simp add: w stmt_rel_def tick_list_tables)
  from data_ok_later [OF assms(3) this] show ?thesis by (simp add: due(1) w tick_list_frame)
next
  case (send coin rows w)
  obtain k where k: "mp_scheduler m = world_scheduler k" using built_fields(8) [OF assms(2)] by blast
  show ?thesis
    using enqueue_one_world [OF send(3) [unfolded k]] data_ok_frame [OF assms(3)] by (simp add: send(1))
next
  case (take j js)
  then show ?thesis using assms(3) by (simp add: data_ok_def)
next
  case (call i)
  show ?thesis
    using data_ok_later [OF assms(3) built_fields(12,11) [OF assms(2)]]
    by (simp add: call(1) pool_call_world)
qed (use assms(3) in simp_all)

lemma channel_ok_step:
  assumes "process_step m s s'" and "built m" and "channel_ok m s"
  shows "channel_ok m s'"
  using assms(1)
proof cases
  case (request r res sv)
  note req = request_step [OF assms(2) request(3)]
  then show ?thesis using assms(3) by (simp add: channel_ok_def request(1) frame_rel_def busy_def)
next
  case (statement d)
  then show ?thesis using assms(3) by (simp add: channel_ok_def)
next
  case (time n)
  then show ?thesis using assms(3) by (simp add: channel_ok_def tick_def)
next
  case (due rows w)
  obtain k where k: "mp_scheduler m = world_scheduler k" using built_fields(8) [OF assms(2)] by blast
  have "frame_rel (pc_world s) w" using tick_list_frame [of "pc_world s" k] due(4) by (simp add: k)
  then show ?thesis using assms(3) by (simp add: channel_ok_def due(1) frame_rel_def busy_def)
next
  case (send coin rows w)
  obtain k where k: "mp_scheduler m = world_scheduler k" using built_fields(8) [OF assms(2)] by blast
  show ?thesis
    using enqueue_one_world [OF send(3) [unfolded k]] assms(3)
    by (auto simp: channel_ok_def send(1) busy_def)
next
  case (take j js)
  then show ?thesis
    using assms(3) by (auto simp: channel_ok_def busy_def)
next
  case (call i)
  show ?thesis
    using busy_call [OF call(2), of "mp_deps m"] assms(3)
    by (simp add: call(1) channel_ok_def pool_call_world(2) call_channel [OF assms(2)])
qed (use assms(3) in \<open>simp_all add: channel_ok_def busy_def\<close>)

lemma stages_ok_step:
  assumes "process_step m s s'" and "built m" and "stages_ok s"
  shows "stages_ok s'"
  using assms(1)
proof cases
  case (request r res sv)
  then show ?thesis using assms(3) by (auto simp: stages_ok_def busy_def)
next
  case (time n)
  then show ?thesis using assms(3) by (auto simp: stages_ok_def tick_def)
next
  case (due rows w)
  then show ?thesis using assms(3) by (auto simp: stages_ok_def)
next
  case (send coin rows w)
  then show ?thesis using assms(3) by (auto simp: stages_ok_def)
next
  case (call i)
  show ?thesis
    using busy_call [OF call(2), of "mp_deps m"] assms(3)
    unfolding call(1) stages_ok_def by (auto simp: call_channel [OF assms(2)])
qed (use assms(3) in \<open>auto simp: stages_ok_def busy_def\<close>)

lemma process_reach_ok:
  assumes "process_reach m s" and "built m"
  shows "data_ok (quota (mp_world m)) (pc_world s) (pc_limiter s) \<and> channel_ok m s \<and> stages_ok s"
  using assms(1)
proof induction
  case start
  show ?case
    using built_fields(1-8) [OF assms(2)]
    by (simp add: process_init_def pool_init_def data_ok_def channel_ok_def stages_ok_def busy_def)
next
  case (step s s')
  then show ?case using data_ok_step channel_ok_step stages_ok_step assms(2) by blast
qed

section \<open>The process refines the pool\<close>

lemma stmt_rel_same: "tables w' = tables w \<Longrightarrow> stmt_rel w w'"
  by (simp add: stmt_rel_def)

lemma pool_set_world: "pool_reach d env w0 s \<Longrightarrow> env (po_world s) w \<Longrightarrow> pool_reach d env w0 (s\<lparr>po_world := w\<rparr>)"
  by (blast intro: pool_reach.step pool_step.other)

lemma process_refines:
  assumes "process_reach m s" and "built m"
  shows "pool_reach (mp_deps m) stmt_rel (mp_world m) (pc_pool s)"
  using assms(1)
proof induction
  case start
  show ?case by (simp add: process_init_def pool_init_def pool_reach.init)
next
  case (step s s')
  obtain k where k: "mp_scheduler m = world_scheduler k" using built_fields(8) [OF assms(2)] by blast
  note other = pool_set_world [OF step.IH]
  show ?case
    using step.hyps(2)
  proof cases
    case (request r res sv)
    show ?thesis using other [OF request_step(2) [OF assms(2) request(3)]] by (simp add: request(1))
  next
    case (statement d)
    show ?thesis
      using other [of "(pc_world s)\<lparr>tables := d\<rparr>"] r_into_rtranclp [of db_step, OF statement(2)]
      by (simp add: statement(1) stmt_rel_def)
  next
    case (time n)
    show ?thesis using other [of "tick n (pc_world s)"] by (simp add: time stmt_rel_same tick_def)
  next
    case (due rows w)
    have "tables w = tables (pc_world s)" using tick_list_tables [of k "pc_world s"] due(4) by (simp add: k)
    then show ?thesis using other [of w] by (simp add: due(1) stmt_rel_same)
  next
    case (send coin rows w)
    show ?thesis
      using other [of w] enqueue_one_world [OF send(3) [unfolded k]] by (simp add: send(1) stmt_rel_same)
  next
    case (take j js)
    let ?p = "(pc_pool s)\<lparr>po_polls := po_polls (pc_pool s) @ [ProcessEvent True (mp_unsubscribe m) j]\<rparr>"
    have "pool_reach (mp_deps m) stmt_rel (mp_world m) ?p"
      by (rule pool_reach.step [OF step.IH pool_step.start])
    from pool_set_world [OF this, of "(pc_world s)\<lparr>jobs := js\<rparr>"] show ?thesis
      by (simp add: take(1) stmt_rel_same)
  next
    case (call i)
    obtain t w where t: "act_step (mp_deps m) (po_polls (pc_pool s) ! i) (pc_world s) = (t, w)" by force
    show ?thesis
      using pool_reach.step [OF step.IH pool_step.call [OF call(2) t]] by (simp add: call(1) pool_call_def t)
  qed (use step.IH in simp_all)
qed

section \<open>The shutdown can always complete\<close>

abbreviation process_steps :: "('l, 'r) main_program \<Rightarrow> 'l process \<Rightarrow> 'l process \<Rightarrow> bool" where
  "process_steps m \<equiv> (process_step m)\<^sup>*\<^sup>*"

text \<open>Everything but the polls and what their calls do.\<close>

definition at_rest :: "'l process \<Rightarrow> 'l process \<Rightarrow> bool" where
  "at_rest s s' \<longleftrightarrow> jobs (pc_world s') = jobs (pc_world s) \<and> pc_ticking s' = pc_ticking s \<and>
     pc_done s' = pc_done s \<and> pc_scheduling s' = pc_scheduling s \<and> pc_closed s' = pc_closed s"

text \<open>A poll that is called again and again returns.\<close>

lemma poll_finishes:
  assumes "built m" and "p = po_polls (pc_pool s) ! i" and "i < length (po_polls (pc_pool s))"
  shows "\<exists>s' t. process_steps m s s' \<and> at_rest s s' \<and> finished t \<and>
    po_polls (pc_pool s') = (po_polls (pc_pool s))[i := t]"
  using assms(2,3)
proof (induction p arbitrary: s rule: call_induct [where d = "mp_deps m"])
  case (1 p)
  show ?case
  proof (cases "finished p")
    case True
    then show ?thesis
      using 1 by (intro exI [of _ s] exI [of _ p]) (simp add: at_rest_def)
  next
    case False
    let ?s = "s\<lparr>pc_pool := pool_call (mp_deps m) i (pc_pool s)\<rparr>"
    have polls: "po_polls (pc_pool ?s) = (po_polls (pc_pool s))[i := fst (act_step (mp_deps m) p (pc_world s))]"
      using "1.prems" by (simp add: pool_call_def split_beta)
    have one: "process_step m s ?s" by (rule process_step.call) (rule "1.prems")
    have rest: "at_rest s ?s" by (simp add: at_rest_def call_channel [OF assms(1)])
    obtain s' t where s': "process_steps m ?s s'" "at_rest ?s s'" "finished t"
        "po_polls (pc_pool s') = (po_polls (pc_pool ?s))[i := t]"
      using "1.IH" [OF False, of "pc_world s" ?s] "1.prems" polls by auto
    have "process_steps m s s'" using one s'(1) by (rule converse_rtranclp_into_rtranclp)
    moreover have "at_rest s s'" using rest s'(2) by (simp add: at_rest_def)
    ultimately show ?thesis using s'(3,4) polls by (intro exI [of _ s'] exI [of _ t]) simp
  qed
qed

lemma unfinished_exists: "0 < busy s \<Longrightarrow> \<exists>i<length (po_polls (pc_pool s)). \<not> finished (po_polls (pc_pool s) ! i)"
  by (auto simp: busy_def filter_empty_conv in_set_conv_nth)

lemma filter_update_fewer:
  "i < length xs \<Longrightarrow> P (xs ! i) \<Longrightarrow> \<not> P y \<Longrightarrow> length (filter P (xs[i := y])) < length (filter P xs)"
proof (induction xs arbitrary: i)
  case (Cons x xs)
  then show ?case by (cases i) auto
qed simp

lemma polls_finish:
  assumes "built m"
  shows "\<exists>s'. process_steps m s s' \<and> at_rest s s' \<and> busy s' = 0"
proof (induction "busy s" arbitrary: s rule: less_induct)
  case less
  show ?case
  proof (cases "busy s = 0")
    case True
    then show ?thesis by (intro exI [of _ s]) (simp add: at_rest_def)
  next
    case False
    then obtain i where i: "i < length (po_polls (pc_pool s))" "\<not> finished (po_polls (pc_pool s) ! i)"
      using unfinished_exists by blast
    obtain s1 t where s1: "process_steps m s s1" "at_rest s s1" "finished t"
        "po_polls (pc_pool s1) = (po_polls (pc_pool s))[i := t]"
      using poll_finishes [OF assms refl i(1)] by blast
    have "busy s1 < busy s" using filter_update_fewer [of i _ "\<lambda>p. \<not> finished p" t] i s1(3,4) by (simp add: busy_def)
    then obtain s2 where "process_steps m s1 s2" "at_rest s1 s2" "busy s2 = 0" using less by blast
    then show ?thesis using s1(1,2) unfolding at_rest_def by (intro exI [of _ s2]) auto
  qed
qed

lemma jobs_drain:
  assumes "built m"
  shows "length (jobs (pc_world s)) \<le> mp_workers m \<Longrightarrow>
    \<exists>s'. process_steps m s s' \<and> jobs (pc_world s') = [] \<and> busy s' = 0 \<and> pc_ticking s' = pc_ticking s \<and>
      pc_done s' = pc_done s \<and> pc_scheduling s' = pc_scheduling s \<and> pc_closed s' = pc_closed s"
proof (induction "jobs (pc_world s)" arbitrary: s)
  case Nil
  then show ?case using polls_finish [OF assms, of s] by (auto simp: at_rest_def)
next
  case (Cons j js)
  obtain s1 where s1: "process_steps m s s1" "at_rest s s1" "busy s1 = 0" using polls_finish [OF assms] by blast
  have j: "jobs (pc_world s1) = j # js" using s1(2) Cons.hyps(2) by (simp add: at_rest_def)
  let ?s = "s1\<lparr>pc_started := pc_started s1 @ [j],
      pc_pool := (pc_pool s1)\<lparr>po_polls := po_polls (pc_pool s1) @ [ProcessEvent True (mp_unsubscribe m) j],
        po_world := (pc_world s1)\<lparr>jobs := js\<rparr>\<rparr>\<rparr>"
  have "0 < mp_workers m" using Cons.prems Cons.hyps(2) [symmetric] by auto
  then have take: "process_step m s1 ?s" using process_step.take [OF j] s1(3) by simp
  have "length (jobs (pc_world ?s)) \<le> mp_workers m" using Cons.prems Cons.hyps(2) [symmetric] by simp
  then obtain s2 where s2: "process_steps m ?s s2" "jobs (pc_world s2) = []" "busy s2 = 0"
      "pc_ticking s2 = pc_ticking ?s" "pc_done s2 = pc_done ?s" "pc_scheduling s2 = pc_scheduling ?s"
      "pc_closed s2 = pc_closed ?s"
    using Cons.hyps(1) [of ?s] by auto
  have "process_steps m s s2"
    using s1(1) converse_rtranclp_into_rtranclp [of "process_step m", OF take s2(1)] by (rule rtranclp_trans)
  then show ?case using s1(2) s2 by (intro exI [of _ s2]) (simp add: at_rest_def)
qed

text \<open>Cancelling the context, dropping what the tick has not sent, leaving the loop, closing.\<close>

lemma stages_run:
  assumes "built m"
  shows "\<exists>s'. process_steps m s s' \<and> pc_closed s' \<and> length (jobs (pc_world s')) = length (jobs (pc_world s))"
proof -
  obtain k where k: "mp_scheduler m = world_scheduler k" using built_fields(8) [OF assms] by blast
  let ?s1 = "s\<lparr>pc_done := True\<rparr>"
  obtain s2 where s2: "process_steps m ?s1 s2" "pc_ticking s2 = []" "pc_done s2"
      "jobs (pc_world s2) = jobs (pc_world s)"
  proof (cases "pc_ticking s")
    case Nil
    show thesis by (rule that [of ?s1]) (simp_all add: Nil)
  next
    case (Cons e es)
    let ?s2 = "set_world ((pc_world s)\<lparr>selects := []\<rparr>) (?s1\<lparr>pc_ticking := []\<rparr>)"
    have "process_step m ?s1 ?s2"
      using process_step.send [of ?s1 m False "[]" "(pc_world s)\<lparr>selects := []\<rparr>"]
      by (simp add: Cons k enqueue_one_def letM_run prod_eq_iff world_scheduler_def select_send_def Let_def)
    then show thesis by (intro that [of ?s2]) auto
  qed
  let ?s3 = "s2\<lparr>pc_scheduling := False\<rparr>" and ?s4 = "s2\<lparr>pc_scheduling := False, pc_closed := True\<rparr>"
  have "process_step m s ?s1" by (rule process_step.cancel)
  moreover have "process_step m s2 ?s3" using s2 by (intro process_step.stop)
  moreover have "process_step m ?s3 ?s4" using process_step.close [of ?s3 m] s2(3) by simp
  ultimately have "process_steps m s ?s4"
    using s2(1) by (meson converse_rtranclp_into_rtranclp rtranclp.rtrancl_into_rtrancl)
  then show ?thesis using s2(4) by (intro exI [of _ ?s4]) simp
qed

lemma shutdown_runs:
  assumes "process_reach m s" and "built m"
  shows "\<exists>s'. process_steps m s s' \<and> pc_exited s'"
proof -
  have "length (jobs (pc_world s)) \<le> mp_workers m"
    using process_reach_ok [OF assms] by (simp add: channel_ok_def)
  moreover obtain s1 where s1: "process_steps m s s1" "pc_closed s1"
      "length (jobs (pc_world s1)) = length (jobs (pc_world s))"
    using stages_run [OF assms(2)] by blast
  ultimately obtain s2 where s2: "process_steps m s1 s2" "jobs (pc_world s2) = []" "busy s2 = 0" "pc_closed s2"
    using jobs_drain [OF assms(2), of s1] by auto
  then have "process_step m s2 (s2\<lparr>pc_exited := True\<rparr>)" by (intro process_step.exit)
  then have "process_steps m s (s2\<lparr>pc_exited := True\<rparr>)"
    using s1(1) s2(1) by (meson rtranclp.rtrancl_into_rtrancl rtranclp_trans)
  then show ?thesis by (intro exI [of _ "s2\<lparr>pc_exited := True\<rparr>"]) simp
qed

lemma process_steps_reach: "process_steps m s s' \<Longrightarrow> process_reach m s \<Longrightarrow> process_reach m s'"
  by (induction rule: rtranclp_induct) (auto intro: process_reach.step)

section \<open>Schedules\<close>

text \<open>A schedule, executed: what it computes is reached. A choice that is not enabled does nothing.\<close>

datatype process_choice =
    CRequest request | CTime nat | CDue | CSend bool | CTake | CCall nat | CCancel | CStop | CClose | CExit

fun process_do :: "('l, 'r) main_program \<Rightarrow> process_choice \<Rightarrow> 'l process \<Rightarrow> 'l process" where
  "process_do m (CRequest r) s =
     (if pc_exited s then s
      else case serve (mp_rate m) (mp_api m) r \<lparr>se_world = pc_world s, se_limiter = pc_limiter s\<rparr> of
             (res, sv) \<Rightarrow> set_world (se_world sv) (s\<lparr>pc_limiter := se_limiter sv\<rparr>))"
| "process_do m (CTime n) s = set_world (tick n (pc_world s)) s"
| "process_do m CDue s =
     (if pc_scheduling s \<and> pc_ticking s = []
      then case tick_list (mp_scheduler m) (pc_world s) of
             (rows, w) \<Rightarrow> set_world w (s\<lparr>pc_ticking := rows\<rparr>)
      else s)"
| "process_do m (CSend coin) s =
     (if pc_ticking s = [] then s
      else case enqueue_one (mp_scheduler m) (pc_ticking s)
                  ((pc_world s)\<lparr>selects := [(0, pc_done s, coin)]\<rparr>) of
             (rows, w) \<Rightarrow> set_world w (s\<lparr>pc_ticking := rows\<rparr>))"
| "process_do m CTake s =
     (if busy s < mp_workers m
      then case jobs (pc_world s) of
             [] \<Rightarrow> s
           | j # js \<Rightarrow> s\<lparr>pc_started := pc_started s @ [j],
               pc_pool := (pc_pool s)\<lparr>po_polls := po_polls (pc_pool s) @ [ProcessEvent True (mp_unsubscribe m) j],
                 po_world := (pc_world s)\<lparr>jobs := js\<rparr>\<rparr>\<rparr>
      else s)"
| "process_do m (CCall i) s =
     (if i < length (po_polls (pc_pool s)) then s\<lparr>pc_pool := pool_call (mp_deps m) i (pc_pool s)\<rparr> else s)"
| "process_do m CCancel s = s\<lparr>pc_done := True\<rparr>"
| "process_do m CStop s = (if pc_done s \<and> pc_ticking s = [] then s\<lparr>pc_scheduling := False\<rparr> else s)"
| "process_do m CClose s = (if pc_done s \<and> \<not> pc_scheduling s then s\<lparr>pc_closed := True\<rparr> else s)"
| "process_do m CExit s =
     (if pc_closed s \<and> jobs (pc_world s) = [] \<and> busy s = 0 then s\<lparr>pc_exited := True\<rparr> else s)"

lemma process_do_step: "process_do m c s = s \<or> process_step m s (process_do m c s)"
proof (cases c)
  case (CRequest r)
  obtain res sv where "serve (mp_rate m) (mp_api m) r \<lparr>se_world = pc_world s, se_limiter = pc_limiter s\<rparr> = (res, sv)"
    by force
  then show ?thesis using process_step.request [of s m r res sv] by (simp add: CRequest)
next
  case CDue
  obtain rows w where "tick_list (mp_scheduler m) (pc_world s) = (rows, w)" by force
  then show ?thesis using process_step.due [of s m rows w] by (simp add: CDue)
next
  case (CSend coin)
  obtain rows w where "enqueue_one (mp_scheduler m) (pc_ticking s)
      ((pc_world s)\<lparr>selects := [(0, pc_done s, coin)]\<rparr>) = (rows, w)" by force
  then show ?thesis using process_step.send [of s m coin rows w] by (simp add: CSend)
next
  case CTake
  then show ?thesis using process_step.take [of s _ _ m] by (auto split: list.split)
next
  case (CCall i)
  then show ?thesis using process_step.call [of i s m] by simp
next
  case (CTime n)
  then show ?thesis using process_step.time [of m s n] by simp
next
  case CCancel
  then show ?thesis using process_step.cancel [of m s] by simp
next
  case CStop
  then show ?thesis using process_step.stop [of s m] by simp
next
  case CClose
  then show ?thesis using process_step.close [of s m] by simp
next
  case CExit
  then show ?thesis using process_step.exit [of s m] by simp
qed

lemma process_run_reach: "process_reach m s \<Longrightarrow> process_reach m (fold (process_do m) cs s)"
proof (induction cs arbitrary: s)
  case (Cons c cs)
  have "process_reach m (process_do m c s)"
    using process_do_step [of m c s] Cons.prems process_reach.step by metis
  then show ?case using Cons.IH by simp
qed simp

definition ex_libs :: "string \<Rightarrow> (unit, unit) main_libs" where
  "ex_libs status =
     \<lparr>ml_env = \<lparr>os_Getenv = (\<lambda>k. if k = ''TM_API_KEY'' then ''k'' else []),
        ParseFloat = (\<lambda>_. None), ParseDuration = (\<lambda>_. None)\<rparr>,
      ml_migration = \<lparr>sql_Open = (\<lambda>_. Inr ()), goose_SetDialect = (\<lambda>_. Inr ()), goose_Up = (\<lambda>_ _. Inr ())\<rparr>,
      ml_pgxpool = (\<lambda>_. Inr ()), ml_auth = ex_lib, ml_NewRequest = (\<lambda>_. Inr ()),
      ml_decodeSearch = (\<lambda>_. Inr []), ml_decodeEvent = (\<lambda>_. Inr (ex_tm status)), ml_Marshal = (\<lambda>_. []),
      ml_json = ex_json, ml_Match = ex_match, ml_unrouted = (\<lambda>_. WriteHeader 404),
      ml_Dist = Inr \<lparr>fs_Open = (\<lambda>_. False), fs_index = None, fs_ServeHTTP = (\<lambda>_. WriteHeader 200)\<rparr>,
      ml_rate = ex_rate_lib, ml_loc = 0\<rparr>"

definition ex_main :: "(unit, unit) main_program" where
  "ex_main = (case main_start (ex_libs ''offsale'') ex_world of Inr m \<Rightarrow> m | Inl _ \<Rightarrow> undefined)"

text \<open>A request without a session, a tick, the poll of the due event by one worker, and the
  shutdown, cancelled while the poll runs.\<close>

definition ex_schedule :: "process_choice list" where
  "ex_schedule = [CRequest (ex_request ''GET'' ''/api/watches'' ''bad''), CDue, CSend True, CTake, CCall 0,
     CCancel, CStop, CClose] @ replicate 12 (CCall 0) @ [CExit]"

definition ex_process :: "unit process" where
  "ex_process = fold (process_do ex_main) ex_schedule (process_init ex_main)"

lemma ex_main_start: "main_start (ex_libs ''offsale'') ex_world = Inr ex_main"
proof -
  have "\<exists>m. main_start (ex_libs ''offsale'') ex_world = Inr m"
    by (simp add: main_start_def ex_libs_def Load_def Migrate_def getenvInt_def getenv_def Let_def)
  then show ?thesis by (auto simp: ex_main_def)
qed

lemma ex_process_run: "(pc_exited ex_process, pc_started ex_process) = (True, [1])"
  by code_simp

lemma ex_process_reach: "process_reach ex_main ex_process"
  unfolding ex_process_def by (intro process_run_reach process_reach.start)

lemma ex_world_start: "reachable_db (tables ex_world)" "0 \<le> clock ex_world"
  using ex_db_reachable by (simp_all add: ex_world_def)

lemma main_start_built:
  assumes "main_start libs w = Inr m" and "reachable_db (tables w)" and "0 \<le> clock w"
  shows "built m"
  using assms(1)
proof (rule main_startE)
  fix cfg staticFS
  assume "m = main_build libs cfg staticFS w"
  with assms(2,3) show ?thesis unfolding built_def by blast
qed

section \<open>Properties\<close>

text \<open>(C4) Whatever the process does, in whatever order, its pool of polls is one that theory Pool
  reaches, so every result on the pool is a result on the process: no milestone is handed to the
  notifier twice, although requests, ticks and polls run together.\<close>
theorem process_refines_pool:
  assumes "main_start libs w = Inr m" and "reachable_db (tables w)" and "0 \<le> clock w"
    and "process_reach m s"
  shows "pool_reach (mp_deps m) stmt_rel (mp_world m) (pc_pool s) \<and>
    distinct (filter once_kind (map alert_pair (po_alerts (pc_pool s))))"
proof
  have b: "built m" by (rule main_start_built [OF assms(1-3)])
  show r: "pool_reach (mp_deps m) stmt_rel (mp_world m) (pc_pool s)" by (rule process_refines [OF assms(4) b])
  have "db_ok (tables (mp_world m))" using built_fields(1) [OF b] by (rule reachable_db_ok)
  moreover obtain cfg where "mp_deps m = main_worker_deps libs cfg"
    using assms(1) by (auto simp: main_build_def elim: main_startE)
  ultimately show "distinct (filter once_kind (map alert_pair (po_alerts (pc_pool s))))"
    using alerts.told_once r
    unfolding alerts.told_def main_worker_deps_def main_sender_def by metis
qed

theorem process_refines_pool_witness:
  "pool_reach (mp_deps ex_main) stmt_rel (mp_world ex_main) (pc_pool ex_process)"
  using process_refines_pool [OF ex_main_start ex_world_start ex_process_reach] by blast

text \<open>(C5) In every state of the process: the tables are ones the program's statements can produce,
  the counters of the quota are within the configured budgets, the inbound limiter is tidy, what
  was put on the jobs channel is, in order, what the workers took and what it holds, it never
  holds more than it can, and no more polls run than there are workers.\<close>
theorem process_invariant:
  assumes "main_start libs w = Inr m" and "reachable_db (tables w)" and "0 \<le> clock w"
    and "process_reach m s"
  shows "reachable_db (tables (pc_world s)) \<and>
    (\<forall>c. 0 \<le> dq_used (quota (pc_world s)) c \<and>
         dq_used (quota (pc_world s)) c \<le> max 0 (dq_budget (quota (mp_world m)) c)) \<and>
    limiter_ok (clock (pc_world s)) (pc_limiter s) \<and>
    enqueued (pc_world s) = pc_started s @ jobs (pc_world s) \<and>
    length (jobs (pc_world s)) \<le> mp_workers m \<and> busy s \<le> mp_workers m"
proof -
  have "data_ok (quota (mp_world m)) (pc_world s) (pc_limiter s) \<and> channel_ok m s \<and> stages_ok s"
    by (rule process_reach_ok [OF assms(4) main_start_built [OF assms(1-3)]])
  then show ?thesis
    by (auto simp: data_ok_def channel_ok_def quota_ok_def max_def not_le)
qed

theorem process_invariant_witness:
  "enqueued (pc_world ex_process) = pc_started ex_process @ jobs (pc_world ex_process) \<and>
   busy ex_process \<le> mp_workers ex_main"
  using process_invariant [OF ex_main_start ex_world_start ex_process_reach] by blast

text \<open>(C6) The shutdown is in order: after the jobs channel is closed nothing is ever sent on it, and
  when the process exits, every job that was put on the channel has been taken and its poll has
  returned.\<close>
theorem shutdown_loses_no_job:
  assumes "main_start libs w = Inr m" and "reachable_db (tables w)" and "0 \<le> clock w"
    and "process_reach m s"
  shows "(pc_closed s \<longrightarrow> (\<forall>s'. process_step m s s' \<longrightarrow> enqueued (pc_world s') = enqueued (pc_world s))) \<and>
    (pc_exited s \<longrightarrow> pc_started s = enqueued (pc_world s) \<and> (\<forall>p\<in>set (po_polls (pc_pool s)). finished p))"
proof -
  have b: "built m" by (rule main_start_built [OF assms(1-3)])
  note ok = process_reach_ok [OF assms(4) b]
  have "enqueued (pc_world s') = enqueued (pc_world s)" if "pc_closed s" "process_step m s s'" for s'
    using that(2)
  proof cases
    case (request r res sv)
    then show ?thesis using request_step(1) [OF b request(3)] by (simp add: frame_rel_def)
  next
    case (call i)
    then show ?thesis by (simp add: call_channel [OF b])
  qed (use ok that(1) in \<open>auto simp: stages_ok_def tick_def\<close>)
  moreover have "\<forall>p\<in>set (po_polls (pc_pool s)). finished p" if "pc_exited s"
    using ok that by (simp add: stages_ok_def busy_def filter_empty_conv)
  ultimately show ?thesis using ok by (simp add: stages_ok_def channel_ok_def)
qed

theorem shutdown_loses_no_job_witness:
  "pc_exited ex_process \<and> enqueued (pc_world ex_process) = [1] \<and>
   filter (\<lambda>p. \<not> finished p) (po_polls (pc_pool ex_process)) = []"
  using shutdown_loses_no_job [OF ex_main_start ex_world_start ex_process_reach] ex_process_run
  by (simp add: filter_empty_conv)

text \<open>(C18) The shutdown can always complete: from every state the process can be in, whatever is
  queued and whatever polls are running, some continuation reaches the exit. There is no deadlock
  between the scheduler, the full channel and the workers.\<close>
theorem shutdown_completes:
  assumes "main_start libs w = Inr m" and "reachable_db (tables w)" and "0 \<le> clock w"
    and "process_reach m s"
  shows "\<exists>s'. process_steps m s s' \<and> process_reach m s' \<and> pc_exited s'"
  using shutdown_runs [OF assms(4) main_start_built [OF assms(1-3)]] process_steps_reach assms(4) by blast

theorem shutdown_completes_witness:
  "\<exists>s'. process_steps ex_main (process_init ex_main) s' \<and> process_reach ex_main s' \<and> pc_exited s'"
  by (rule shutdown_completes [OF ex_main_start ex_world_start process_reach.start])

end
