(* ===== verification/Ledger.thy ===== *)
theory Ledger
  imports RateLimit
begin

text \<open>
  What the daily quota promises, without its lazy reset: a ledger that counts, for every day and
  class, the calls granted, and grants a call while the day's count is below the budget. The quota
  of \<open>quota.go\<close>, which keeps one counter per class and zeroes it when an operation first looks at
  the clock after midnight, answers every sequence of operations as the ledger does, whatever days
  are skipped. Refunds are left out: the code takes them from the counter that is there, so that a
  refund after midnight is taken from the new day (\<open>refund_across_midnight_overspends\<close>).
\<close>

section \<open>The ledger\<close>

type_synonym ledger = "int \<Rightarrow> Class \<Rightarrow> int"

definition day_of :: "duration \<Rightarrow> time \<Rightarrow> int" where
  "day_of loc t = (t + loc) div Day"

definition ledger_left :: "duration \<Rightarrow> (Class \<Rightarrow> int) \<Rightarrow> Class \<Rightarrow> time \<Rightarrow> ledger \<Rightarrow> int" where
  "ledger_left loc budget c now L = max 0 (budget c - L (day_of loc now) c)"

fun ledger_step :: "duration \<Rightarrow> (Class \<Rightarrow> int) \<Rightarrow> time \<Rightarrow> quota_op \<Rightarrow> ledger \<Rightarrow> ledger" where
  "ledger_step loc budget now (OpReserve c) L =
     (if 0 < ledger_left loc budget c now L
      then L(day_of loc now := (L (day_of loc now))(c := L (day_of loc now) c + 1)) else L)"
| "ledger_step loc budget now _ L = L"

text \<open>What an operation answers: whether a call is granted, how many are left, how many were used.\<close>

datatype answer = Granted bool | Left int | Used "int \<times> int" | NoAnswer

fun ledger_answer :: "duration \<Rightarrow> (Class \<Rightarrow> int) \<Rightarrow> time \<Rightarrow> quota_op \<Rightarrow> ledger \<Rightarrow> answer" where
  "ledger_answer loc budget now (OpReserve c) L = Granted (0 < ledger_left loc budget c now L)"
| "ledger_answer loc budget now (OpRemaining c) L = Left (ledger_left loc budget c now L)"
| "ledger_answer loc budget now OpSnapshot L =
     Used (L (day_of loc now) ClassPoll, L (day_of loc now) ClassSearch)"
| "ledger_answer loc budget now (OpRelease c) L = NoAnswer"

fun quota_answer :: "time \<Rightarrow> quota_op \<Rightarrow> dailyQuota \<Rightarrow> answer" where
  "quota_answer now (OpReserve c) q = Granted (fst (Reserve c now q) = Inr ())"
| "quota_answer now (OpRemaining c) q = Left (fst (Remaining c now q))"
| "quota_answer now OpSnapshot q =
     (case fst (Snapshot now q) of (used, _, _) \<Rightarrow> Used (used ClassPoll, used ClassSearch))"
| "quota_answer now (OpRelease c) q = NoAnswer"

fun quota_trace :: "(time \<times> quota_op) list \<Rightarrow> dailyQuota \<Rightarrow> answer list" where
  "quota_trace [] q = []"
| "quota_trace ((now, x) # es) q = quota_answer now x q # quota_trace es (quota_step now x q)"

fun ledger_trace ::
  "duration \<Rightarrow> (Class \<Rightarrow> int) \<Rightarrow> (time \<times> quota_op) list \<Rightarrow> ledger \<Rightarrow> answer list" where
  "ledger_trace loc budget [] L = []"
| "ledger_trace loc budget ((now, x) # es) L =
     ledger_answer loc budget now x L # ledger_trace loc budget es (ledger_step loc budget now x L)"

section \<open>The simulation\<close>

text \<open>The counters are the ledger's page of the day the quota was last touched, and the pages of
  later days are empty.\<close>

definition on_page :: "duration \<Rightarrow> time \<Rightarrow> dailyQuota \<Rightarrow> ledger \<Rightarrow> bool" where
  "on_page loc u q L \<longleftrightarrow> dq_loc q = loc \<and> dq_resetAt q = nextMidnight loc u \<and>
     dq_used q = L (day_of loc u) \<and> (\<forall>d>day_of loc u. \<forall>c. L d c = 0)"

lemma nextMidnight_day: "nextMidnight loc t = (day_of loc t + 1) * Day - loc"
  by (simp add: nextMidnight_eq day_of_def)

lemma day_of_mono: "t \<le> u \<Longrightarrow> day_of loc t \<le> day_of loc u"
  using Day_pos by (simp add: day_of_def zdiv_mono1)

lemma day_of_less: "nextMidnight loc t \<le> u \<Longrightarrow> day_of loc t < day_of loc u"
proof -
  assume "nextMidnight loc t \<le> u"
  then have "(day_of loc t + 1) * Day div Day \<le> (u + loc) div Day"
    using Day_pos by (intro zdiv_mono1) (simp_all add: nextMidnight_day)
  then show ?thesis using Day_pos by (simp add: day_of_def)
qed

lemma day_of_same: "t \<le> u \<Longrightarrow> u < nextMidnight loc t \<Longrightarrow> day_of loc u = day_of loc t"
  using nextMidnight_same_day [of t u loc] Day_pos by (simp add: nextMidnight_day)

text \<open>The reset turns the page.\<close>

lemma turn_page:
  assumes "on_page loc u q L" and "u \<le> now"
  shows "on_page loc now (maybeReset now q) L"
proof (cases "now < nextMidnight loc u")
  case True
  then show ?thesis
    using assms day_of_same [OF assms(2) True] nextMidnight_same_day [OF assms(2) True]
    by (simp add: on_page_def)
next
  case False
  then have "day_of loc u < day_of loc now" by (intro day_of_less) simp
  with assms(1) False show ?thesis by (simp add: on_page_def maybeReset_def fun_eq_iff)
qed

lemma on_page_step:
  assumes "on_page loc u q L" and "u \<le> now" and "dq_budget q = budget" and "\<forall>c. x \<noteq> OpRelease c"
  shows "quota_answer now x q = ledger_answer loc budget now x L \<and>
    on_page loc now (quota_step now x q) (ledger_step loc budget now x L)"
proof -
  note page = turn_page [OF assms(1,2)]
  have budget: "dq_budget (maybeReset now q) = budget" using assms(3) by (simp add: maybeReset_def)
  show ?thesis
    using page budget assms(4)
    by (cases x)
      (auto simp: on_page_def Reserve_def Remaining_def Snapshot_def Let_def ledger_left_def max_def)
qed

lemma quota_trace_ledger:
  assumes "on_page loc u q L" and "sorted (u # map fst es)" and "dq_budget q = budget"
    and "\<forall>e\<in>set es. \<forall>c. snd e \<noteq> OpRelease c"
  shows "quota_trace es q = ledger_trace loc budget es L"
  using assms
proof (induction es arbitrary: u q L)
  case (Cons e es)
  obtain now x where e: "e = (now, x)" by (cases e)
  note step = on_page_step [OF Cons.prems(1) _ Cons.prems(3), of now x]
  show ?case
    using step Cons.prems(2-4) Cons.IH [of now "quota_step now x q" "ledger_step loc budget now x L"]
    by (simp add: e)
qed simp

section \<open>Property\<close>

text \<open>(C12) The quota refines the ledger: for operations at times that do not go back, each
  reservation is granted exactly when fewer calls than the budget were granted on its calendar day,
  and \<open>Remaining\<close> and \<open>Snapshot\<close> report that day's count, however many midnights passed between
  two operations.\<close>
theorem quota_refines_ledger:
  assumes "sorted (now # map fst es)" and "\<forall>e\<in>set es. \<forall>c. snd e \<noteq> OpRelease c"
  shows "quota_trace es (NewDailyQuota loc p s now) =
    ledger_trace loc (\<lambda>c. case c of ClassPoll \<Rightarrow> p | ClassSearch \<Rightarrow> s) es (\<lambda>_ _. 0)"
  using assms
  by (intro quota_trace_ledger [of _ now]) (simp_all add: on_page_def NewDailyQuota_def fun_eq_iff)

text \<open>A budget of one: the second request of the day is refused, the first of a later day is not.\<close>
theorem quota_refines_ledger_witness:
  "ledger_trace 0 (\<lambda>c. case c of ClassPoll \<Rightarrow> 1 | ClassSearch \<Rightarrow> 0)
     [(5, OpReserve ClassPoll), (6, OpReserve ClassPoll), (3 * Day, OpRemaining ClassPoll),
      (3 * Day, OpReserve ClassPoll)] (\<lambda>_ _. 0) = [Granted True, Granted False, Left 1, Granted True] \<and>
   quota_trace [(5, OpReserve ClassPoll), (6, OpReserve ClassPoll), (3 * Day, OpRemaining ClassPoll),
      (3 * Day, OpReserve ClassPoll)] (NewDailyQuota 0 1 0 0) =
     [Granted True, Granted False, Left 1, Granted True]"
proof -
  let ?es = "[(5, OpReserve ClassPoll), (6, OpReserve ClassPoll), (3 * Day, OpRemaining ClassPoll),
      (3 * Day, OpReserve ClassPoll)]"
  have l: "ledger_trace 0 (\<lambda>c. case c of ClassPoll \<Rightarrow> 1 | ClassSearch \<Rightarrow> 0) ?es (\<lambda>_ _. 0) =
      [Granted True, Granted False, Left 1, Granted True]"
    by code_simp
  have "sorted (0 # map fst ?es)" by (simp add: Day_def Hour_def)
  then have "quota_trace ?es (NewDailyQuota 0 1 0 0) =
      ledger_trace 0 (\<lambda>c. case c of ClassPoll \<Rightarrow> 1 | ClassSearch \<Rightarrow> 0) ?es (\<lambda>_ _. 0)"
    by (rule quota_refines_ledger) simp
  with l show ?thesis by (simp only:)
qed

end
