(* ===== verification/PollRun.thy ===== *)
theory PollRun
  imports PoolWorld
begin

text \<open>
  What a poll that is not disturbed does, in full: the alerts it hands to the notifier are, watch by
  watch and milestone by milestone, those that are due, were not told before and may be sent; and
  every milestone that is due is claimed by it. The safety results of theory PoolWorld say that no
  alert is sent twice or without consent; this one says that alerts are sent.
\<close>

section \<open>The alerts of a run\<close>

primrec alerts_of :: "'w Deps \<Rightarrow> 'a act \<Rightarrow> 'w \<Rightarrow> Alert list" where
  "alerts_of d (Return x) w = []"
| "alerts_of d (DoGetEvent i k) w = (case d_GetEvent d i w of (r, w) \<Rightarrow> alerts_of d (k r) w)"
| "alerts_of d (DoFetch i k) w = (case d_Fetch d i w of (r, w) \<Rightarrow> alerts_of d (k r) w)"
| "alerts_of d (DoInsertSnapshot i s k) w = (case d_InsertSnapshot d i s w of (r, w) \<Rightarrow> alerts_of d (k r) w)"
| "alerts_of d (DoMinPollInterval i k) w = (case d_MinPollInterval d i w of (r, w) \<Rightarrow> alerts_of d (k r) w)"
| "alerts_of d (DoNow k) w = (case d_Now d w of (r, w) \<Rightarrow> alerts_of d (k r) w)"
| "alerts_of d (DoUpdateEventLatest p k) w = (case d_UpdateEventLatest d p w of (r, w) \<Rightarrow> alerts_of d (k r) w)"
| "alerts_of d (DoListActiveWatches i k) w = (case d_ListActiveWatches d i w of (r, w) \<Rightarrow> alerts_of d (k r) w)"
| "alerts_of d (DoClaimWatchAlert i s k) w = (case d_ClaimWatchAlert d i s w of (r, w) \<Rightarrow> alerts_of d (k r) w)"
| "alerts_of d (DoNotify a k) w = a # (case d_Notify d a w of (r, w) \<Rightarrow> alerts_of d (k r) w)"
| "alerts_of d (DoMarkNotified i k) w = (case d_MarkNotified d i w of (r, w) \<Rightarrow> alerts_of d (k r) w)"
| "alerts_of d (DoSetLastEvaluation i b k) w = (case d_SetLastEvaluation d i b w of (r, w) \<Rightarrow> alerts_of d (k r) w)"
| "alerts_of d (DoCloseWatches i k) w = (case d_CloseWatches d i w of (r, w) \<Rightarrow> alerts_of d (k r) w)"

text \<open>The alerts, the result and the world of a run, together.\<close>

definition outcome_of :: "'w Deps \<Rightarrow> 'a act \<Rightarrow> 'w \<Rightarrow> Alert list \<times> 'a \<times> 'w" where
  "outcome_of d m w = (alerts_of d m w, run d m w)"

lemma alerts_of_bind:
  "alerts_of d (act_bind m f) w = alerts_of d m w @ (case run d m w of (x, w') \<Rightarrow> alerts_of d (f x) w')"
  by (induction m arbitrary: w) (simp_all add: letM_def ret_def split_beta)

lemma outcome_of_bind:
  assumes "outcome_of d m w = (as, x, w')" and "outcome_of d (f x) w' = (bs, y, w'')"
  shows "outcome_of d (act_bind m f) w = (as @ bs, y, w'')"
  using assms by (simp add: outcome_of_def alerts_of_bind run_bind letM_def)

section \<open>Undisturbed worlds\<close>

definition claimed :: "database \<Rightarrow> (int \<times> string) set" where
  "claimed d = (\<lambda>a. (a_WatchID a, a_Kind a)) ` set (watch_alerts d)"

text \<open>No failure is scheduled; \<open>I\<close> are the ids of the watches, \<open>C\<close> the claims.\<close>

definition undisturbed :: "int set \<Rightarrow> (int \<times> string) set \<Rightarrow> world \<Rightarrow> bool" where
  "undisturbed I C w \<longleftrightarrow> outcomes w = [] \<and> w_ID ` set (watches (tables w)) = I \<and> claimed (tables w) = C"

definition calm_notify :: "(Alert \<Rightarrow> (world, unit) prog) \<Rightarrow> bool" where
  "calm_notify notify \<longleftrightarrow> (\<forall>a I C w. undisturbed I C w \<longrightarrow> undisturbed I C (snd (notify a w)))"

lemma undisturbed_claim:
  assumes "undisturbed I C w" and "i \<in> I"
  shows "fst (exec (ClaimWatchAlert i k) w) = Inr (if (i, k) \<in> C then 0 else 1)"
    and "undisturbed I (insert (i, k) C) (snd (exec (ClaimWatchAlert i k) w))"
proof -
  have "(\<exists>a\<in>set (watch_alerts (tables w)). a_WatchID a = i \<and> a_Kind a = k) \<longleftrightarrow> (i, k) \<in> C"
    using assms(1) by (auto simp: undisturbed_def claimed_def)
  moreover have "\<exists>x\<in>set (watches (tables w)). w_ID x = i" using assms by (auto simp: undisturbed_def)
  ultimately show "fst (exec (ClaimWatchAlert i k) w) = Inr (if (i, k) \<in> C then 0 else 1)"
    and "undisturbed I (insert (i, k) C) (snd (exec (ClaimWatchAlert i k) w))"
    using assms(1) by (auto simp: undisturbed_def ClaimWatchAlert_def claimed_def insert_absorb)
qed

lemma ids_update: "(\<And>x. w_ID (f x) = w_ID x) \<Longrightarrow> w_ID ` set (update_where P f xs) = w_ID ` set xs"
  unfolding update_where_def set_map by (rule image_cong_update) simp

lemma undisturbed_writes:
  assumes "undisturbed I C w"
  shows "fst (exec (MarkNotified i) w) = Inr ()" "undisturbed I C (snd (exec (MarkNotified i) w))"
    "fst (exec (SetLastEvaluation i b) w) = Inr ()" "undisturbed I C (snd (exec (SetLastEvaluation i b) w))"
    "\<exists>n. fst (exec (CloseWatchesForEvent i) w) = Inr n" "undisturbed I C (snd (exec (CloseWatchesForEvent i) w))"
  using assms
  by (simp_all add: undisturbed_def MarkNotified_def SetLastEvaluation_def CloseWatchesForEvent_def Let_def
      claimed_def ids_update)

section \<open>What is due\<close>

definition may_send :: "activeWatchRow \<Rightarrow> bool" where
  "may_send row \<longleftrightarrow> ts_Valid (r_EmailVerifiedAt row) \<and> \<not> ts_Valid (r_UnsubscribedAt row)"

text \<open>The milestones of a row that were not told, and the claims of those that are claimed.\<close>

definition untold :: "(int \<times> string) set \<Rightarrow> activeWatchRow \<Rightarrow> Kind list \<Rightarrow> Kind list" where
  "untold C row kinds = filter (\<lambda>k. needsClaim k \<longrightarrow> (r_ID row, kind_string k) \<notin> C) kinds"

definition claims :: "activeWatchRow \<Rightarrow> Kind list \<Rightarrow> (int \<times> string) set" where
  "claims row kinds = (\<lambda>k. (r_ID row, kind_string k)) ` {k \<in> set kinds. needsClaim k}"

definition row_kinds :: "Observation \<Rightarrow> bool \<Rightarrow> activeWatchRow \<Rightarrow> Kind list" where
  "row_kinds obs knew row = res_Kinds (Evaluate obs
     \<lparr>pr_KnewPublicStart = knew, pr_LastEvaluation = r_LastEvaluation row,
      pr_WatchCreatedAt = ts_Time (r_CreatedAt row)\<rparr>)"

definition due_alerts ::
  "(int \<times> string) set \<Rightarrow> (activeWatchRow \<Rightarrow> Kind \<Rightarrow> Alert) \<Rightarrow> Observation \<Rightarrow> bool \<Rightarrow> activeWatchRow list
    \<Rightarrow> Alert list" where
  "due_alerts C mk obs knew rows =
     concat (map (\<lambda>row. if may_send row then map (mk row) (untold C row (row_kinds obs knew row)) else []) rows)"

section \<open>The loops\<close>

lemma outcome_kinds:
  assumes "calm_notify notify" and "undisturbed I C w" and "r_ID row \<in> I" and "distinct kinds"
  shows "\<exists>w'. outcome_of (world_deps fetch notify) (alert_kinds True mk row kinds) w =
      (if may_send row then map mk (untold C row kinds) else [], Inr (), w') \<and>
    undisturbed I (C \<union> claims row kinds) w'"
  using assms(2,4)
proof (induction kinds arbitrary: C w)
  case Nil
  then show ?case by (simp add: outcome_of_def untold_def claims_def ret_def)
next
  case (Cons kind kinds)
  let ?d = "world_deps fetch notify" and ?p = "(r_ID row, kind_string kind)"
  have new: "untold (insert ?p C') row kinds = untold C' row kinds" for C'
    using Cons.prems(2) by (auto simp: untold_def intro: filter_cong)
  have rest: "\<exists>w'. outcome_of ?d (alert_kinds True mk row kinds) w1 =
        (if may_send row then map mk (untold D row kinds) else [], Inr (), w') \<and>
      undisturbed I (D \<union> claims row kinds) w'" if "undisturbed I D w1" for D w1
    using Cons.IH [OF that] Cons.prems(2) by simp
  have tell: "\<exists>w'. outcome_of ?d (DoNotify (mk kind) (\<lambda>_. DoMarkNotified (r_ID row) (\<lambda>r. case r of
                   Inl e \<Rightarrow> Return (Inl (Wrap ''mark notified: '' e))
                 | Inr _ \<Rightarrow> alert_kinds True mk row kinds))) w1 =
        (mk kind # (if may_send row then map mk (untold D row kinds) else []), Inr (), w') \<and>
      undisturbed I (D \<union> claims row kinds) w'" if "undisturbed I D w1" for D w1
  proof -
    let ?w2 = "snd (notify (mk kind) w1)"
    have "undisturbed I D ?w2" using assms(1) that by (simp add: calm_notify_def)
    note mark = undisturbed_writes(1,2) [OF this, of "r_ID row"]
    show ?thesis
      using rest [OF mark(2)] mark(1)
      by (simp add: outcome_of_def world_deps_def letM_run split_beta)
  qed
  show ?case
  proof (cases "needsClaim kind")
    case True
    let ?w1 = "snd (exec (ClaimWatchAlert (r_ID row) (kind_string kind)) w)"
    note cl = undisturbed_claim [OF Cons.prems(1) assms(3), of "kind_string kind"]
    have c: "claims row (kind # kinds) = insert ?p (claims row kinds)"
      using True by (auto simp: claims_def)
    have u: "untold C row (kind # kinds) = (if ?p \<in> C then [] else [kind]) @ untold C row kinds"
      using True by (simp add: untold_def)
    show ?thesis
      using rest [OF cl(2)] tell [OF cl(2)] cl(1) True
      by (auto simp: outcome_of_def world_deps_def letM_run split_beta may_send_def c u new Let_def insert_absorb)
  next
    case False
    then have c: "claims row (kind # kinds) = claims row kinds" by (auto simp: claims_def)
    have u: "untold C row (kind # kinds) = kind # untold C row kinds" using False by (simp add: untold_def)
    show ?thesis
      using rest [OF Cons.prems(1)] tell [OF Cons.prems(1)] False
      by (auto simp: outcome_of_def world_deps_def letM_run split_beta may_send_def c u Let_def)
  qed
qed

lemma due_alerts_Cons: "due_alerts C mk obs knew (row # rows) =
    (if may_send row then map (mk row) (untold C row (row_kinds obs knew row)) else []) @
    due_alerts C mk obs knew rows"
  by (simp add: due_alerts_def)

lemma untold_other: "r_ID row \<noteq> r_ID a \<Longrightarrow> untold (C \<union> claims row kinds) a ks = untold C a ks"
  unfolding untold_def claims_def by (rule filter_cong) auto

lemma due_alerts_other:
  assumes "r_ID row \<notin> r_ID ` set rows"
  shows "due_alerts (C \<union> claims row kinds) mk obs knew rows = due_alerts C mk obs knew rows"
  using assms
  by (induction rows) (auto simp: due_alerts_def untold_other)

lemma outcome_watches:
  assumes "calm_notify notify" and "undisturbed I C w" and "r_ID ` set rows \<subseteq> I" and "distinct (map r_ID rows)"
  shows "\<exists>w' close. outcome_of (world_deps fetch notify) (alert_watches True mk obs knew rows c) w =
      (due_alerts C mk obs knew rows, Inr close, w') \<and>
    undisturbed I (C \<union> (\<Union>row\<in>set rows. claims row (row_kinds obs knew row))) w'"
  using assms(2-)
proof (induction rows arbitrary: C w c)
  case Nil
  then show ?case by (simp add: outcome_of_def due_alerts_def ret_def)
next
  case (Cons row rows)
  let ?d = "world_deps fetch notify" and ?ks = "row_kinds obs knew row"
  let ?C = "C \<union> claims row ?ks"
  obtain w1 where w1: "outcome_of ?d (alert_kinds True (mk row) row ?ks) w =
      (if may_send row then map (mk row) (untold C row ?ks) else [], Inr (), w1)" "undisturbed I ?C w1"
    using outcome_kinds [OF assms(1) Cons.prems(1), where row = row and kinds = ?ks and mk = "mk row" and fetch = fetch] Cons.prems(2)
    by (auto simp: row_kinds_def Evaluate_distinct)
  obtain b c' where alert: "alert_watches True mk obs knew (row # rows) c =
      act_bind (alert_kinds True (mk row) row ?ks) (\<lambda>r. case r of
           Inl e \<Rightarrow> Return (Inl e)
         | Inr _ \<Rightarrow> DoSetLastEvaluation (r_ID row) b (\<lambda>r. case r of
             Inl e \<Rightarrow> Return (Inl (Wrap ''set last evaluation: '' e))
           | Inr _ \<Rightarrow> alert_watches True mk obs knew rows c'))"
    unfolding alert_watches.simps Let_def row_kinds_def by blast
  note set = undisturbed_writes(3,4) [OF w1(2), of "r_ID row" b]
  obtain w2 close where w2: "outcome_of ?d (alert_watches True mk obs knew rows c')
      (snd (exec (SetLastEvaluation (r_ID row) b) w1)) = (due_alerts ?C mk obs knew rows, Inr close, w2)"
    "undisturbed I (?C \<union> (\<Union>row\<in>set rows. claims row (row_kinds obs knew row))) w2"
    using Cons.IH [OF set(2), of c'] Cons.prems(2,3) by auto
  have after: "outcome_of ?d (DoSetLastEvaluation (r_ID row) b (\<lambda>r. case r of
             Inl e \<Rightarrow> Return (Inl (Wrap ''set last evaluation: '' e))
           | Inr _ \<Rightarrow> alert_watches True mk obs knew rows c')) w1 =
      (due_alerts C mk obs knew rows, Inr close, w2)"
    using w2(1) set(1) due_alerts_other [of row rows] Cons.prems(3)
    by (simp add: outcome_of_def world_deps_def letM_run split_beta)
  have "outcome_of ?d (alert_watches True mk obs knew (row # rows) c) w =
      (due_alerts C mk obs knew (row # rows), Inr close, w2)"
    unfolding alert due_alerts_Cons by (rule outcome_of_bind [OF w1(1)]) (simp only: sum.case after)
  then show ?case using w2(2) by (auto simp: Un_assoc)
qed

section \<open>The poll\<close>

definition active_rows :: "int \<Rightarrow> database \<Rightarrow> activeWatchRow list" where
  "active_rows i d = [active_row w u. w \<leftarrow> watches d, u \<leftarrow> users d, u_ID u = w_UserID w \<and>
     w_EventID w = i \<and> w_Status w = ''active'']"

lemma concat_ids:
  assumes "\<And>x. map f (g x) \<in> {[], [h x]}" and "distinct (map h xs)"
  shows "distinct (map f (concat (map g xs))) \<and> f ` set (concat (map g xs)) \<subseteq> h ` set xs"
  using assms(2)
proof (induction xs)
  case (Cons x xs)
  have "map f (g x) \<in> {[], [h x]}" by (rule assms(1))
  then consider "g x = []" | z where "g x = [z]" "f z = h x" by (auto simp: map_eq_Cons_conv)
  then show ?case
  proof cases
    case 2
    have all: "concat (map g (x # xs)) = z # concat (map g xs)" using 2 by simp
    have "h x \<notin> f ` set (concat (map g xs))" using Cons by auto
    then show ?thesis using Cons 2(2) unfolding all by (auto simp del: set_concat)
  qed (use Cons in auto)
qed simp

lemma rows_of_one_watch:
  "distinct (map u_ID us) \<Longrightarrow>
    map r_ID (concat (map (\<lambda>u. if u_ID u = k \<and> P then [active_row x u] else []) us)) \<in> {[], [w_ID x]}"
proof (induction us)
  case (Cons u us)
  have "concat (map (\<lambda>u. if u_ID u = k \<and> P then [active_row x u] else []) us) = []" if "u_ID u = k"
    using Cons.prems that by (force simp: image_iff)
  then show ?case using Cons by (auto simp: active_row_def)
qed simp

lemma active_rows_ids:
  assumes "db_ok d"
  shows "distinct (map r_ID (active_rows i d)) \<and> r_ID ` set (active_rows i d) \<subseteq> w_ID ` set (watches d)"
  unfolding active_rows_def
  using assms by (intro concat_ids rows_of_one_watch) (simp_all add: db_ok_def keyed_def)

section \<open>The collaborators of main\<close>

definition calm_rel :: "world \<Rightarrow> world \<Rightarrow> bool" where
  "calm_rel w w' \<longleftrightarrow> (\<forall>I C. undisturbed I C w \<longrightarrow> undisturbed I C w')"

interpretation calm: world_preorder calm_rel
  by unfold_locales (simp_all add: calm_rel_def)

lemma calm_prims: "steps calm_rel (http_Do r)" "steps calm_rel (log_Print s)"
  by (auto simp: steps_def calm_rel_def undisturbed_def http_Do_def Let_def tick_def log_Print_def split: list.split)

lemma calm_insert: "steps calm_rel (exec (InsertNotification i c p))"
  by (auto simp: steps_def calm_rel_def undisturbed_def InsertNotification_def Let_def claimed_def)

lemma calm_main: "calm_notify (Notify (world_notifier [email_sender marshal nr key from_addr]))"
proof -
  have "steps calm_rel (Notify (world_notifier [email_sender marshal nr key from_addr]) a)" for a
    by (rule calm.steps_Notify) (auto intro: calm.steps_email calm_prims calm_insert)
  then show ?thesis by (simp add: calm_notify_def steps_def calm_rel_def)
qed

text \<open>A fetch changes neither the tables nor what the connection will do.\<close>

definition online_rel :: "world \<Rightarrow> world \<Rightarrow> bool" where
  "online_rel w w' \<longleftrightarrow> tables w' = tables w \<and> outcomes w' = outcomes w"

interpretation online: world_preorder online_rel
  by unfold_locales (simp_all add: online_rel_def)

lemma online_fetch: "steps online_rel (Client_GetEvent (world_client b k nr ds de) tm)"
proof -
  have "steps online_rel (Acquire world_limiter c)" for c
    by (auto simp: steps_def online_rel_def Acquire_def world_limiter_def prog_defs bucket_Wait_def sleep_def
        tick_def split: prod.split sum.split list.split option.split)
  then show ?thesis
    by (rule online.steps_client)
      (auto simp: steps_def online_rel_def http_Do_def Let_def sleep_def rand_Int63n_def time_Now_def tick_def
        split: list.split option.split prod.split)
qed

section \<open>The poll\<close>

lemma outcome_evaluate:
  assumes "calm_notify notify" and "undisturbed I C w" and "r_ID ` set (active_rows (e_ID ev) (tables w)) \<subseteq> I"
    and "distinct (map r_ID (active_rows (e_ID ev) (tables w)))"
  shows "\<exists>w'. outcome_of (world_deps fetch notify) (evaluateWatches True unsub ev snap obs knew) w =
      (due_alerts C (alert_of ev snap obs unsub) obs knew (active_rows (e_ID ev) (tables w)), Inr (), w') \<and>
    claimed (tables w') = C \<union> (\<Union>row\<in>set (active_rows (e_ID ev) (tables w)). claims row (row_kinds obs knew row))"
proof -
  let ?d = "world_deps fetch notify" and ?rows = "active_rows (e_ID ev) (tables w)"
  let ?C = "C \<union> (\<Union>row\<in>set ?rows. claims row (row_kinds obs knew row))"
  have list: "exec (ListActiveWatchesForEvent (e_ID ev)) w = (Inr ?rows, w)"
    using assms(2) by (simp add: undisturbed_def ListActiveWatchesForEvent_def active_rows_def)
  obtain w1 close where w1: "outcome_of ?d (alert_watches True (alert_of ev snap obs unsub) obs knew ?rows False) w =
      (due_alerts C (alert_of ev snap obs unsub) obs knew ?rows, Inr close, w1)" "undisturbed I ?C w1"
    using outcome_watches [OF assms] by blast
  note cl = undisturbed_writes(5,6) [OF w1(2), of "e_ID ev"]
  have ret: "outcome_of ?d (Return (Inr ()) :: unit result act) w1 = ([], Inr (), w1)"
    by (simp add: outcome_of_def ret_def)
  have closes: "outcome_of ?d (DoCloseWatches (e_ID ev) (\<lambda>r. case r of
                    Inl e \<Rightarrow> Return (Inl (Wrap ''close watches: '' e))
                  | Inr n \<Rightarrow> Return (Inr ()))) w1 = ([], Inr (), snd (exec (CloseWatchesForEvent (e_ID ev)) w1))"
    using cl(1) by (auto simp: outcome_of_def world_deps_def letM_run ret_def split_beta)
  show ?thesis
  proof (cases close)
    case True
    show ?thesis
      using outcome_of_bind [OF w1(1), where f = "\<lambda>r. case r of Inl e \<Rightarrow> Return (Inl e) | Inr closeEvent \<Rightarrow>
             if closeEvent then DoCloseWatches (e_ID ev) (\<lambda>r. case r of
                    Inl e \<Rightarrow> Return (Inl (Wrap ''close watches: '' e))
                  | Inr n \<Rightarrow> Return (Inr ()))
             else Return (Inr ())"] closes cl(2) list True
      by (simp add: evaluateWatches_def outcome_of_def world_deps_def letM_run undisturbed_def)
  next
    case False
    show ?thesis
      using outcome_of_bind [OF w1(1), where f = "\<lambda>r. case r of Inl e \<Rightarrow> Return (Inl e) | Inr closeEvent \<Rightarrow>
             if closeEvent then DoCloseWatches (e_ID ev) (\<lambda>r. case r of
                    Inl e \<Rightarrow> Return (Inl (Wrap ''close watches: '' e))
                  | Inr n \<Rightarrow> Return (Inr ()))
             else Return (Inr ())"] ret w1(2) list False
      by (simp add: evaluateWatches_def outcome_of_def world_deps_def letM_run undisturbed_def)
  qed
qed

lemma outcome_reschedule:
  fixes ev :: event and snap :: EventSnapshot and w :: world
  assumes "calm_notify notify" and "outcomes w = []" and "db_ok (tables w)"
  defines "obs \<equiv> observation_of ev snap (clock w)" and "rows \<equiv> active_rows (e_ID ev) (tables w)"
  shows "\<exists>w'. outcome_of (world_deps fetch notify) (reschedule True unsub (e_ID ev) ev snap) w =
      (due_alerts (claimed (tables w)) (alert_of ev snap obs unsub) obs (ts_Valid (e_PublicOnsaleAt ev)) rows,
       Inr (), w') \<and>
    claimed (tables w') = claimed (tables w) \<union>
      (\<Union>row\<in>set rows. claims row (row_kinds obs (ts_Valid (e_PublicOnsaleAt ev)) row))"
proof -
  let ?d = "world_deps fetch notify" and ?knew = "ts_Valid (e_PublicOnsaleAt ev)"
  obtain i where i: "exec (MinPollIntervalForEvent (e_ID ev)) w = (Inr i, w)"
    using assms(2) by (simp add: MinPollIntervalForEvent_def Let_def)
  define p where "p = update_params (e_ID ev) snap (clock w + (if i \<le> 0 then 300 else i) * Second)"
  let ?w1 = "snd (exec (UpdateEventLatest p) w)"
  have "ts_Valid (p_NextPollAt p)" by (simp add: p_def update_params_def TS_def)
  then have upd: "fst (exec (UpdateEventLatest p) w) = Inr ()" and w1: "outcomes ?w1 = []"
    "watches (tables ?w1) = watches (tables w)" "users (tables ?w1) = users (tables w)"
    "watch_alerts (tables ?w1) = watch_alerts (tables w)" "clock ?w1 = clock w"
    using assms(2) by (simp_all add: UpdateEventLatest_def)
  have rows: "active_rows (e_ID ev) (tables ?w1) = rows" by (simp add: active_rows_def rows_def w1)
  have u: "undisturbed (w_ID ` set (watches (tables w))) (claimed (tables w)) ?w1"
    by (simp add: undisturbed_def claimed_def w1)
  have ids: "r_ID ` set (active_rows (e_ID ev) (tables ?w1)) \<subseteq> w_ID ` set (watches (tables w))"
    "distinct (map r_ID (active_rows (e_ID ev) (tables ?w1)))"
    using active_rows_ids [OF assms(3)] by (simp_all add: rows rows_def)
  obtain w' where w': "outcome_of ?d (evaluateWatches True unsub ev snap obs ?knew) ?w1 =
      (due_alerts (claimed (tables w)) (alert_of ev snap obs unsub) obs ?knew rows, Inr (), w')"
    "claimed (tables w') = claimed (tables w) \<union> (\<Union>row\<in>set rows. claims row (row_kinds obs ?knew row))"
    using outcome_evaluate [OF assms(1) u ids, of fetch unsub snap obs ?knew] unfolding rows by blast
  have "outcome_of ?d (reschedule True unsub (e_ID ev) ev snap) w =
      outcome_of ?d (evaluateWatches True unsub ev snap obs ?knew) ?w1"
    using i upd w1(5)
    by (simp add: reschedule_def outcome_of_def world_deps_def letM_run split_beta Let_def obs_def
        flip: p_def)
  with w' show ?thesis by auto
qed

lemma outcome_ProcessEvent:
  fixes ev :: event and snap :: EventSnapshot and w w1 :: world
  assumes "calm_notify notify" and "outcomes w = []" and "db_ok (tables w)" and "ev \<in> set (events (tables w))"
    and "fetch (e_TmEventID ev) w = (Inr snap, w1)" and "outcomes w1 = []" and "tables w1 = tables w"
  defines "obs \<equiv> observation_of ev snap (clock w1)" and "rows \<equiv> active_rows (e_ID ev) (tables w)"
  shows "\<exists>w'. outcome_of (world_deps fetch notify) (ProcessEvent True unsub (e_ID ev)) w =
      (due_alerts (claimed (tables w)) (alert_of ev snap obs unsub) obs (ts_Valid (e_PublicOnsaleAt ev)) rows,
       Inr (), w') \<and>
    claimed (tables w') = claimed (tables w) \<union>
      (\<Union>row\<in>set rows. claims row (row_kinds obs (ts_Valid (e_PublicOnsaleAt ev)) row))"
proof -
  let ?d = "world_deps fetch notify" and ?i = "e_ID ev"
  have get: "exec (GetEvent ?i) w = (Inr ev, w)"
    using assms(2) GetEvent_found [OF assms(3,4)] by simp
  let ?insert = "exec (InsertAvailabilitySnapshot ?i (Some (sn_Availability snap))) w1"
  define w2 where "w2 = (if changed ev (sn_Availability snap) then snd ?insert else w1)"
  have ins: "\<exists>r. fst ?insert = Inr r" and w2: "outcomes w2 = []" "watches (tables w2) = watches (tables w)"
    "users (tables w2) = users (tables w)" "watch_alerts (tables w2) = watch_alerts (tables w)" "clock w2 = clock w1"
    "db_ok (tables w2)"
    using assms(3-7) query_keeps unfolding w2_def
    by (auto simp: InsertAvailabilitySnapshot_def Let_def)
  have rows: "active_rows ?i (tables w2) = rows" by (simp add: active_rows_def rows_def w2)
  have claims: "claimed (tables w2) = claimed (tables w)" by (simp add: claimed_def w2)
  have "outcome_of ?d (ProcessEvent True unsub ?i) w = outcome_of ?d (reschedule True unsub ?i ev snap) w2"
    using get ins
    by (auto simp: ProcessEvent_def outcome_of_def world_deps_def letM_run assms(5) w2_def split_beta)
  then show ?thesis
    using outcome_reschedule [OF assms(1) w2(1,6), of fetch unsub ev snap]
    unfolding rows claims w2(5) obs_def by simp
qed

section \<open>Property\<close>

text \<open>(C3) A poll that is not disturbed tells what is due: if Ticketmaster answers and no statement
  fails, the alerts handed to the notifier are, for each active watch of the event in turn and each
  milestone the evaluator reports for it, one alert if it was not told before and its owner may be
  mailed; afterwards exactly the reported milestones are claimed in addition, and the poll
  succeeds. The alerts are built from the event, the snapshot and the watch.\<close>
theorem poll_tells_what_is_due:
  assumes "outcomes w = []" and "reachable_db (tables w)" and "ev \<in> set (events (tables w))"
    and "Client_GetEvent (world_client b k nr ds de) (e_TmEventID ev) w = (Inr snap, w1)"
  shows "let d = main_deps b k nr ds de (email_sender marshal nr' key from_addr);
      obs = observation_of ev snap (clock w1);
      knew = ts_Valid (e_PublicOnsaleAt ev);
      rows = active_rows (e_ID ev) (tables w)
    in alerts_of d (ProcessEvent True unsub (e_ID ev)) w =
        due_alerts (claimed (tables w)) (alert_of ev snap obs unsub) obs knew rows \<and>
      fst (run d (ProcessEvent True unsub (e_ID ev)) w) = Inr () \<and>
      claimed (tables (snd (run d (ProcessEvent True unsub (e_ID ev)) w))) =
        claimed (tables w) \<union> (\<Union>row\<in>set rows. claims row (row_kinds obs knew row))"
proof -
  have w1: "outcomes w1 = []" "tables w1 = tables w"
    using stepsD [OF online_fetch, of w b k nr ds de "e_TmEventID ev"] assms(1,4)
    by (simp_all add: online_rel_def)
  obtain w' where "outcome_of (main_deps b k nr ds de (email_sender marshal nr' key from_addr))
      (ProcessEvent True unsub (e_ID ev)) w =
      (due_alerts (claimed (tables w)) (alert_of ev snap (observation_of ev snap (clock w1)) unsub)
        (observation_of ev snap (clock w1)) (ts_Valid (e_PublicOnsaleAt ev)) (active_rows (e_ID ev) (tables w)),
       Inr (), w')"
    "claimed (tables w') = claimed (tables w) \<union> (\<Union>row\<in>set (active_rows (e_ID ev) (tables w)).
       claims row (row_kinds (observation_of ev snap (clock w1)) (ts_Valid (e_PublicOnsaleAt ev)) row))"
    using outcome_ProcessEvent [where fetch = "Client_GetEvent (world_client b k nr ds de)",
        OF calm_main [of marshal nr' key from_addr] assms(1)
        reachable_db_ok [OF assms(2)] assms(3,4) w1, where unsub = unsub]
    unfolding main_deps_def by blast
  then show ?thesis by (simp add: outcome_of_def Let_def)
qed

text \<open>The example world: the cancellation is told to the one watch.\<close>
theorem poll_tells_what_is_due_witness:
  "\<exists>(snap :: EventSnapshot) (w1 :: world). map alert_pair (due_alerts {} (alert_of ex_event snap (observation_of ex_event snap (clock w1)) None)
      (observation_of ex_event snap (clock w1)) False (active_rows 1 ex_db)) = [(1, ''cancelled'')]"
proof -
  let ?tm = "world_client ''https://tm'' ''k'' (\<lambda>_. Inr ()) (\<lambda>_. Inr []) (\<lambda>_. Inr (ex_tm ''cancelled''))"
  have run: "map alert_pair (alerts_of (ex_deps ''cancelled'') (ProcessEvent True None 1) ex_world) =
      [(1, ''cancelled'')]"
    by code_simp
  have "isl (fst (Client_GetEvent ?tm ''G5'' ex_world)) = False" by code_simp
  then obtain snap w1 where g: "Client_GetEvent ?tm (e_TmEventID ex_event) ex_world = (Inr snap, w1)"
    by (metis eq_fst_iff isl_def sum.exhaust ex_event_def event.select_convs(2))
  have w: "outcomes ex_world = []" "reachable_db (tables ex_world)" "ex_event \<in> set (events (tables ex_world))"
    "tables ex_world = ex_db" "e_ID ex_event = 1" "claimed ex_db = {}" "\<not> ts_Valid (e_PublicOnsaleAt ex_event)"
    using ex_db_reachable by (simp_all add: ex_world_def ex_db_def claimed_def ex_event_def NULL_TS_def migrated_db_def empty_db_def)
  from poll_tells_what_is_due [OF w(1-3) g, where marshal = "\<lambda>_. []" and nr' = "\<lambda>_. Inr ()" and key = "[]"
      and from_addr = "''a@b''" and unsub = None]
  have "map alert_pair (due_alerts {} (alert_of ex_event snap (observation_of ex_event snap (clock w1)) None)
      (observation_of ex_event snap (clock w1)) False (active_rows 1 ex_db)) = [(1, ''cancelled'')]"
    using run unfolding Let_def ex_deps_def w(4-6) by (auto simp: w(7))
  then show ?thesis by (intro exI)
qed

end
