(* ===== verification/PollFrame.thy ===== *)
theory PollFrame
  imports PoolWorld
begin

text \<open>
  What a poll leaves alone: the frame of its calls, given which updates of events and which closings
  of watches it may make. Three relations on worlds are instances: the channel and its schedule, the
  rows of the events, and which events have an active watch.
\<close>

section \<open>The writes a poll may still make\<close>

text \<open>\<open>confined U C m\<close>: every update of an event from here on is in \<open>U\<close>, every closing of watches in \<open>C\<close>.\<close>

primrec confined :: "(updateEventLatestParams \<Rightarrow> bool) \<Rightarrow> (int \<Rightarrow> bool) \<Rightarrow> 'a act \<Rightarrow> bool" where
  "confined U C (Return x) = True"
| "confined U C (DoGetEvent i k) = (\<forall>r. (\<forall>e. r = Inr e \<longrightarrow> e_ID e = i) \<longrightarrow> confined U C (k r))"
| "confined U C (DoFetch i k) = (\<forall>r. confined U C (k r))"
| "confined U C (DoInsertSnapshot i s k) = (\<forall>r. confined U C (k r))"
| "confined U C (DoMinPollInterval i k) = (\<forall>r. confined U C (k r))"
| "confined U C (DoNow k) = (\<forall>r. confined U C (k r))"
| "confined U C (DoUpdateEventLatest p k) = (U p \<and> (\<forall>r. confined U C (k r)))"
| "confined U C (DoListActiveWatches i k) = (\<forall>r. confined U C (k r))"
| "confined U C (DoClaimWatchAlert i s k) = (\<forall>r. confined U C (k r))"
| "confined U C (DoNotify a k) = (\<forall>r. confined U C (k r))"
| "confined U C (DoMarkNotified i k) = (\<forall>r. confined U C (k r))"
| "confined U C (DoSetLastEvaluation i b k) = (\<forall>r. confined U C (k r))"
| "confined U C (DoCloseWatches i k) = (C i \<and> (\<forall>r. confined U C (k r)))"

lemma confined_bind:
  "confined U C m \<Longrightarrow> (\<And>x. confined U C (f x)) \<Longrightarrow> confined U C (act_bind m f)"
  by (induction m) auto

lemma confined_kinds: "confined U C (alert_kinds hn mk row kinds)"
  by (induction kinds) (auto simp: Let_def split: sum.split)

lemma confined_watches: "confined U C (alert_watches hn mk obs knew rows c)"
proof (induction rows arbitrary: c)
  case (Cons row rows)
  then show ?case
    unfolding alert_watches.simps Let_def
    by (intro confined_bind confined_kinds) (auto split: sum.split)
qed simp

lemma confined_evaluate: "C (e_ID ev) \<Longrightarrow> confined U C (evaluateWatches hn unsub ev snap obs knew)"
  unfolding evaluateWatches_def by (auto intro!: confined_bind confined_watches split: sum.split)

lemma confined_ProcessEvent: "confined (\<lambda>p. p_ID p = i) (\<lambda>j. j = i) (ProcessEvent hn unsub i)"
  by (auto simp: ProcessEvent_def reschedule_def Let_def update_params_def confined_evaluate split: sum.split)

lemma confined_mono:
  "confined U C m \<Longrightarrow> (\<And>p. U p \<Longrightarrow> U' p) \<Longrightarrow> (\<And>i. C i \<Longrightarrow> C' i) \<Longrightarrow> confined U' C' m"
  by (induction m) auto

section \<open>Running a confined poll\<close>

context world_preorder
begin

lemma run_confined:
  assumes "\<And>tm. steps R (fetch tm)" and "\<And>a. steps R (notify a)" and "steps R time_Now"
    and "\<And>i. steps R (exec (GetEvent i))" "\<And>i. steps R (exec (MinPollIntervalForEvent i))"
      "\<And>i av. steps R (exec (InsertAvailabilitySnapshot i av))" "\<And>i. steps R (exec (ListActiveWatchesForEvent i))"
      "\<And>i k. steps R (exec (ClaimWatchAlert i k))" "\<And>i. steps R (exec (MarkNotified i))"
      "\<And>i b. steps R (exec (SetLastEvaluation i b))"
    and "\<And>p. U p \<Longrightarrow> steps R (exec (UpdateEventLatest p))"
    and "\<And>i. C i \<Longrightarrow> steps R (exec (CloseWatchesForEvent i))"
    and "confined U C m"
  shows "steps R (run (world_deps fetch notify) m)"
  using assms(13)
proof (induction m)
  case (Return x)
  show ?case unfolding run.simps by (rule steps_ret)
next
  case (DoGetEvent i k)
  show ?case
  proof (rule stepsI)
    fix w
    obtain r w1 where get: "exec (GetEvent i) w = (r, w1)" by force
    have "e_ID e = i" if "r = Inr e" for e
      using exec_Inr [of "GetEvent i" w e w1] get that
      by (auto simp: GetEvent_def one_row_def dest: filter_eq_ConsD split: list.splits)
    then have "steps R (run (world_deps fetch notify) (k r))"
      by (intro DoGetEvent.IH rangeI) (use DoGetEvent.prems in auto)
    then have "R w1 (snd (run (world_deps fetch notify) (k r) w1))" by (rule stepsD)
    moreover have "R w w1" using stepsD [OF assms(4), of w i] get by simp
    ultimately show "R w (snd (run (world_deps fetch notify) (DoGetEvent i k) w))"
      using get step_trans by (simp add: world_deps_def letM_run)
  qed
qed (simp_all add: world_deps_def steps_letM assms(1-12))

end

section \<open>The frames\<close>

lemma exec_undisturbed: "outcomes w = [] \<Longrightarrow> outcomes (snd (exec q w)) = []"
  by (simp add: exec_def run_query_def split: prod.split)

lemma exec_selects: "selects (snd (exec q w)) = selects w"
  by (simp add: exec_def run_query_def tick_def Let_def split: list.split outcome.split prod.split)

text \<open>The channel and what is scheduled for it stay; time goes on; no failure is added.\<close>

definition idle_rel :: "world \<Rightarrow> world \<Rightarrow> bool" where
  "idle_rel w w' \<longleftrightarrow> jobs w' = jobs w \<and> jobs_cap w' = jobs_cap w \<and> enqueued w' = enqueued w \<and>
     selects w' = selects w \<and> clock w \<le> clock w' \<and> (outcomes w = [] \<longrightarrow> outcomes w' = [])"

interpretation idle: world_preorder idle_rel
  by unfold_locales (simp_all add: idle_rel_def)

lemma idle_exec: "steps idle_rel (exec q)"
  by (simp add: steps_def idle_rel_def exec_clock exec_selects exec_undisturbed)

lemma idle_prims:
  "steps idle_rel time_Now" "steps idle_rel (http_Do r)" "steps idle_rel (log_Print s)"
  "steps idle_rel (sleep t)" "steps idle_rel (rand_Int63n n)" "steps idle_rel (Acquire world_limiter c)"
  by (auto simp: steps_def idle_rel_def time_Now_def http_Do_def Let_def log_Print_def sleep_def tick_def rand_Int63n_def
      Acquire_def world_limiter_def prog_defs bucket_Wait_def split: list.split option.split prod.split sum.split)

lemma idle_fetch: "steps idle_rel (Client_GetEvent (world_client b k nr ds de) tm)"
  by (rule idle.steps_client) (rule idle_prims)+

lemma idle_notify: "steps idle_rel (Notify (world_notifier [email_sender marshal nr key from_addr]) a)"
  by (rule idle.steps_Notify) (auto intro: idle.steps_email idle_prims idle_exec)

text \<open>The same, and a part of the tables stays, as long as the statements leave it alone.\<close>

definition part_rel :: "(database \<Rightarrow> 'b) \<Rightarrow> world \<Rightarrow> world \<Rightarrow> bool" where
  "part_rel f w w' \<longleftrightarrow> idle_rel w w' \<and> same f w w'"

interpretation part: world_preorder "part_rel f"
  by unfold_locales (auto simp: part_rel_def same_def idle_rel_def)

lemmas part_defs = part_rel_def same_def idle_rel_def

lemma part_still: "steps idle_rel m \<Longrightarrow> steps still m \<Longrightarrow> steps (part_rel f) m"
  by (simp add: steps_def part_rel_def same_def)

lemma part_exec: "(\<And>t d. f (snd (q t d)) = f d) \<Longrightarrow> steps (part_rel f) (exec q)"
  using same_exec [of f q] idle_exec [of q] by (simp add: steps_def part_rel_def)

lemma part_fetch: "steps (part_rel f) (Client_GetEvent (world_client b k nr ds de) tm)"
  by (rule part_still [OF idle_fetch still_client(1)])

lemma part_notify:
  assumes "\<And>i c pl t d. f (snd (InsertNotification i c pl t d)) = f d"
  shows "steps (part_rel f) (Notify (world_notifier [email_sender marshal nr key from_addr]) a)"
proof -
  have prims: "steps (part_rel f) (http_Do r)" "steps (part_rel f) (log_Print s)" for r s
    by (rule part_still; rule idle_prims same_other)+
  have "steps (part_rel f) (exec (InsertNotification i c p))" for i c p
    by (rule part_exec) (rule assms)
  then show ?thesis by (intro part.steps_Notify) (auto intro: part.steps_email prims)
qed

text \<open>The events with an active watch, other than \<open>i\<close>.\<close>

definition watched :: "database \<Rightarrow> int set" where
  "watched d = w_EventID ` {x \<in> set (watches d). w_Status x = ''active''}"

lemma watched_same: "watches d' = watches d \<Longrightarrow> watched d' - {i} = watched d - {i}"
  by (simp add: watched_def)

lemma watched_update:
  assumes "\<And>x. w_EventID (f x) = w_EventID x" and "\<And>x. P x \<Longrightarrow> w_Status (f x) = w_Status x \<or> w_EventID x = i"
  shows "watched (d\<lparr>watches := update_where P f (watches d)\<rparr>) - {i} = watched d - {i}"
proof -
  define g where "g x = (if P x then f x else x)" for x
  have g: "w_EventID (g x) = w_EventID x" "w_EventID x \<noteq> i \<Longrightarrow> w_Status (g x) = w_Status x" for x
    using assms by (auto simp: g_def)
  have w: "watched d - {i} = w_EventID ` {x \<in> set (watches d). w_EventID x \<noteq> i \<and> w_Status x = ''active''}" for d
    by (auto simp: watched_def)
  have "{x \<in> g ` X. w_EventID x \<noteq> i \<and> w_Status x = ''active''} =
      g ` {x \<in> X. w_EventID x \<noteq> i \<and> w_Status x = ''active''}" for X
    using g by auto
  then show ?thesis
    unfolding w by (simp add: update_where_def g_def [symmetric] image_image g(1))
qed

lemma watched_queries:
  "watched (snd (GetEvent j t d)) - {i} = watched d - {i}"
  "watched (snd (MinPollIntervalForEvent j t d)) - {i} = watched d - {i}"
  "watched (snd (InsertAvailabilitySnapshot j av t d)) - {i} = watched d - {i}"
  "watched (snd (ListActiveWatchesForEvent j t d)) - {i} = watched d - {i}"
  "watched (snd (ClaimWatchAlert j c t d)) - {i} = watched d - {i}"
  "watched (snd (UpdateEventLatest p t d)) - {i} = watched d - {i}"
  "watched (snd (InsertNotification j c pl t d)) - {i} = watched d - {i}"
  "watched (snd (MarkNotified j t d)) - {i} = watched d - {i}"
  "watched (snd (SetLastEvaluation j b t d)) - {i} = watched d - {i}"
  "watched (snd (CloseWatchesForEvent i t d)) - {i} = watched d - {i}"
proof -
  show "watched (snd (MarkNotified j t d)) - {i} = watched d - {i}"
    "watched (snd (SetLastEvaluation j b t d)) - {i} = watched d - {i}"
    "watched (snd (CloseWatchesForEvent i t d)) - {i} = watched d - {i}"
    unfolding MarkNotified_def SetLastEvaluation_def CloseWatchesForEvent_def Let_def snd_conv
    by (rule watched_update; simp)+
qed (rule watched_same; simp add: query_defs Let_def)+

text \<open>The rows of the events, and which other events are watched.\<close>

lemma events_run:
  assumes "\<And>tm. steps (part_rel events) (fetch tm)" and "\<And>a. steps (part_rel events) (notify a)"
    and "confined (\<lambda>p. False) (\<lambda>j. True) m"
  shows "steps (part_rel events) (run (world_deps fetch notify) m)"
  by (rule part.run_confined [OF assms(1,2) _ _ _ _ _ _ _ _ _ _ assms(3)])
    (auto intro!: part_exec part_still idle_prims same_other simp: query_defs Let_def)

lemma watched_run:
  assumes "confined (\<lambda>p. True) (\<lambda>j. j = i) m"
  shows "steps (part_rel (\<lambda>d. watched d - {i}))
    (run (main_deps b k nr ds de (email_sender marshal nr' key from_addr)) m)"
  unfolding main_deps_def
  by (rule part.run_confined [OF _ _ _ _ _ _ _ _ _ _ _ _ assms])
    (intro part_fetch part_notify part_exec part_still idle_prims same_other watched_queries |
      simp only: watched_queries)+

end
