(* ===== verification/Ticks.thy ===== *)
theory Ticks
  imports Scheduler
begin

text \<open>
  Which of the due events a tick takes when nothing disturbs it: the longest overdue, as many as the
  budget, the cap and the room on the channel allow.
\<close>

section \<open>What is due\<close>

definition due_list :: "time \<Rightarrow> database \<Rightarrow> event list" where
  "due_list now d = sort_key (\<lambda>e. ts_Time (e_NextPollAt e))
     (filter (\<lambda>e. ts_Time (e_NextPollAt e) \<le> now \<and>
        (\<exists>x\<in>set (watches d). w_EventID x = e_ID e \<and> w_Status x = ''active'')) (events d))"

definition tick_room :: "int \<Rightarrow> world \<Rightarrow> int" where
  "tick_room maxTick w =
     min (min (fst (Remaining ClassPoll (clock w) (quota w))) maxTick) (int (jobs_cap w) - int (length (jobs w)))"

definition sent :: "int list \<Rightarrow> world \<Rightarrow> world" where
  "sent is w = w\<lparr>jobs := jobs w @ is, enqueued := enqueued w @ is\<rparr>"

lemma enqueue_quiet:
  assumes "selects w = []" and "length (jobs w) \<le> jobs_cap w"
  shows "snd (enqueue (world_scheduler k) es w) = sent (map e_ID (take (jobs_cap w - length (jobs w)) es)) w"
  using assms
proof (induction es arbitrary: w)
  case Nil
  then show ?case by (simp add: sent_def)
next
  case (Cons e es)
  show ?case
  proof (cases "length (jobs w) < jobs_cap w")
    case True
    let ?w = "sent [e_ID e] w"
    have "enqueue (world_scheduler k) (e # es) w = enqueue (world_scheduler k) es ?w"
      using True Cons.prems
      by (cases w) (simp add: letM_run world_scheduler_def select_send_def sent_def)
    moreover have "jobs_cap w - length (jobs w) = Suc (jobs_cap w - Suc (length (jobs w)))"
      using True by simp
    ultimately show ?thesis using Cons.IH [of ?w] Cons.prems True by (simp add: sent_def)
  next
    case False
    then show ?thesis using Cons.prems
      by (simp add: letM_run world_scheduler_def select_send_def sent_def)
  qed
qed

lemma tick_quiet:
  assumes "outcomes w = []" and "selects w = []" and "length (jobs w) \<le> jobs_cap w" and "maxTick < 2 ^ 31"
  shows "\<exists>q. snd (scheduler_tick (world_scheduler maxTick) w) =
    sent (map e_ID (take (nat (tick_room maxTick w)) (due_list (clock w) (tables w)))) (w\<lparr>quota := q\<rparr>)"
proof -
  obtain r q where r: "Remaining ClassPoll (clock w) (quota w) = (r, q)" by force
  define b where "b = (if r > maxTick then maxTick else r)"
  let ?w = "w\<lparr>quota := q\<rparr>" and ?s = "world_scheduler maxTick"
  let ?due = "due_list (clock w) (tables w)"
  have room: "tick_room maxTick w = min b (int (jobs_cap w) - int (length (jobs w)))"
    by (auto simp: tick_room_def r b_def min_def)
  have tick: "scheduler_tick ?s w =
      (if b \<le> 0 then ret () else orElse (exec (ListDueEvents (to_int32 b))) (\<lambda>_. ret ()) (enqueue ?s)) ?w"
    unfolding b_def by (simp add: scheduler_tick_def letM_run world_scheduler_def r Let_def)
  show ?thesis
  proof (cases "b \<le> 0")
    case True
    then have "snd (scheduler_tick ?s w) = sent [] ?w" by (simp add: tick sent_def ret_def)
    then show ?thesis using True by (intro exI [of _ q]) (simp add: room min_def)
  next
    case False
    have "b \<le> maxTick" by (simp add: b_def)
    then have b: "to_int32 b = b" using False assms(4) by (intro to_int32_id) simp_all
    have "snd (scheduler_tick ?s w) = snd (enqueue ?s (take (nat b) ?due) ?w)"
      using False assms(1) by (simp add: tick orElse_run b ListDueEvents_def due_list_def)
    moreover have "min (jobs_cap w - length (jobs w)) (nat b) = nat (tick_room maxTick w)"
      using False assms(3) by (simp add: room min_def) linarith
    ultimately have "snd (scheduler_tick ?s w) = sent (map e_ID (take (nat (tick_room maxTick w)) ?due)) ?w"
      using enqueue_quiet [of ?w maxTick "take (nat b) ?due"] assms(2,3) by (simp add: min.commute)
    then show ?thesis by (rule exI)
  qed
qed

lemma tick_enqueued:
  assumes "outcomes w = []" and "selects w = []" and "length (jobs w) \<le> jobs_cap w" and "maxTick < 2 ^ 31"
  shows "enqueued (snd (scheduler_tick (world_scheduler maxTick) w)) =
    enqueued w @ map e_ID (take (nat (tick_room maxTick w)) (due_list (clock w) (tables w)))"
  using tick_quiet [OF assms] by (auto simp: sent_def)

lemma due_list_set: "e \<in> set (due_list now d) \<longleftrightarrow> e \<in> set (events d) \<and> ts_Time (e_NextPollAt e) \<le> now \<and>
    (\<exists>x\<in>set (watches d). w_EventID x = e_ID e \<and> w_Status x = ''active'')"
  by (auto simp: due_list_def)

lemma sorted_take_before:
  assumes "sorted (map f xs)" and "x \<in> set xs" and "x \<notin> set (take n xs)" and "y \<in> set (take n xs)"
  shows "f y \<le> f x \<and> length (take n xs) = n"
proof -
  have "xs = take n xs @ drop n xs" by simp
  then have "x \<in> set (drop n xs)" using assms(2,3) by (metis Un_iff set_append)
  moreover have "sorted (map f (take n xs) @ map f (drop n xs))" using assms(1) by (simp flip: map_append)
  ultimately show ?thesis using assms(4) by (auto simp: sorted_append min_def)
qed

section \<open>Property\<close>



end
