(* ===== verification/Lifecycle.thy ===== *)
theory Lifecycle
  imports PollRun PollFrame Ticks WatchBook
begin

text \<open>
  The turn of an event: a new watch makes it due, the next tick takes it, its poll puts it off by the
  interval its watches ask for.
\<close>

section \<open>Rescheduling\<close>

text \<open>The shortest interval the active watches of an event ask for, five minutes without a watch.\<close>

definition asked_interval :: "int \<Rightarrow> database \<Rightarrow> int" where
  "asked_interval i d =
     (let is = map w_PollIntervalS (filter (\<lambda>x. w_EventID x = i \<and> w_Status x = ''active'') (watches d))
      in if is = [] \<or> Min (set is) \<le> 0 then 300 else Min (set is))"

lemma fold_min: "fold min js (i :: int) = Min (set (i # js))"
  by (metis Min.set_eq_fold)

lemma MinPollInterval_asked:
  assumes "fst (MinPollIntervalForEvent i t d) = Inr n"
  shows "(if n \<le> 0 then 300 else n) = asked_interval i d"
proof (cases "map w_PollIntervalS (filter (\<lambda>x. w_EventID x = i \<and> w_Status x = ''active'') (watches d))")
  case Nil
  then show ?thesis using assms by (simp add: MinPollIntervalForEvent_def asked_interval_def)
next
  case (Cons j js)
  then show ?thesis
    using assms by (simp add: MinPollIntervalForEvent_def asked_interval_def Let_def fold_min del: set_map set_filter)
qed

text \<open>What a poll does to the events: the row of its event is put off to \<open>t\<close>, the others stay.\<close>

definition put_off :: "int \<Rightarrow> time \<Rightarrow> event list \<Rightarrow> event list \<Rightarrow> bool" where
  "put_off i t es es' \<longleftrightarrow> map e_ID es' = map e_ID es \<and>
     filter (\<lambda>e. e_ID e \<noteq> i) es' = filter (\<lambda>e. e_ID e \<noteq> i) es \<and>
     (\<forall>e\<in>set es'. e_ID e = i \<longrightarrow> e_NextPollAt e = stored (TS t))"

lemma put_off_update:
  assumes "\<And>e. e_ID (f e) = e_ID e" and "\<And>e. e_NextPollAt (f e) = stored (TS t)"
  shows "put_off i t es (update_where (\<lambda>e. e_ID e = i) f es)"
  unfolding put_off_def
proof (intro conjI ballI impI)
  let ?es = "update_where (\<lambda>e. e_ID e = i) f es"
  show "map e_ID ?es = map e_ID es" by (simp add: update_where_def assms(1))
  show "filter (\<lambda>e. e_ID e \<noteq> i) ?es = filter (\<lambda>e. e_ID e \<noteq> i) es"
    by (induction es) (simp_all add: update_where_def assms(1))
  show "e_NextPollAt e = stored (TS t)" if "e \<in> set ?es" and "e_ID e = i" for e
    using that by (auto simp: update_where_def assms(2) split: if_splits)
qed

lemma update_puts_off:
  assumes "exec (UpdateEventLatest (update_params i snap t)) w = (r, w')"
  shows "put_off i t (events (tables w)) (events (tables w')) \<or>
    r \<noteq> Inr () \<and> events (tables w') = events (tables w)"
proof -
  let ?q = "UpdateEventLatest (update_params i snap t)"
  have p: "p_ID (update_params i snap t) = i" "p_NextPollAt (update_params i snap t) = TS t" "ts_Valid (TS t)"
    by (simp_all add: update_params_def)
  have upd: "put_off i t (events d) (events (snd (?q now d)))" for now d
    unfolding UpdateEventLatest_def p using p(3) by (simp add: put_off_update)
  show ?thesis
  proof (cases rule: exec_cases [of w ?q])
    case (ran now)
    then have "put_off i t (events (tables w)) (events (snd (?q now (tables w))))" by (intro upd)
    then show ?thesis using ran(3) assms by simp
  next
    case (lost e)
    then show ?thesis using assms by simp
  qed
qed

lemma part_events:
  "steps (part_rel events) (exec (GetEvent i))"
  "steps (part_rel events) (exec (InsertAvailabilitySnapshot i av))"
  "steps (part_rel events) (Notify (world_notifier [email_sender marshal nr key from_addr]) a)"
  by (rule part_exec part_notify; simp add: query_defs Let_def)+

text \<open>What a poll with the result \<open>r\<close> that began in \<open>w\<close> and ended in \<open>w'\<close> did to the rows of the events.\<close>

definition rescheduled :: "int \<Rightarrow> unit result \<Rightarrow> world \<Rightarrow> world \<Rightarrow> bool" where
  "rescheduled i r w w' \<longleftrightarrow> (\<exists>t n. clock w \<le> t \<and> t \<le> clock w' \<and> n \<in> {300, asked_interval i (tables w)} \<and>
    (outcomes w = [] \<longrightarrow> n = asked_interval i (tables w)) \<and>
    (put_off i (t + n * Second) (events (tables w)) (events (tables w')) \<or>
     r \<noteq> Inr () \<and> events (tables w') = events (tables w)))"

lemma rescheduled_fails: "r \<noteq> Inr () \<Longrightarrow> part_rel events w w' \<Longrightarrow> rescheduled i r w w'"
  unfolding rescheduled_def part_defs
  by (intro exI [of _ "clock w"] exI [of _ "asked_interval i (tables w)"]) simp

lemma rescheduled_later:
  assumes "rescheduled i r v w'" and "part_rel events w v" and "watches (tables v) = watches (tables w)"
  shows "rescheduled i r w w'"
proof -
  have "asked_interval i (tables v) = asked_interval i (tables w)" by (simp add: asked_interval_def assms(3))
  then show ?thesis
    using assms(1,2) unfolding rescheduled_def part_defs by (metis (no_types, lifting) order_trans)
qed

text \<open>The interval a poll reads.\<close>

lemma interval_read:
  assumes "exec (MinPollIntervalForEvent i) w = (r, w')"
  defines "n \<equiv> (case r of Inl _ \<Rightarrow> 300 | Inr n \<Rightarrow> if n \<le> 0 then 300 else n)"
  shows "n \<in> {300, asked_interval i (tables w)}" and "outcomes w = [] \<longrightarrow> n = asked_interval i (tables w)"
proof -
  have ok: "n = asked_interval i (tables w)" if k: "r = Inr k" for k
  proof -
    obtain t where "MinPollIntervalForEvent i t (tables w) = (Inr k, tables w')"
      using exec_Inr [of "MinPollIntervalForEvent i" w k w'] assms(1) k by blast
    then have "fst (MinPollIntervalForEvent i t (tables w)) = Inr k" by simp
    then show ?thesis using MinPollInterval_asked k by (simp add: n_def)
  qed
  have "outcomes w = [] \<longrightarrow> (\<exists>k. r = Inr k)"
    using assms(1) by (auto simp: MinPollIntervalForEvent_def Let_def)
  then show "n \<in> {300, asked_interval i (tables w)}" "outcomes w = [] \<longrightarrow> n = asked_interval i (tables w)"
    using ok by (cases r; auto simp: n_def)+
qed

lemma reschedule_puts_off:
  assumes "\<And>tm. steps (part_rel events) (fetch tm)" and "\<And>a. steps (part_rel events) (notify a)"
    and "run (world_deps fetch notify) (reschedule hn unsub i ev snap) w = (r, w')"
  shows "rescheduled i r w w'"
proof -
  obtain r1 w1 where min: "exec (MinPollIntervalForEvent i) w = (r1, w1)" by force
  define n where "n = (case r1 of Inl _ \<Rightarrow> 300 | Inr n \<Rightarrow> if n \<le> 0 then 300 else n)"
  note n = interval_read [OF min, folded n_def]
  let ?q = "UpdateEventLatest (update_params i snap (clock w1 + n * Second))"
  obtain r2 w2 where upd: "exec ?q w1 = (r2, w2)" by force
  have w1: "tables w1 = tables w" "clock w \<le> clock w1" "clock w1 \<le> clock w2"
    using min upd exec_clock [of w "MinPollIntervalForEvent i"] exec_clock [of w1 ?q]
      sameD [OF same_exec [of "\<lambda>d. d" "MinPollIntervalForEvent i"], of w]
    by (simp_all add: MinPollIntervalForEvent_def Let_def)
  let ?rest = "evaluateWatches hn unsub ev snap (observation_of ev snap (clock w2)) (ts_Valid (e_PublicOnsaleAt ev))"
  have run: "run (world_deps fetch notify) (reschedule hn unsub i ev snap) w =
      (case r2 of Inl e \<Rightarrow> (Inl (Wrap ''update event: '' e), w2)
       | Inr _ \<Rightarrow> run (world_deps fetch notify) ?rest w2)"
    using min upd
    by (simp add: reschedule_def world_deps_def letM_run Let_def n_def ret_def split: sum.split)
  have rest: "part_rel events w2 (snd (run (world_deps fetch notify) ?rest w2))"
    by (rule stepsD [OF events_run [OF assms(1,2) confined_evaluate]]) simp
  have "clock w2 \<le> clock w' \<and> events (tables w') = events (tables w2) \<and> (r2 \<noteq> Inr () \<longrightarrow> r \<noteq> Inr ())"
  proof (cases r2)
    case (Inl e)
    then show ?thesis using run assms(3) by simp
  next
    case (Inr x)
    then have "run (world_deps fetch notify) ?rest w2 = (r, w')" using run assms(3) by simp
    then show ?thesis using rest Inr by (simp add: part_defs)
  qed
  then have "clock w1 \<le> clock w' \<and> (put_off i (clock w1 + n * Second) (events (tables w)) (events (tables w')) \<or>
     r \<noteq> Inr () \<and> events (tables w') = events (tables w))"
    using update_puts_off [OF upd] w1(1,3) by auto
  then show ?thesis unfolding rescheduled_def using w1(2) n by blast
qed

lemma snapshot_puts_off:
  assumes "\<And>tm. steps (part_rel events) (fetch tm)" and "\<And>a. steps (part_rel events) (notify a)"
    and "run (world_deps fetch notify)
      (DoInsertSnapshot i av (\<lambda>r. case r of Inl e \<Rightarrow> Return (Inl (Wrap ''insert snapshot: '' e))
                    | Inr _ \<Rightarrow> reschedule hn unsub i ev snap)) w = (r, w')"
  shows "rescheduled i r w w'"
proof -
  let ?q = "InsertAvailabilitySnapshot i av"
  obtain r1 w1 where ins: "exec ?q w = (r1, w1)" by force
  have w1: "part_rel events w w1" "watches (tables w1) = watches (tables w)"
    using stepsD [OF part_events(2) [of i av], of w] sameD [OF same_exec [of watches ?q], of w] ins
    by (simp_all add: InsertAvailabilitySnapshot_def Let_def)
  show ?thesis
  proof (cases r1)
    case (Inl e)
    then have "r \<noteq> Inr ()" "w' = w1" using assms(3) ins by (auto simp: world_deps_def letM_run ret_def)
    then show ?thesis using w1(1) by (simp add: rescheduled_fails)
  next
    case (Inr x)
    then have "run (world_deps fetch notify) (reschedule hn unsub i ev snap) w1 = (r, w')"
      using assms(3) ins by (simp add: world_deps_def letM_run)
    then show ?thesis by (rule rescheduled_later [OF reschedule_puts_off [OF assms(1,2)] w1])
  qed
qed

lemma put_off_not_due: "put_off i t es (events d) \<Longrightarrow> now < ts_Time (stored (TS t)) \<Longrightarrow> e \<in> set (due_list now d) \<Longrightarrow> e_ID e \<noteq> i"
  by (auto simp: put_off_def due_list_set)

lemma ProcessEvent_puts_off:
  assumes "\<And>tm. steps (part_rel events) (fetch tm)" and "\<And>tm. steps still (fetch tm)" and "\<And>a. steps (part_rel events) (notify a)"
    and "run (world_deps fetch notify) (ProcessEvent hn unsub i) w = (r, w')"
  shows "rescheduled i r w w'"
proof -
  let ?d = "world_deps fetch notify"
  obtain r1 w1 where get: "exec (GetEvent i) w = (r1, w1)" by force
  have w1: "part_rel events w w1" "tables w1 = tables w"
    using stepsD [OF part_events(1), of w i] sameD [OF same_exec [of "\<lambda>d. d" "GetEvent i"], of w] get
    by (simp_all add: GetEvent_def)
  show ?thesis
  proof (cases r1)
    case (Inl e)
    have "r \<noteq> Inr ()" and "w' = w1"
      using assms(4) by (auto simp: ProcessEvent_def world_deps_def letM_run get Inl ret_def)
    then show ?thesis using w1(1) by (simp add: rescheduled_fails)
  next
    case (Inr ev)
    obtain r2 w2 where fetch: "fetch (e_TmEventID ev) w1 = (r2, w2)" by force
    have w2: "part_rel events w w2" "watches (tables w2) = watches (tables w)"
      using part.step_trans [OF w1(1), of w2] stepsD [OF assms(1), of w1 "e_TmEventID ev"] w1(2)
        sameD [OF assms(2), of "e_TmEventID ev" w1] fetch by simp_all
    show ?thesis
    proof (cases r2)
      case (Inl e)
      have "r \<noteq> Inr ()" and "w' = w2"
        using assms(4) by (auto simp: ProcessEvent_def world_deps_def letM_run get Inr fetch Inl ret_def)
      then show ?thesis using w2(1) by (simp add: rescheduled_fails)
    next
      case (Inr snap)
      then have "rescheduled i r w2 w'"
        using assms(4) reschedule_puts_off [OF assms(1,3), where r = r and w' = w' and w = w2]
          snapshot_puts_off [OF assms(1,3), where r = r and w' = w' and w = w2]
        by (auto simp: ProcessEvent_def world_deps_def letM_run get \<open>r1 = Inr ev\<close> fetch split: if_splits)
      then show ?thesis by (rule rescheduled_later [OF _ w2])
    qed
  qed
qed

section \<open>A new watch\<close>

abbreviation hush :: "world \<Rightarrow> world \<Rightarrow> bool" where
  "hush \<equiv> keeping (\<lambda>w. outcomes w = [])"

lemma hush_exec: "steps hush (exec q)"
  by (simp add: steps_def keeping_def exec_undisturbed)

lemma hush_stages:
  assumes "\<And>tm. steps hush (ws_GetEvent s tm)"
  shows "steps hush (checkCap s u)" and "steps hush (resolveEvent s tm)"
  unfolding checkCap_def resolveEvent_def by (intro steps_intros hush_exec assms)+

text \<open>The event a creation resolves is a row of the tables.\<close>

lemma UpsertEvent_row: "UpsertEventByTMID p t d = (Inr ev, d') \<Longrightarrow> ev \<in> set (events d')"
  by (auto simp: UpsertEventByTMID_def Let_def update_where_def dest: filter_eq_ConsD split: list.splits)

lemma resolveEvent_row:
  assumes "resolveEvent s tm w = (Inr ev, w')"
  shows "ev \<in> set (events (tables w'))"
proof -
  obtain r1 w1 where get: "exec (GetEventByTMID tm) w = (r1, w1)" by force
  show ?thesis
  proof (cases r1)
    case (Inr e)
    then have "ev = e" "w' = w1" using assms get by (simp_all add: resolveEvent_def orElse_run)
    then show ?thesis
      using exec_Inr [of "GetEventByTMID tm" w e w1] get Inr
      by (auto simp: GetEventByTMID_def one_row_def dest: filter_eq_ConsD split: list.splits)
  next
    case (Inl err)
    obtain snap v where up: "exec (UpsertEventByTMID (snapshot_params snap)) v = (Inr ev, w')"
      using assms get Inl
      by (auto simp: resolveEvent_def orElse_run orWrap_def split: if_splits prod.splits sum.splits)
    then obtain t where "UpsertEventByTMID (snapshot_params snap) t (tables v) = (Inr ev, tables w')"
      using exec_Inr [OF up] by blast
    then show ?thesis by (rule UpsertEvent_row)
  qed
qed

lemma MarkEventDue_due:
  assumes "ev \<in> set (events d)" and "x \<in> set (watches d)" and "w_EventID x = e_ID ev" and "w_Status x = ''active''"
  shows "\<exists>e\<in>set (due_list now (snd (MarkEventDue (e_ID ev) now d))).
    e_ID e = e_ID ev \<and> e_TmEventID e = e_TmEventID ev"
proof (rule bexI [of _ "ev\<lparr>e_NextPollAt := NOW now\<rparr>"])
  show "ev\<lparr>e_NextPollAt := NOW now\<rparr> \<in> set (due_list now (snd (MarkEventDue (e_ID ev) now d)))"
    using assms NOW_le by (auto simp: due_list_set MarkEventDue_def update_where_def intro: rev_image_eqI)
qed simp

lemma CreateWatch_inserts:
  assumes "CreateWatch u i c n l t d = (Inr x, d')"
  shows "events d' = events d" "x \<in> set (watches d')" "w_UserID x = u" "w_EventID x = i" "w_Status x = ''active''"
  using assms by (auto simp: CreateWatch_def Let_def split: if_splits)

lemma Create_makes_due:
  assumes "outcomes w = []" and "Create s u inp w = (Inr v, w')" and "quiet_fetch s"
    and "\<And>tm. steps hush (ws_GetEvent s tm)"
  shows "\<exists>x e. x \<in> set (watches (tables w')) \<and> w_ID x = wv_ID v \<and> w_UserID x = u \<and> w_EventID x = e_ID e \<and>
    e \<in> set (due_list (clock w') (tables w')) \<and> e_TmEventID e = wv_TMEventID v"
  using assms(3)
proof (cases rule: Create_stages [of s u inp w])
  case (refused e w1)
  then show ?thesis using assms(2) by simp
next
  case (inserted w1 ev w2 r w3)
  let ?i = "if cw_PollIntervalS inp \<le> 0 then 300 else cw_PollIntervalS inp"
  let ?q = "CreateWatch u (e_ID ev) ''becomes_available'' ?i (str (e_LastAvailability ev) = ''onsale'')"
  obtain x where r: "r = Inr x" using inserted(4) assms(2) by (cases r) auto
  let ?w = "snd (exec (MarkEventDue (e_ID ev)) w3)"
  have v: "wv_ID v = w_ID x" "wv_TMEventID v = e_TmEventID ev" "w' = ?w"
    using inserted(4) assms(2) r by (auto simp: watchViewFromEvent_def letM_run Let_def split_beta)
  have "outcomes w1 = []" using keepingD [OF hush_stages(1) [OF assms(4)]] assms(1) inserted(1) by (metis snd_conv)
  then have "outcomes w2 = []" using keepingD [OF hush_stages(2) [OF assms(4)]] inserted(2) by (metis snd_conv)
  then have w3: "outcomes w3 = []" using exec_undisturbed [of w2 ?q] inserted(3) by simp
  obtain t where t: "?q t (tables w2) = (Inr x, tables w3)"
    using exec_Inr [of ?q w2 x w3] inserted(3) r by blast
  note x = CreateWatch_inserts [OF t]
  have ev: "ev \<in> set (events (tables w3))" using resolveEvent_row [OF inserted(2)] x(1) by simp
  have mark: "tables ?w = snd (MarkEventDue (e_ID ev) (clock w3) (tables w3))" "clock ?w = clock w3"
    using w3 by simp_all
  have "watches (tables ?w) = watches (tables w3)" unfolding mark by (simp add: MarkEventDue_def)
  moreover obtain e where "e \<in> set (due_list (clock ?w) (tables ?w))" "e_ID e = e_ID ev" "e_TmEventID e = e_TmEventID ev"
    using MarkEventDue_due [OF ev x(2,4,5), of "clock w3"] unfolding mark by blast
  ultimately show ?thesis
    using x(2-4) v(1,2) unfolding v(3) by (intro exI [of _ x] exI [of _ e]) simp
qed

lemma Create_hush:
  assumes "\<And>tm. steps hush (ws_GetEvent s tm)"
  shows "steps hush (Create s u inp)"
proof -
  have view: "steps hush (watchViewFromEvent x ev)" for x ev
    by (simp add: steps_def keeping_def watchViewFromEvent_def letM_run Let_def)
  show ?thesis
    unfolding Create_def Let_def by (intro steps_intros hush_exec hush_stages assms view)
qed

lemma hush_main: "steps hush (ws_GetEvent (NewWatchService (Client_GetEvent (world_client b k nr ds de)) m) tm)"
  using part_fetch [of events b k nr ds de tm]
  by (simp add: NewWatchService_def steps_def part_defs keeping_def)

section \<open>What a failure between update and evaluation costs\<close>

text \<open>The start of the public sale is announced for a date to come.\<close>

definition ex_announced :: "world Deps" where
  "ex_announced = main_deps ''https://tm'' ''k'' (\<lambda>_. Inr ()) (\<lambda>_. Inr [])
     (\<lambda>_. Inr (ex_tm ''offsale''\<lparr>ev_Sales := \<lparr>sa_Public = \<lparr>ps_StartDateTime = ''2099-01-01T10:00:00Z'',
        ps_EndDateTime = [], ps_StartTBD = False, ps_StartTBA = False\<rparr>, sa_Presales = []\<rparr>\<rparr>))
     (email_sender (\<lambda>_. []) (\<lambda>_. Inr ()) [] ''a@b'')"

text \<open>Undisturbed, the poll tells it. If the list of watches cannot be read after the event was updated,
  neither this poll nor the next, undisturbed one does: the next finds the date known.\<close>

lemma announcement_lost:
  "map al_Kind (alerts_of ex_announced (ProcessEvent True None 1) ex_world) = [''onsale_announced''] \<and>
   (let w = ex_world\<lparr>outcomes := replicate 4 (Done 0 0) @ [Refused 0 ''down'']\<rparr>;
        w1 = snd (run ex_announced (ProcessEvent True None 1) w)
    in alerts_of ex_announced (ProcessEvent True None 1) w = [] \<and> outcomes w1 = [] \<and>
      alerts_of ex_announced (ProcessEvent True None 1) w1 = [])"
  by code_simp

section \<open>Properties\<close>

text \<open>(C17) A poll that succeeds puts its event off by the shortest interval its active watches ask for,
  or by the default where that could not be read, counted from a moment of the poll and cut to
  the microsecond the column keeps; no tick takes the event before. A poll that fails has done that, or has left the rows of the events as they
  were, so that the event stays due. The other events are never touched. Statements may fail, be
  delayed or lose their answers anywhere.\<close>
theorem poll_reschedules:
  assumes "run (main_deps b k nr ds de (email_sender marshal nr' key from_addr)) (ProcessEvent True unsub i) w = (r, w')"
  shows "\<exists>t n. clock w \<le> t \<and> t \<le> clock w' \<and> n \<in> {300, asked_interval i (tables w)} \<and>
    (outcomes w = [] \<longrightarrow> n = asked_interval i (tables w)) \<and>
    (put_off i (t + n * Second) (events (tables w)) (events (tables w')) \<and>
       (\<forall>now e. now < ts_Time (stored (TS (t + n * Second))) \<and> e \<in> set (due_list now (tables w')) \<longrightarrow> e_ID e \<noteq> i) \<or>
     r \<noteq> Inr () \<and> events (tables w') = events (tables w))"
proof -
  obtain t n where tn: "clock w \<le> t" "t \<le> clock w'" "n \<in> {300, asked_interval i (tables w)}"
      "outcomes w = [] \<longrightarrow> n = asked_interval i (tables w)"
      "put_off i (t + n * Second) (events (tables w)) (events (tables w')) \<or>
       r \<noteq> Inr () \<and> events (tables w') = events (tables w)"
    using ProcessEvent_puts_off [OF part_fetch still_client(1) part_events(3) assms [unfolded main_deps_def]]
    unfolding rescheduled_def by blast
  then show ?thesis
    using put_off_not_due [of i "t + n * Second" "events (tables w)" "tables w'"]
    by (intro exI [of _ t] exI [of _ n]) blast
qed

theorem poll_reschedules_witness:
  "\<exists>t n. 1000 \<le> t \<and> n \<in> {300, asked_interval 1 ex_db} \<and>
    put_off 1 (t + n * Second) [ex_event]
      (events (tables (snd (run (ex_deps ''cancelled'') (ProcessEvent True None 1) ex_world))))"
proof -
  have ok: "fst (run (ex_deps ''cancelled'') (ProcessEvent True None 1) ex_world) = Inr ()" by code_simp
  have w: "clock ex_world = 1000" "tables ex_world = ex_db" "events ex_db = [ex_event]"
    by (simp_all add: ex_world_def ex_db_def)
  obtain r w' where run: "run (ex_deps ''cancelled'') (ProcessEvent True None 1) ex_world = (r, w')" by force
  with ok have "r = Inr ()" by simp
  moreover obtain t n where "1000 \<le> t" "n \<in> {300, asked_interval 1 ex_db}"
    "put_off 1 (t + n * Second) [ex_event] (events (tables w')) \<or> r \<noteq> Inr ()"
    using poll_reschedules [OF run [unfolded ex_deps_def]] unfolding w by (elim exE conjE disjE) blast+
  ultimately show ?thesis unfolding run by auto
qed

text \<open>(C15) A new watch is polled at the next tick: a creation that answers with a watch, no statement
  failing, leaves the event of the answer due; a tick that follows puts it on the channel, where
  budget, cap and channel have room for what is due.\<close>
theorem new_watch_gets_polled:
  assumes "outcomes w = []"
    and "Create (NewWatchService (Client_GetEvent (world_client b k nr ds de)) m) u inp w = (Inr v, w')"
    and "selects w' = []" and "length (jobs w') \<le> jobs_cap w'" and "maxTick < 2 ^ 31"
    and "int (length (due_list (clock w') (tables w'))) \<le> tick_room maxTick w'"
  shows "\<exists>x e. x \<in> set (watches (tables w')) \<and> w_ID x = wv_ID v \<and> w_UserID x = u \<and> w_EventID x = e_ID e \<and>
    e \<in> set (due_list (clock w') (tables w')) \<and> e_TmEventID e = wv_TMEventID v \<and>
    e_ID e \<in> set (enqueued (snd (scheduler_tick (world_scheduler maxTick) w')))"
proof -
  have "outcomes w' = []"
    using keepingD [OF Create_hush [OF hush_main], of w b k nr ds de m u inp] assms(1,2) by simp
  then have tick: "enqueued (snd (scheduler_tick (world_scheduler maxTick) w')) =
      enqueued w' @ map e_ID (due_list (clock w') (tables w'))"
    using tick_enqueued [of w' maxTick] assms(3-6) by simp
  show ?thesis
    using Create_makes_due [OF assms(1,2) quiet_fetch_main hush_main] unfolding tick by auto
qed

theorem new_watch_gets_polled_witness:
  "1 \<in> set (enqueued (snd (scheduler_tick (world_scheduler 20)
     (snd (Create (ex_watches 2) 1 (ex_create ''G5'') ex_world)))))"
proof -
  obtain r w' where run: "Create (ex_watches 2) 1 (ex_create ''G5'') ex_world = (r, w')" by force
  have "isl (fst (Create (ex_watches 2) 1 (ex_create ''G5'') ex_world)) = False" by code_simp
  then obtain v where r: "r = Inr v" using run by (cases r) auto
  have s: "selects w' = []" "length (jobs w') \<le> jobs_cap w'"
    "int (length (due_list (clock w') (tables w'))) \<le> tick_room 20 w'"
  proof -
    have "(case Create (ex_watches 2) 1 (ex_create ''G5'') ex_world of (r, w') \<Rightarrow>
        (selects w' = [], length (jobs w') \<le> jobs_cap w',
         int (length (due_list (clock w') (tables w'))) \<le> tick_room 20 w')) = (True, True, True)"
      by code_simp
    then show "selects w' = []" "length (jobs w') \<le> jobs_cap w'"
      "int (length (due_list (clock w') (tables w'))) \<le> tick_room 20 w'" by (simp_all add: run)
  qed
  have ids: "map e_ID (due_list (clock w') (tables w')) = [1]"
  proof -
    have "(case Create (ex_watches 2) 1 (ex_create ''G5'') ex_world of (r, w') \<Rightarrow>
        map e_ID (due_list (clock w') (tables w'))) = [1]" by code_simp
    then show ?thesis by (simp add: run)
  qed
  have w: "outcomes ex_world = []" "(20::int) < 2 ^ 31" by (simp_all add: ex_world_def)
  obtain e where "e \<in> set (due_list (clock w') (tables w'))"
    "e_ID e \<in> set (enqueued (snd (scheduler_tick (world_scheduler 20) w')))"
    using new_watch_gets_polled [OF w(1) run [unfolded ex_watches_def r] s(1,2) w(2) s(3)] by blast
  moreover from this(1) ids have "e_ID e = 1" by (metis imageI list.set_map set_ConsD empty_iff list.set(1))
  ultimately show ?thesis by (simp add: run)
qed

end
