(* ===== verification/Turns.thy ===== *)
theory Turns
  imports Lifecycle
begin

text \<open>
  Every due event gets its turn: the rounds of tick and polls, the order in which they take the due
  events, and a bound on the rounds an event can wait.
\<close>

section \<open>A worker at work\<close>

text \<open>The loop of one worker over the jobs channel: a poll for each id, errors only logged.\<close>

fun work :: "world Deps \<Rightarrow> unsubscriber \<Rightarrow> int list \<Rightarrow> world \<Rightarrow> unit result list \<times> world" where
  "work d unsub [] w = ([], w)"
| "work d unsub (i # is) w =
     (case run d (ProcessEvent True unsub i) w of (r, w1) \<Rightarrow>
       case work d unsub is w1 of (rs, w2) \<Rightarrow> (r # rs, w2))"

text \<open>\<open>rounds k m d unsub n w w'\<close>: \<open>n\<close> times a tick with room for \<open>k\<close> events or more, the polls it
  asked for, all of them successful, and some time.\<close>

inductive rounds :: "nat \<Rightarrow> int \<Rightarrow> world Deps \<Rightarrow> unsubscriber \<Rightarrow> nat \<Rightarrow> world \<Rightarrow> world \<Rightarrow> bool"
  for k :: nat and maxTick :: int and d :: "world Deps" and unsub :: unsubscriber
where
  start: "rounds k maxTick d unsub 0 w w"
| turn: "int k \<le> tick_room maxTick w \<Longrightarrow> snd (scheduler_tick (world_scheduler maxTick) w) = w1 \<Longrightarrow>
    work d unsub (jobs w1) (w1\<lparr>jobs := []\<rparr>) = (rs, w2) \<Longrightarrow> set rs \<subseteq> {Inr ()} \<Longrightarrow>
    rounds k maxTick d unsub n (tick m w2) w' \<Longrightarrow> rounds k maxTick d unsub (Suc n) w w'"

section \<open>What the polls of a round do to the events\<close>

lemma asked_interval_pos: "asked_interval i d > 0"
  by (auto simp: asked_interval_def Let_def)

lemma poll_moves_on:
  assumes "run (main_deps b k nr ds de (email_sender marshal nr' key from_addr)) (ProcessEvent True unsub i) w = (Inr (), w')"
  shows "idle_rel w w'" and "watched (tables w') - {i} = watched (tables w) - {i}"
    and "\<exists>t. clock w < ts_Time (stored (TS t)) \<and> put_off i t (events (tables w)) (events (tables w'))"
proof -
  have "confined (\<lambda>p. True) (\<lambda>j. j = i) (ProcessEvent True unsub i)"
    by (rule confined_mono [OF confined_ProcessEvent]) simp_all
  from stepsD [OF watched_run [OF this], of w b k nr ds de marshal nr' key from_addr]
  show "idle_rel w w'" "watched (tables w') - {i} = watched (tables w) - {i}"
    unfolding assms by (simp_all add: part_rel_def same_def)
  obtain t n where t: "clock w \<le> t" "n \<in> {300, asked_interval i (tables w)}"
    "put_off i (t + n * Second) (events (tables w)) (events (tables w'))"
    using ProcessEvent_puts_off [OF part_fetch still_client(1) part_events(3) assms [unfolded main_deps_def]]
    unfolding rescheduled_def by blast
  moreover have "Second \<le> n * Second" using t(2) asked_interval_pos [of i "tables w"] by (auto simp: duration_defs)
  moreover have "t + n * Second < ts_Time (stored (TS (t + n * Second))) + Second"
    using stored_near [of "TS (t + n * Second)"] by (simp add: duration_defs Microsecond_def)
  ultimately show "\<exists>t. clock w < ts_Time (stored (TS t)) \<and> put_off i t (events (tables w)) (events (tables w'))"
    by (intro exI [of _ "t + n * Second"]) (simp del: One_nat_def)
qed

text \<open>The ids stay; the rows of the polled events move past the start of the round, the others stay.\<close>

definition moved_on :: "int set \<Rightarrow> time \<Rightarrow> database \<Rightarrow> database \<Rightarrow> bool" where
  "moved_on I t d d' \<longleftrightarrow> map e_ID (events d') = map e_ID (events d) \<and>
     (\<forall>e. e_ID e \<notin> I \<longrightarrow> (e \<in> set (events d') \<longleftrightarrow> e \<in> set (events d))) \<and>
     (\<forall>e\<in>set (events d'). e_ID e \<in> I \<longrightarrow> t < ts_Time (e_NextPollAt e)) \<and>
     watched d' - I = watched d - I"

lemma put_off_moved:
  assumes "put_off i t' (events d) (events d')" and "t < ts_Time (stored (TS t'))" and "watched d' - {i} = watched d - {i}"
  shows "moved_on {i} t d d'"
proof -
  have "filter (\<lambda>e. e_ID e \<noteq> i) (events d') = filter (\<lambda>e. e_ID e \<noteq> i) (events d)"
    using assms(1) by (simp add: put_off_def)
  then have "{e \<in> set (events d'). e_ID e \<noteq> i} = {e \<in> set (events d). e_ID e \<noteq> i}"
    by (metis set_filter)
  then show ?thesis using assms unfolding moved_on_def put_off_def by auto
qed

lemma moved_on_trans:
  assumes "moved_on I t d d1" and "moved_on J t1 d1 d2" and "t \<le> t1"
  shows "moved_on (I \<union> J) t d d2"
proof -
  have "watched d2 - (I \<union> J) = watched d - (I \<union> J)" using assms unfolding moved_on_def by blast
  moreover have "t < ts_Time (e_NextPollAt e)" if "e \<in> set (events d2)" and "e_ID e \<in> I \<union> J" for e
    using assms that unfolding moved_on_def by (cases "e_ID e \<in> J") fastforce+
  ultimately show ?thesis using assms(1,2) unfolding moved_on_def by auto
qed

lemma work_moves_on:
  assumes "work (main_deps b k nr ds de (email_sender marshal nr' key from_addr)) unsub is w = (rs, w')"
    and "set rs \<subseteq> {Inr ()}"
  shows "idle_rel w w' \<and> moved_on (set is) (clock w) (tables w) (tables w')"
  using assms
proof (induction "is" arbitrary: w rs)
  case Nil
  then show ?case by (simp add: idle_rel_def moved_on_def)
next
  case (Cons i js)
  let ?d = "main_deps b k nr ds de (email_sender marshal nr' key from_addr)"
  obtain r w1 where r: "run ?d (ProcessEvent True unsub i) w = (r, w1)" by force
  obtain ss w2 where ss: "work ?d unsub js w1 = (ss, w2)" by force
  have "rs = r # ss" and "w' = w2" using Cons.prems(1) by (simp_all add: r ss)
  then have rok: "r = Inr ()" and "set ss \<subseteq> {Inr ()}" and w': "work ?d unsub js w1 = (ss, w')"
    using Cons.prems(2) ss by auto
  then have IH: "idle_rel w1 w'" "moved_on (set js) (clock w1) (tables w1) (tables w')"
    using Cons.IH by blast+
  note one = poll_moves_on [OF r [unfolded rok]]
  obtain t where t: "clock w < ts_Time (stored (TS t))" "put_off i t (events (tables w)) (events (tables w1))" using one(3) by blast
  have "moved_on {i} (clock w) (tables w) (tables w1)" by (rule put_off_moved [OF t(2,1) one(2)])
  then have "moved_on ({i} \<union> set js) (clock w) (tables w) (tables w')"
    by (rule moved_on_trans [OF _ IH(2)]) (use one(1) in \<open>simp add: idle_rel_def\<close>)
  then show ?case using idle.step_trans [OF one(1) IH(1)] by simp
qed

section \<open>Waiting\<close>

text \<open>The events that are polled before or with one that is due at \<open>t\<close>.\<close>

definition ahead :: "time \<Rightarrow> database \<Rightarrow> event set" where
  "ahead t d = {e \<in> set (events d). ts_Time (e_NextPollAt e) \<le> t \<and> e_ID e \<in> watched d}"

lemma due_list_ahead: "set (due_list now d) = ahead now d"
proof -
  have "(\<exists>x\<in>set (watches d). w_EventID x = i \<and> w_Status x = ''active'') \<longleftrightarrow> i \<in> watched d" for i
    by (auto simp: watched_def)
  then show ?thesis by (auto simp: due_list_set ahead_def)
qed

lemma due_list_ids: "distinct (map e_ID (events d)) \<Longrightarrow> distinct (map e_ID (due_list now d))"
  by (simp add: due_list_def distinct_map inj_on_def)

text \<open>The state between two rounds.\<close>

definition resting :: "world \<Rightarrow> bool" where
  "resting w \<longleftrightarrow> outcomes w = [] \<and> selects w = [] \<and> jobs w = [] \<and> distinct (map e_ID (events (tables w)))"

text \<open>A round: what it takes, and that it moves on.\<close>

lemma round_takes:
  assumes "resting w" and "maxTick < 2 ^ 31" and "snd (scheduler_tick (world_scheduler maxTick) w) = w1"
    and "work (main_deps b k nr ds de (email_sender marshal nr' key from_addr)) unsub (jobs w1) (w1\<lparr>jobs := []\<rparr>) = (rs, w2)"
    and "set rs \<subseteq> {Inr ()}"
  shows "\<exists>taken. taken = take (nat (tick_room maxTick w)) (due_list (clock w) (tables w)) \<and>
    enqueued (tick m w2) = enqueued w @ map e_ID taken \<and> resting (tick m w2) \<and> clock w \<le> clock (tick m w2) \<and>
    moved_on (e_ID ` set taken) (clock w) (tables w) (tables (tick m w2))"
proof -
  let ?taken = "take (nat (tick_room maxTick w)) (due_list (clock w) (tables w))"
  obtain q where w1: "w1 = sent (map e_ID ?taken) (w\<lparr>quota := q\<rparr>)"
    using tick_quiet [of w maxTick] assms(1-3) unfolding resting_def by auto
  have "jobs w1 = map e_ID ?taken" using assms(1) by (simp add: w1 sent_def resting_def)
  then have "idle_rel (w1\<lparr>jobs := []\<rparr>) w2 \<and>
      moved_on (set (map e_ID ?taken)) (clock (w1\<lparr>jobs := []\<rparr>)) (tables (w1\<lparr>jobs := []\<rparr>)) (tables w2)"
    using work_moves_on [OF assms(4,5)] by simp
  then have w2: "idle_rel (w1\<lparr>jobs := []\<rparr>) w2" "moved_on (e_ID ` set ?taken) (clock w) (tables w) (tables w2)"
    by (simp_all add: w1 sent_def)
  have "resting (tick m w2)"
    using w2 assms(1) by (simp add: resting_def tick_def idle_rel_def w1 sent_def moved_on_def)
  moreover have "enqueued (tick m w2) = enqueued w @ map e_ID ?taken" "clock w \<le> clock (tick m w2)"
    using w2(1) by (simp_all add: idle_rel_def w1 sent_def tick_def)
  ultimately show ?thesis using w2(2) by (simp add: tick_def)
qed

lemma moved_on_ahead:
  assumes "moved_on (e_ID ` X) t d d'" and "t' \<le> t"
  shows "ahead t' d' \<subseteq> ahead t' d - X"
proof
  fix e assume e: "e \<in> ahead t' d'"
  then have n: "e_ID e \<notin> e_ID ` X" using assms unfolding ahead_def moved_on_def by force
  then have "e \<in> set (events d)" "e_ID e \<in> watched d" using e assms(1) unfolding ahead_def moved_on_def by blast+
  then show "e \<in> ahead t' d - X" using e n by (auto simp: ahead_def)
qed

lemma round_shortens:
  fixes e :: event
  assumes "resting w" and "e \<in> set (due_list (clock w) (tables w))" and "int k \<le> tick_room maxTick w"
    and "moved_on (e_ID ` set taken) (clock w) (tables w) d'"
    and "taken = take (nat (tick_room maxTick w)) (due_list (clock w) (tables w))" and "e \<notin> set taken"
    and "clock w \<le> now"
  shows "e \<in> set (due_list now d') \<and>
    card (ahead (ts_Time (e_NextPollAt e)) d') + k \<le> card (ahead (ts_Time (e_NextPollAt e)) (tables w))"
proof -
  let ?T = "ts_Time (e_NextPollAt e)" and ?due = "due_list (clock w) (tables w)"
  have ids: "distinct (map e_ID ?due)" using assms(1) by (simp add: resting_def due_list_ids)
  have sub: "set taken \<subseteq> set ?due" unfolding assms(5) by (rule set_take_subset)
  have "e_ID e \<notin> e_ID ` set taken"
    using inj_onD [of e_ID "set ?due"] ids sub assms(2,6) by (auto simp: distinct_map)
  then have e: "e \<in> set (due_list now d')"
    using assms(2,4,7) unfolding due_list_ahead ahead_def moved_on_def by auto
  have s: "sorted (map (\<lambda>e. ts_Time (e_NextPollAt e)) ?due)" by (simp add: due_list_def)
  have before: "ts_Time (e_NextPollAt x) \<le> ?T \<and> length taken = nat (tick_room maxTick w)" if "x \<in> set taken" for x
    using sorted_take_before [OF s assms(2)] that assms(5,6) by simp
  have "length taken = nat (tick_room maxTick w) \<or> set ?due \<subseteq> set taken"
    unfolding assms(5) by (cases "nat (tick_room maxTick w) \<le> length ?due") simp_all
  then have len: "k \<le> length taken" using assms(2,3,6) by auto
  have X: "set taken \<subseteq> ahead ?T (tables w)"
    using before sub unfolding due_list_ahead ahead_def by blast
  have "?T \<le> clock w" using assms(2) by (simp add: due_list_set)
  then have "ahead ?T d' \<subseteq> ahead ?T (tables w) - set taken" by (rule moved_on_ahead [OF assms(4)])
  moreover have fin: "finite (ahead ?T (tables w))" by (simp add: ahead_def)
  ultimately have "card (ahead ?T d') \<le> card (ahead ?T (tables w)) - card (set taken)"
    by (metis X card_Diff_subset card_mono finite_Diff finite_set)
  moreover have "card (set taken) = length taken"
    using ids unfolding assms(5) by (intro distinct_card distinct_take) (simp add: distinct_map)
  moreover have "card (set taken) \<le> card (ahead ?T (tables w))" by (rule card_mono [OF fin X])
  ultimately show ?thesis using e len by simp
qed

lemma rounds_reach:
  fixes w w' :: world
  assumes "rounds k maxTick (main_deps b ky nr ds de (email_sender marshal nr' key from_addr)) unsub n w w'"
    and "resting w" and "maxTick < 2 ^ 31"
  shows "\<exists>is. enqueued w' = enqueued w @ is \<and>
    (\<forall>e. e \<in> set (due_list (clock w) (tables w)) \<and>
       card (ahead (ts_Time (e_NextPollAt e)) (tables w)) \<le> k * n \<longrightarrow> e_ID e \<in> set is)"
  using assms(1,2)
proof (induction rule: rounds.induct)
  case (start w)
  have "0 < card (ahead (ts_Time (e_NextPollAt e)) (tables w))" if "e \<in> set (due_list (clock w) (tables w))" for e
    using that unfolding due_list_ahead by (auto simp: card_gt_0_iff ahead_def)
  then show ?case by fastforce
next
  case (turn w w1 rs w2 n m w')
  obtain taken where t: "taken = take (nat (tick_room maxTick w)) (due_list (clock w) (tables w))"
    "enqueued (tick m w2) = enqueued w @ map e_ID taken" "resting (tick m w2)" "clock w \<le> clock (tick m w2)"
    "moved_on (e_ID ` set taken) (clock w) (tables w) (tables (tick m w2))"
    using round_takes [OF turn.prems assms(3) turn.hyps(2-4), of m] by blast
  obtain js where js: "enqueued w' = enqueued (tick m w2) @ js"
    "\<And>e. e \<in> set (due_list (clock (tick m w2)) (tables (tick m w2))) \<Longrightarrow>
       card (ahead (ts_Time (e_NextPollAt e)) (tables (tick m w2))) \<le> k * n \<Longrightarrow> e_ID e \<in> set js"
    using turn.IH [OF t(3)] by blast
  have "e_ID e \<in> set (map e_ID taken @ js)"
    if e: "e \<in> set (due_list (clock w) (tables w))"
      and c: "card (ahead (ts_Time (e_NextPollAt e)) (tables w)) \<le> k * Suc n" for e
  proof (cases "e \<in> set taken")
    case False
    have "e_ID e \<in> set js"
      using round_shortens [OF turn.prems e turn.hyps(1) t(5,1) False t(4)] c by (intro js(2)) simp_all
    then show ?thesis by simp
  qed simp
  then show ?case using t(2) js(1) by (intro exI [of _ "map e_ID taken @ js"]) auto
qed

text \<open>The polls have to succeed: an event that cannot be fetched is left due, so that each tick takes it
  again, whatever interval its watches ask for, and each time it costs a request.\<close>

lemma failing_event_every_tick:
  "let d = main_deps ''https://tm'' ''k'' (\<lambda>_. Inr ()) (\<lambda>_. Inr []) (\<lambda>_. Inl (Opaque ''gone''))
          (email_sender (\<lambda>_. []) (\<lambda>_. Inr ()) [] ''a@b'');
       w1 = snd (scheduler_tick (world_scheduler 20) ex_world);
       w2 = snd (work d None (jobs w1) (w1\<lparr>jobs := []\<rparr>));
       w3 = snd (scheduler_tick (world_scheduler 20) w2);
       w4 = snd (work d None (jobs w3) (w3\<lparr>jobs := []\<rparr>))
   in enqueued w4 = [1, 1] \<and> length (wire w4) = 2 \<and> clock w4 < ts_Time (e_NextPollAt ex_event) + 300 * Second"
  by code_simp

section \<open>Property\<close>

text \<open>(C16) No due event starves. If in \<open>n\<close> rounds in a row every tick has room for \<open>k\<close> events and the
  polls succeed, then each event that was due at the start, with at most \<open>k * n\<close> watched events
  due before or with it, is on the channel in one of them, whatever else becomes due meanwhile.\<close>
theorem no_event_starves:
  fixes e :: event and w w' :: world
  assumes "reachable_db (tables w)" and "outcomes w = []" and "selects w = []" and "jobs w = []"
    and "maxTick < 2 ^ 31" and "e \<in> set (due_list (clock w) (tables w))"
    and "rounds k maxTick (main_deps b ky nr ds de (email_sender marshal nr' key from_addr)) unsub n w w'"
    and "card (ahead (ts_Time (e_NextPollAt e)) (tables w)) \<le> k * n"
  shows "\<exists>is. enqueued w' = enqueued w @ is \<and> e_ID e \<in> set is"
proof -
  have "resting w"
    using reachable_db_ok [OF assms(1)] assms(2-4) by (simp add: resting_def db_ok_def keyed_def)
  then show ?thesis using rounds_reach [OF assms(7) _ assms(5)] assms(6,8) by blast
qed

text \<open>One round of the example world, whose one event is due.\<close>
theorem no_event_starves_witness:
  "\<exists>(w' :: world) is. rounds 1 20 (ex_deps ''cancelled'') None 1 ex_world w' \<and> enqueued w' = is \<and> 1 \<in> set is"
proof -
  let ?w1 = "snd (scheduler_tick (world_scheduler 20) ex_world)"
  let ?work = "work (ex_deps ''cancelled'') None (jobs ?w1) (?w1\<lparr>jobs := []\<rparr>)"
  have w: "reachable_db (tables ex_world)" "outcomes ex_world = []" "selects ex_world = []" "jobs ex_world = []"
    "enqueued ex_world = []" "(20::int) < 2 ^ 31"
    using ex_db_reachable by (simp_all add: ex_world_def)
  have room: "int 1 \<le> tick_room 20 ex_world" by code_simp
  obtain rs w2 where work: "?work = (rs, w2)" by force
  have "list_all (\<lambda>r. \<not> isl r) (fst ?work)" by code_simp
  then have all: "list_all (\<lambda>r. \<not> isl r) rs" unfolding work fst_conv .
  have "r = Inr ()" if "\<not> isl r" for r :: "unit result" using that by (cases r) simp_all
  with all have ok: "set rs \<subseteq> {Inr ()}" by (auto simp: list_all_iff)
  have "rounds 1 20 (ex_deps ''cancelled'') None (Suc 0) ex_world (tick 0 w2)"
  proof (rule rounds.turn)
    show "int 1 \<le> tick_room 20 ex_world" by (rule room)
    show "snd (scheduler_tick (world_scheduler 20) ex_world) = ?w1" ..
    show "?work = (rs, w2)" by (rule work)
    show "set rs \<subseteq> {Inr ()}" by (rule ok)
  qed (rule rounds.start)
  then have r: "rounds 1 20 (ex_deps ''cancelled'') None 1 ex_world (tick 0 w2)" by (simp only: One_nat_def)
  have i: "map e_ID (due_list (clock ex_world) (tables ex_world)) = [1]" by code_simp
  then obtain e where e: "e \<in> set (due_list (clock ex_world) (tables ex_world))" "e_ID e = 1"
    by (metis in_set_conv_decomp map_eq_Cons_D append_Nil)
  have "ahead t (tables ex_world) \<subseteq> {ex_event}" for t by (auto simp: ahead_def ex_world_def ex_db_def)
  then have "card (ahead t (tables ex_world)) \<le> 1 * 1" for t
    using card_mono [of "{ex_event}"] by fastforce
  from no_event_starves [OF w(1-4,6) e(1) r [unfolded ex_deps_def] this]
  show ?thesis using r unfolding w(5) e(2) by auto
qed

end
