(* ===== verification/Spec2Isabelle.thy ===== *)
theory Spec2Isabelle
  imports System Ledger Turns
begin

text \<open>
  TicketWatcher watches Ticketmaster events for its users and mails them when a sale milestone is
  reached. This library models the Go server under \<open>src/\<close> and proves what makes it correct.

  \<^bold>\<open>The program.\<close> One process (\<open>cmd/api/main.go\<close>) runs four things over one PostgreSQL database.
  The HTTP server (\<open>internal/httpapi\<close>) calls the services (\<open>internal/service\<close>), which run queries
  (\<open>internal/store\<close>) and ask Ticketmaster (\<open>internal/ticketmaster\<close>). The scheduler
  (\<open>internal/scheduler\<close>) finds the events due for a poll and puts their ids on a channel. The workers
  (\<open>internal/worker\<close>) take ids from it, poll the event, let the evaluator (\<open>internal/evaluator\<close>)
  decide which milestones each watch has reached, claim each in the table \<open>watch_alerts\<close>, and hand
  the alert to the notifier (\<open>internal/notifier\<close>). All calls to Ticketmaster pass the limiter and
  the daily quota, all public routes the per-address limiter (\<open>internal/ratelimit\<close>).

  \<^bold>\<open>The model.\<close> A Go function with effects is a \<open>prog\<close>: a function from the state to a result and
  the state after. A return of \<open>(T, error)\<close> is a sum, with the error on the left (\<open>gerr\<close> keeps the
  sentinel errors and what \<open>fmt.Errorf\<close> wrapped around them, so \<open>errors.Is\<close> computes). The state is
  the record \<open>world\<close>: tables, clock, random source, network, console, quota, jobs channel, and the
  schedules of what each of them will do. A schedule is part of the initial state, so a theorem for
  every world covers every delay, every refused statement, every answer lost after the statement
  took effect, every response of the network. A statement is the atom of interleaving: a poll is a
  value of the datatype \<open>act\<close>, the next call with its continuation, and \<open>pool_step\<close> and
  \<open>process_step\<close> interleave the calls of any number of polls with anything else.

  \<^bold>\<open>Theories, from the bottom.\<close>
  \<^item> Prelude: errors, \<open>prog\<close> and its combinators, the locale \<open>step_preorder\<close> that lifts a reflexive
    and transitive relation on states over them, lists. GoStd: the parts of \<open>strings\<close>, \<open>strconv\<close>,
    \<open>html\<close>, \<open>hex\<close> and \<open>base64\<close> the code calls, machine integers. GoTime: instants, calendar dates, RFC 3339.
  \<^item> Store: \<open>db/models.go\<close> and every query of \<open>db/queries.sql.go\<close>, with the keys, defaults and
    cascades of the migrations. StoreOk: the integrity of the tables, kept by every statement, and
    the tables that sequences of statements can produce (\<open>reachable_db\<close>).
  \<^item> RateLimit: \<open>quota.go\<close>, \<open>limiter.go\<close>, \<open>ip.go\<close>. Ledger: the abstract specification of the quota,
    and that the code refines it.
  \<^item> World: the state and its primitive operations; \<open>exec\<close> runs a query through the connection pool.
  \<^item> Evaluator: \<open>evaluator.go\<close> against an order-free specification of each milestone.
  \<^item> Ticketmaster: \<open>client.go\<close> and \<open>types.go\<close>: requests, retries and backoff, and the normalisation
    of a response to a snapshot. Render and Notifier: \<open>render.go\<close>, \<open>auth_mail.go\<close>, \<open>notifier.go\<close> and
    both senders.
  \<^item> Worker: one poll (\<open>worker.go\<close>). Pool: any number of polls, against the contract \<open>claim_store\<close> of
    what claims; Statements: what every program does to the world is made of statements (locale
    \<open>statement_programs\<close>); PoolWorld: the contract holds of the database. Polls: the calls of a
    poll, counted. PollRun: what an undisturbed poll does in full.
  \<^item> Scheduler: \<open>scheduler.go\<close>. Ticks: which events a tick takes. Lifecycle: the turn of an
    event, from the watch that makes it due over the tick and the poll to the next poll; PollFrame
    holds what a poll leaves alone. Turns: rounds of ticks and polls.
  \<^item> Crypto: SHA-256 and HMAC. Auth: \<open>auth.go\<close>, \<open>token.go\<close>, \<open>unsubscribe.go\<close>. AuthService and
    AuthFlows: \<open>service/auth.go\<close> and its properties.
  \<^item> Isolation: the rows of one user (\<open>dossier_of\<close>) and what leaves them alone. WatchService and
    WatchBook: \<open>service/watch.go\<close> and its properties, with the abstract book of watches. Services:
    \<open>account.go\<close>, \<open>notification.go\<close>, \<open>search.go\<close>.
  \<^item> Pages, HttpApi and HttpProps: \<open>pages.go\<close>, \<open>router.go\<close>, \<open>httpapi/ratelimit.go\<close> and the middleware of
    \<open>auth.go\<close>, and the properties of the interface.
  \<^item> Config: \<open>config.go\<close>. Wiring: \<open>store/migrate.go\<close> and main up to the listening server. System: the
    running process and its shutdown.

  \<^bold>\<open>What the theorems show.\<close> Alerts: a milestone reaches a watch once, under every interleaving
  (\<open>milestones_told_once\<close>), only with the owner's consent (\<open>alerts_had_consent\<close>,
  \<open>opt_out_stops_alerts\<close>), and an undisturbed poll tells all that is due and no more
  (\<open>poll_tells_what_is_due\<close>, \<open>Evaluate_reports_due\<close>). Polling: a new watch is polled at the next
  tick (\<open>new_watch_gets_polled\<close>), a poll puts its event off by the interval asked for or leaves it
  due (\<open>poll_reschedules\<close>), and no due event starves (\<open>no_event_starves\<close>). The process: it refines the
  pool (\<open>process_refines_pool\<close>), keeps its invariant, its polls end within a bound
  (\<open>poll_terminates\<close>), no due event is passed over, and its shutdown is in order and can always
  complete. Users: no session, no effect; one user's requests spare the rows of another; a deleted
  account leaves nothing; the cap holds; the service is a book of watches. Accounts: links work
  once and only while they live, a reset lets its owner log in, tokens give back what was put
  in. Limits: the quota is a ledger of days, every request is paid for, the inbound limiter stays
  small. Texts: no foreign text adds a tag to a mail, both bodies agree. Where two statements are
  not one, a few lemmas show what an unlucky order costs: \<open>refund_across_midnight_overspends\<close>,
  \<open>announcement_lost\<close>, \<open>redeem_race\<close>, \<open>cap_race\<close>; \<open>failing_event_every_tick\<close> shows what an event
  costs that cannot be fetched, and \<open>label_misses_event_date\<close> where a comment
  promises more than the code.

  \<^bold>\<open>Interfaces.\<close> Each locale states what a client relies on and is interpreted on the code's own
  definitions: \<open>step_preorder\<close> (several relations), \<open>claim_store\<close> (the database), \<open>delivery\<close> (both
  senders), \<open>limited_client\<close> (the Ticketmaster client over the shared limiter), \<open>job_source\<close> (the
  scheduler over the world), \<open>world_preorder\<close> (polls that are not disturbed, and what a poll leaves
  alone) and its extension \<open>statement_programs\<close> (twice: the tables move by statements
  only; quota, channel and clock stay in order).

  \<^bold>\<open>Bounds.\<close> Recursion is structural or has a measure; there is no fuel. The client's loop counts
  its retries down (\<open>maxRetries\<close>). A poll has no loop that the data does not bound: nine calls and
  seven for each watch read. Integers that the code keeps at 32 or 64 bits and that arithmetic could
  overflow are wrapped where the code converts them (\<open>to_int32\<close>, \<open>Time_Sub\<close>, the parsing of decimal
  numbers); ids and counters of rows are mathematical integers.

  \<^bold>\<open>Parameters.\<close> Code outside the repository is an argument: bcrypt and JWT (\<open>auth_lib\<close>), the token
  bucket (\<open>rate_lib\<close>), JSON (\<open>json_lib\<close> and the decoders), the building of HTTP requests, chi's
  matching of patterns and its own error pages, goose, the embedded files, the parsing of floats and
  durations. What a theorem needs of one of them is a hypothesis of it.

  \<^bold>\<open>Not modelled.\<close> Diagnostics written with \<open>log.Printf\<close> (the log sender's output is modelled, as it
  is what the user gets); the listening socket, the TLS and the timeouts of \<open>net/http\<close>; transactions,
  as the code has none; daylight saving, as the quota's location is a fixed offset; the rounding of
  floating-point numbers; the plumbing sqlc generates (\<open>db/db.go\<close>), whose behaviour is \<open>exec\<close>; the
  directive that embeds the frontend (\<open>web/embed.go\<close>), the frontend itself and the tests.
\<close>

end
